(* ===== verification/Prelude.thy ===== *)
theory Prelude
  imports
    Main
    "HOL-Library.Word"
    "HOL-Library.List_Lexorder"
    "HOL-Library.Char_ord"
    "HOL-Library.Product_Lexorder"
    "HOL-Library.Sublist"
begin

text \<open>
  The shared vocabulary of the development: the parts of the Rust standard library the crate
  uses (machine-integer casts, \<open>Option\<close> combinators, \<open>HashMap\<close>, stable sorting,
  \<open>str::parse\<close>), and the generic lemmas on them.

  \<^item> A signed machine integer is an \<open>int\<close>; a cast or an addition that the source performs at
    a width goes through \<open>i32_wrap\<close> / \<open>i64_wrap\<close>, which read the two's-complement word.
  \<^item> A \<open>HashMap\<close> is an association list with distinct keys. The list order stands for the
    (arbitrary) iteration order of the hash map: a statement about every well-formed list is a
    statement about every iteration order.
  \<^item> A text is a \<open>string\<close> of bytes; its order is the byte-wise lexicographic order of Rust's
    \<open>String\<close>.
\<close>

named_theorems hm_simps \<open>rewriting of hash-map operations\<close>
named_theorems store_defs \<open>definitions of the operations of the in-memory store\<close>
named_theorems ctx_defs \<open>definitions of the operations of the durable context\<close>

section \<open>Machine integers\<close>

definition i32_wrap :: "int \<Rightarrow> int" where
  "i32_wrap x = sint (word_of_int x :: 32 word)"

definition i64_wrap :: "int \<Rightarrow> int" where
  "i64_wrap x = sint (word_of_int x :: 64 word)"

definition i64_min :: int where "i64_min = - (2 ^ 63)"

definition i64_max :: int where "i64_max = 2 ^ 63 - 1"

definition i32_min :: int where "i32_min = - (2 ^ 31)"

definition i32_max :: int where "i32_max = 2 ^ 31 - 1"

lemma i64_wrap_id: "i64_min \<le> x \<Longrightarrow> x \<le> i64_max \<Longrightarrow> i64_wrap x = x"
  by (simp add: i64_wrap_def i64_min_def i64_max_def sint_sbintrunc' signed_take_bit_int_eq_self)

lemma i32_wrap_id: "i32_min \<le> x \<Longrightarrow> x \<le> i32_max \<Longrightarrow> i32_wrap x = x"
  by (simp add: i32_wrap_def i32_min_def i32_max_def sint_sbintrunc' signed_take_bit_int_eq_self)

lemma i64_wrap_range: "i64_min \<le> i64_wrap x \<and> i64_wrap x \<le> i64_max"
  using sint_range_size [of "word_of_int x :: 64 word"]
  by (simp add: i64_wrap_def i64_min_def i64_max_def word_size)

lemma i32_wrap_range: "i32_min \<le> i32_wrap x \<and> i32_wrap x \<le> i32_max"
  using sint_range_size [of "word_of_int x :: 32 word"]
  by (simp add: i32_wrap_def i32_min_def i32_max_def word_size)

section \<open>Option combinators\<close>

definition is_some_and :: "('a \<Rightarrow> bool) \<Rightarrow> 'a option \<Rightarrow> bool" where
  "is_some_and p x = (case x of None \<Rightarrow> False | Some v \<Rightarrow> p v)"

definition is_none_or :: "('a \<Rightarrow> bool) \<Rightarrow> 'a option \<Rightarrow> bool" where
  "is_none_or p x = (case x of None \<Rightarrow> True | Some v \<Rightarrow> p v)"

definition unwrap_or :: "'a option \<Rightarrow> 'a \<Rightarrow> 'a" where
  "unwrap_or x d = (case x of None \<Rightarrow> d | Some v \<Rightarrow> v)"

definition or_else :: "'a option \<Rightarrow> 'a option \<Rightarrow> 'a option" where
  "or_else x y = (case x of None \<Rightarrow> y | Some v \<Rightarrow> Some v)"

definition option_filter :: "('a \<Rightarrow> bool) \<Rightarrow> 'a option \<Rightarrow> 'a option" where
  "option_filter p x = (case x of None \<Rightarrow> None | Some v \<Rightarrow> if p v then Some v else None)"

lemma is_some_and_simps [simp]:
  "is_some_and p None = False" "is_some_and p (Some v) = p v"
  by (simp_all add: is_some_and_def)

lemma is_none_or_simps [simp]:
  "is_none_or p None = True" "is_none_or p (Some v) = p v"
  by (simp_all add: is_none_or_def)

lemma unwrap_or_simps [simp]:
  "unwrap_or None d = d" "unwrap_or (Some v) d = v"
  by (simp_all add: unwrap_or_def)

lemma or_else_simps [simp]:
  "or_else None y = y" "or_else (Some v) y = Some v"
  by (simp_all add: or_else_def)

lemma option_filter_simps [simp]:
  "option_filter p None = None" "option_filter p (Some v) = (if p v then Some v else None)"
  by (simp_all add: option_filter_def)

lemma is_some_and_iff: "is_some_and p x \<longleftrightarrow> (\<exists>v. x = Some v \<and> p v)"
  by (cases x) auto

section \<open>Texts\<close>

text \<open>
  \<open>str::parse::<i32>\<close>: an optional sign, at least one ASCII digit, the value in range.
\<close>

definition is_digit :: "char \<Rightarrow> bool" where
  "is_digit c = (48 \<le> (of_char c :: nat) \<and> (of_char c :: nat) \<le> 57)"

fun digits_val :: "int \<Rightarrow> string \<Rightarrow> int option" where
  "digits_val acc [] = Some acc"
| "digits_val acc (c # cs) =
     (if is_digit c then digits_val (10 * acc + (of_char c - 48)) cs else None)"

definition parse_digits :: "string \<Rightarrow> int option" where
  "parse_digits s = (if s = [] then None else digits_val 0 s)"

definition parse_i32 :: "string \<Rightarrow> int option" where
  "parse_i32 s =
     option_filter (\<lambda>n. i32_min \<le> n \<and> n \<le> i32_max)
       (case s of
          [] \<Rightarrow> None
        | c # cs \<Rightarrow>
            if c = CHR ''-'' then map_option uminus (parse_digits cs)
            else if c = CHR ''+'' then parse_digits cs
            else parse_digits s)"

text \<open>\<open>to_string\<close> of an unsigned and of a signed integer.\<close>

fun nat_to_string :: "nat \<Rightarrow> string" where
  "nat_to_string n =
     (if n < 10 then [char_of (48 + n)]
      else nat_to_string (n div 10) @ [char_of (48 + n mod 10)])"

declare nat_to_string.simps [simp del]

definition int_to_string :: "int \<Rightarrow> string" where
  "int_to_string i = (if i < 0 then CHR ''-'' # nat_to_string (nat (- i)) else nat_to_string (nat i))"

definition starts_with :: "string \<Rightarrow> string \<Rightarrow> bool" where
  "starts_with s p = prefix p s"

section \<open>Hash maps\<close>

type_synonym ('k, 'v) hashmap = "('k \<times> 'v) list"

definition hm_get :: "('k, 'v) hashmap \<Rightarrow> 'k \<Rightarrow> 'v option" where
  "hm_get m k = map_of m k"

definition hm_contains :: "('k, 'v) hashmap \<Rightarrow> 'k \<Rightarrow> bool" where
  "hm_contains m k = (hm_get m k \<noteq> None)"

definition hm_keys :: "('k, 'v) hashmap \<Rightarrow> 'k list" where
  "hm_keys m = map fst m"

definition hm_values :: "('k, 'v) hashmap \<Rightarrow> 'v list" where
  "hm_values m = map snd m"

fun hm_insert :: "'k \<Rightarrow> 'v \<Rightarrow> ('k, 'v) hashmap \<Rightarrow> ('k, 'v) hashmap" where
  "hm_insert k v [] = [(k, v)]"
| "hm_insert k v ((k', v') # m) = (if k' = k then (k, v) # m else (k', v') # hm_insert k v m)"

definition hm_or_insert :: "'k \<Rightarrow> 'v \<Rightarrow> ('k, 'v) hashmap \<Rightarrow> ('k, 'v) hashmap" where
  "hm_or_insert k v m = (if hm_contains m k then m else hm_insert k v m)"

text \<open>\<open>get_mut\<close> followed by a mutation of the borrowed value.\<close>

definition hm_modify :: "'k \<Rightarrow> ('v \<Rightarrow> 'v) \<Rightarrow> ('k, 'v) hashmap \<Rightarrow> ('k, 'v) hashmap" where
  "hm_modify k f m = map (\<lambda>(k', v). if k' = k then (k', f v) else (k', v)) m"

text \<open>A mutation of every value (\<open>values_mut\<close>).\<close>

definition hm_map :: "('v \<Rightarrow> 'v) \<Rightarrow> ('k, 'v) hashmap \<Rightarrow> ('k, 'v) hashmap" where
  "hm_map f m = map (\<lambda>(k, v). (k, f v)) m"

definition hm_retain :: "('k \<Rightarrow> 'v \<Rightarrow> bool) \<Rightarrow> ('k, 'v) hashmap \<Rightarrow> ('k, 'v) hashmap" where
  "hm_retain p m = filter (\<lambda>(k, v). p k v) m"

definition hm_remove :: "'k \<Rightarrow> ('k, 'v) hashmap \<Rightarrow> ('k, 'v) hashmap" where
  "hm_remove k m = hm_retain (\<lambda>k' v. k' \<noteq> k) m"

definition hm_wf :: "('k, 'v) hashmap \<Rightarrow> bool" where
  "hm_wf m = distinct (hm_keys m)"

lemma hm_get_Nil [simp, hm_simps]: "hm_get [] k = None"
  by (simp add: hm_get_def)

lemma hm_get_Cons [simp]: "hm_get ((k', v) # m) k = (if k' = k then Some v else hm_get m k)"
  by (simp add: hm_get_def)

lemma hm_get_insert [simp, hm_simps]:
  "hm_get (hm_insert k v m) k' = (if k' = k then Some v else hm_get m k')"
  by (induction k v m rule: hm_insert.induct) auto

lemma hm_get_modify [simp, hm_simps]:
  "hm_get (hm_modify k f m) k' = (if k' = k then map_option f (hm_get m k') else hm_get m k')"
  unfolding hm_modify_def by (induction m) (auto split: prod.splits)

lemma hm_get_map [simp, hm_simps]: "hm_get (hm_map f m) k = map_option f (hm_get m k)"
  unfolding hm_map_def by (induction m) (auto split: prod.splits)

lemma hm_contains_iff [hm_simps]: "hm_contains m k \<longleftrightarrow> k \<in> set (hm_keys m)"
  unfolding hm_contains_def hm_keys_def by (induction m) auto

lemma hm_get_None_iff: "hm_get m k = None \<longleftrightarrow> k \<notin> set (hm_keys m)"
  using hm_contains_iff [of m k] by (auto simp: hm_contains_def)

lemma hm_get_or_insert [simp, hm_simps]:
  "hm_get (hm_or_insert k v m) k' =
     (if k' = k then Some (unwrap_or (hm_get m k) v) else hm_get m k')"
  by (cases "hm_get m k") (auto simp: hm_or_insert_def hm_contains_def)

lemma hm_keys_insert:
  "hm_keys (hm_insert k v m) = (if k \<in> set (hm_keys m) then hm_keys m else hm_keys m @ [k])"
  by (induction k v m rule: hm_insert.induct) (auto simp: hm_keys_def)

lemma hm_keys_or_insert:
  "hm_keys (hm_or_insert k v m) = (if k \<in> set (hm_keys m) then hm_keys m else hm_keys m @ [k])"
  by (simp add: hm_or_insert_def hm_contains_iff hm_keys_insert)

lemma hm_keys_modify [simp, hm_simps]: "hm_keys (hm_modify k f m) = hm_keys m"
  by (auto simp: hm_keys_def hm_modify_def)

lemma hm_keys_map [simp, hm_simps]: "hm_keys (hm_map f m) = hm_keys m"
  by (auto simp: hm_keys_def hm_map_def)

lemma hm_wf_Nil [simp]: "hm_wf []"
  by (simp add: hm_wf_def hm_keys_def)

lemma hm_wf_insert [simp, intro]: "hm_wf m \<Longrightarrow> hm_wf (hm_insert k v m)"
  by (auto simp: hm_wf_def hm_keys_insert)

lemma hm_wf_or_insert [simp, intro]: "hm_wf m \<Longrightarrow> hm_wf (hm_or_insert k v m)"
  by (auto simp: hm_or_insert_def)

lemma hm_wf_modify [simp]: "hm_wf (hm_modify k f m) = hm_wf m"
  by (simp add: hm_wf_def)

lemma hm_wf_map [simp]: "hm_wf (hm_map f m) = hm_wf m"
  by (simp add: hm_wf_def)

lemma hm_wf_retain [simp, intro]: "hm_wf m \<Longrightarrow> hm_wf (hm_retain p m)"
  by (induction m) (auto simp: hm_wf_def hm_retain_def hm_keys_def)

lemma hm_wf_remove [simp, intro]: "hm_wf m \<Longrightarrow> hm_wf (hm_remove k m)"
  by (auto simp: hm_remove_def)

lemma hm_get_retain:
  "hm_wf m \<Longrightarrow> hm_get (hm_retain p m) k = option_filter (p k) (hm_get m k)"
proof (induction m)
  case Nil
  then show ?case by (simp add: hm_retain_def)
next
  case (Cons kv m)
  obtain k' v where kv: "kv = (k', v)" by (cases kv)
  from Cons.prems have wf: "hm_wf m" and notin: "k' \<notin> set (hm_keys m)"
    by (auto simp: hm_wf_def hm_keys_def kv)
  from notin have "hm_get m k' = None" by (simp add: hm_get_None_iff)
  with Cons.IH [OF wf] show ?case by (auto simp: hm_retain_def kv)
qed

lemma hm_get_remove [hm_simps]: "hm_get (hm_remove k m) k' = (if k' = k then None else hm_get m k')"
  unfolding hm_remove_def hm_retain_def by (induction m) auto

lemma hm_get_Some_in: "hm_get m k = Some v \<Longrightarrow> (k, v) \<in> set m"
  by (simp add: hm_get_def map_of_SomeD)

lemma hm_in_get: "hm_wf m \<Longrightarrow> (k, v) \<in> set m \<Longrightarrow> hm_get m k = Some v"
  by (simp add: hm_wf_def hm_keys_def hm_get_def)

lemma hm_in_iff: "hm_wf m \<Longrightarrow> (k, v) \<in> set m \<longleftrightarrow> hm_get m k = Some v"
  using hm_in_get hm_get_Some_in by metis

lemma hm_values_iff: "hm_wf m \<Longrightarrow> v \<in> set (hm_values m) \<longleftrightarrow> (\<exists>k. hm_get m k = Some v)"
  by (auto simp: hm_values_def hm_in_iff image_iff; metis hm_in_iff snd_conv)

lemma hm_get_in_values: "hm_get m k = Some v \<Longrightarrow> v \<in> set (hm_values m)"
  by (auto simp: hm_values_def image_iff dest!: hm_get_Some_in) (metis snd_conv)

section \<open>Iterator extrema\<close>

text \<open>
  \<open>min_by_key\<close> returns the first of several minimal elements, \<open>max_by_key\<close> the last of several
  maximal ones.
\<close>

fun min_by_key :: "('a \<Rightarrow> 'b :: linorder) \<Rightarrow> 'a list \<Rightarrow> 'a option" where
  "min_by_key f [] = None"
| "min_by_key f (x # xs) =
     (case min_by_key f xs of None \<Rightarrow> Some x | Some y \<Rightarrow> if f x \<le> f y then Some x else Some y)"

fun max_by_key :: "('a \<Rightarrow> 'b :: linorder) \<Rightarrow> 'a list \<Rightarrow> 'a option" where
  "max_by_key f [] = None"
| "max_by_key f (x # xs) =
     (case max_by_key f xs of None \<Rightarrow> Some x | Some y \<Rightarrow> if f x \<le> f y then Some y else Some x)"

lemma min_by_key_None [simp]: "min_by_key f xs = None \<longleftrightarrow> xs = []"
  by (cases xs) (auto split: option.splits)

lemma max_by_key_None [simp]: "max_by_key f xs = None \<longleftrightarrow> xs = []"
  by (cases xs) (auto split: option.splits)

lemma min_by_key_split:
  "min_by_key f xs = Some x \<Longrightarrow>
     \<exists>ys zs. xs = ys @ x # zs \<and> (\<forall>y \<in> set ys. f x < f y) \<and> (\<forall>z \<in> set zs. f x \<le> f z)"
proof (induction xs arbitrary: x)
  case (Cons a xs)
  show ?case
  proof (cases "min_by_key f xs")
    case None
    then show ?thesis using Cons.prems by (intro exI [of _ "[]"]) auto
  next
    case (Some y)
    from Cons.IH [OF this] obtain ys zs where
      xs: "xs = ys @ y # zs" "\<forall>u \<in> set ys. f y < f u" "\<forall>u \<in> set zs. f y \<le> f u" by blast
    show ?thesis
    proof (cases "f a \<le> f y")
      case True
      then have "x = a" using Cons.prems Some by simp
      then show ?thesis using True xs by (intro exI [of _ "[]"] exI [of _ xs]) force
    next
      case False
      then have "x = y" using Cons.prems Some by simp
      then show ?thesis using False xs by (intro exI [of _ "a # ys"] exI [of _ zs]) auto
    qed
  qed
qed simp

lemma min_by_key_min:
  "min_by_key f xs = Some x \<Longrightarrow> x \<in> set xs \<and> (\<forall>y \<in> set xs. f x \<le> f y)"
  by (drule min_by_key_split) (auto simp: order_less_imp_le)

lemma max_by_key_max:
  "max_by_key f xs = Some x \<Longrightarrow> x \<in> set xs \<and> (\<forall>y \<in> set xs. f y \<le> f x)"
proof (induction xs arbitrary: x)
  case (Cons a xs)
  show ?case
  proof (cases "max_by_key f xs")
    case None
    then show ?thesis using Cons.prems by simp
  next
    case (Some y)
    then show ?thesis using Cons.IH [OF Some] Cons.prems by (auto split: if_splits)
  qed
qed simp

text \<open>\<open>min_by_key\<close> is the head of the stable sort.\<close>

lemma min_by_key_sort:
  "min_by_key f xs = (case sort_key f xs of [] \<Rightarrow> None | y # _ \<Rightarrow> Some y)"
  by (induction xs) (auto split: list.splits)

lemma filter_head_out:
  "distinct (map f (x # xs)) \<Longrightarrow> filter (\<lambda>y. f y \<noteq> f x) (x # xs) = xs"
  by (auto simp: filter_id_conv intro: rev_image_eqI)

section \<open>Truncating division and grouping\<close>

text \<open>\<open>i64\<close> division truncates towards zero.\<close>

definition tdiv :: "int \<Rightarrow> int \<Rightarrow> int" where
  "tdiv a b = sgn a * sgn b * (\<bar>a\<bar> div \<bar>b\<bar>)"

lemma tdiv_nonneg: "0 \<le> a \<Longrightarrow> 0 < b \<Longrightarrow> tdiv a b = a div b"
  by (cases "a = 0") (simp_all add: tdiv_def)

text \<open>\<open>*map.entry(key).or_insert(d) = upd\<close> for every element of a list.\<close>

definition group_fold ::
    "('x \<Rightarrow> 'k) \<Rightarrow> ('x \<Rightarrow> 'v \<Rightarrow> 'v) \<Rightarrow> 'v \<Rightarrow> 'x list \<Rightarrow> ('k, 'v) hashmap \<Rightarrow> ('k, 'v) hashmap" where
  "group_fold key upd d xs m =
     fold (\<lambda>x m. hm_insert (key x) (upd x (unwrap_or (hm_get m (key x)) d)) m) xs m"

lemma group_fold_get:
  "hm_get (group_fold key upd d xs m) k =
     (if filter (\<lambda>x. key x = k) xs = [] then hm_get m k
      else Some (fold upd (filter (\<lambda>x. key x = k) xs) (unwrap_or (hm_get m k) d)))"
proof (induction xs arbitrary: m)
  case (Cons x xs)
  have "group_fold key upd d (x # xs) m =
      group_fold key upd d xs (hm_insert (key x) (upd x (unwrap_or (hm_get m (key x)) d)) m)"
    by (simp add: group_fold_def)
  then show ?case by (simp add: Cons.IH)
qed (simp add: group_fold_def)

lemma group_fold_wf: "hm_wf m \<Longrightarrow> hm_wf (group_fold key upd d xs m)"
  unfolding group_fold_def by (induction xs arbitrary: m) auto

text \<open>\<open>BTreeMap\<close>: an association list in ascending key order.\<close>

fun bt_insert :: "'k :: linorder \<Rightarrow> 'v \<Rightarrow> ('k \<times> 'v) list \<Rightarrow> ('k \<times> 'v) list" where
  "bt_insert k v [] = [(k, v)]"
| "bt_insert k v ((k', v') # m) =
     (if k < k' then (k, v) # (k', v') # m
      else if k = k' then (k, v) # m
      else (k', v') # bt_insert k v m)"

definition bt_of_list :: "('k :: linorder \<times> 'v) list \<Rightarrow> ('k \<times> 'v) list" where
  "bt_of_list kvs = fold (\<lambda>(k, v). bt_insert k v) kvs []"

lemma map_of_bt_insert: "map_of (bt_insert k v m) = (map_of m)(k \<mapsto> v)"
  by (induction k v m rule: bt_insert.induct) auto

lemma map_of_bt_of_list: "distinct (map fst kvs) \<Longrightarrow> map_of (bt_of_list kvs) = map_of kvs"
proof -
  have "distinct (map fst kvs) \<Longrightarrow> map_of (fold (\<lambda>(k, v). bt_insert k v) kvs m) = map_of m ++ map_of kvs" for m
  proof (induction kvs arbitrary: m)
    case (Cons x kvs)
    obtain a b where x: "x = (a, b)" by (cases x)
    have a: "map_of kvs a = None" using Cons.prems by (simp add: x map_of_eq_None_iff)
    have "map_of (fold (\<lambda>(k, v). bt_insert k v) (x # kvs) m) = (map_of m)(a \<mapsto> b) ++ map_of kvs"
      using Cons by (simp add: x map_of_bt_insert)
    also have "\<dots> = map_of m ++ map_of (x # kvs)"
      by (rule ext) (simp add: x a map_add_def split: option.splits)
    finally show ?case .
  qed simp
  from this [of "[]"] show "distinct (map fst kvs) \<Longrightarrow> ?thesis" by (simp add: bt_of_list_def)
qed

end
