(* ===== verification/Json.thy ===== *)
theory Json
  imports Prelude
begin

text \<open>
  JSON values (\<open>serde_json::Value\<close>, built with \<open>preserve_order\<close>, so an object is its list of
  fields in insertion order) and the column readers \<open>col_str\<close>, \<open>col_i64\<close>, \<open>col_bool\<close> of
  \<open>src/src/provider.rs\<close>. The JSON text form is produced and read by the \<open>serde_json\<close> package;
  it is the parameter \<open>json_text\<close>: a printer and a parser, with the laws the crate relies on
  stated by \<open>json_text_ok\<close> as a hypothesis where they are used.
\<close>

datatype json =
    JNull
  | JBool bool
  | JInt int
  | JFloat "64 word"
  | JString string
  | JArray "json list"
  | JObject "(string \<times> json) list"

type_synonym json_map = "(string, json) hashmap"

fun is_null :: "json \<Rightarrow> bool" where
  "is_null JNull = True"
| "is_null _ = False"

fun as_str :: "json \<Rightarrow> string option" where
  "as_str (JString s) = Some s"
| "as_str _ = None"

fun as_i64 :: "json \<Rightarrow> int option" where
  "as_i64 (JInt i) = (if i64_min \<le> i \<and> i \<le> i64_max then Some i else None)"
| "as_i64 _ = None"

fun as_bool :: "json \<Rightarrow> bool option" where
  "as_bool (JBool b) = Some b"
| "as_bool _ = None"

fun as_array :: "json \<Rightarrow> json list option" where
  "as_array (JArray xs) = Some xs"
| "as_array _ = None"

fun as_object :: "json \<Rightarrow> json_map option" where
  "as_object (JObject m) = Some m"
| "as_object _ = None"

definition col_str :: "json_map \<Rightarrow> string \<Rightarrow> string option" where
  "col_str m key = Option.bind (hm_get m key) as_str"

definition col_i64 :: "json_map \<Rightarrow> string \<Rightarrow> int option" where
  "col_i64 m key = Option.bind (hm_get m key) as_i64"

definition col_bool :: "json_map \<Rightarrow> string \<Rightarrow> bool option" where
  "col_bool m key = Option.bind (hm_get m key) as_bool"

text \<open>\<open>json!(x)\<close> on the types the crate writes into exported rows.\<close>

definition json_str :: "string \<Rightarrow> json" where
  "json_str s = JString s"

definition json_opt_str :: "string option \<Rightarrow> json" where
  "json_opt_str x = (case x of None \<Rightarrow> JNull | Some s \<Rightarrow> JString s)"

definition json_opt_int :: "int option \<Rightarrow> json" where
  "json_opt_int x = (case x of None \<Rightarrow> JNull | Some i \<Rightarrow> JInt i)"

lemma as_str_opt [simp]: "as_str (json_opt_str x) = x"
  by (cases x) (auto simp: json_opt_str_def)

lemma as_str_json_str [simp]: "as_str (json_str s) = Some s"
  by (simp add: json_str_def)

definition opt_in_i64 :: "int option \<Rightarrow> bool" where
  "opt_in_i64 x = is_none_or (\<lambda>i. i64_min \<le> i \<and> i \<le> i64_max) x"

lemma as_i64_opt [simp]: "opt_in_i64 x \<Longrightarrow> as_i64 (json_opt_int x) = x"
  by (cases x) (auto simp: json_opt_int_def opt_in_i64_def)

section \<open>The text form\<close>

record json_text =
  jt_to_string :: "json \<Rightarrow> string"
  jt_from_str :: "string \<Rightarrow> string + json"

definition from_str_ok :: "json_text \<Rightarrow> string \<Rightarrow> json option" where
  "from_str_ok T s = (case jt_from_str T s of Inl _ \<Rightarrow> None | Inr v \<Rightarrow> Some v)"

text \<open>
  What the crate relies on, for the values in \<open>V\<close>: a printed value parses back to itself, and
  \<open>null\<close> is the text of the null value.
\<close>

definition json_text_ok :: "json_text \<Rightarrow> json set \<Rightarrow> bool" where
  "json_text_ok T V \<longleftrightarrow>
     (\<forall>v \<in> V. jt_from_str T (jt_to_string T v) = Inr v) \<and> jt_from_str T ''null'' = Inr JNull"

lemma json_text_parse: "json_text_ok T V \<Longrightarrow> v \<in> V \<Longrightarrow> jt_from_str T (jt_to_string T v) = Inr v"
  by (simp add: json_text_ok_def)

lemma json_text_parse_ok: "json_text_ok T V \<Longrightarrow> v \<in> V \<Longrightarrow> from_str_ok T (jt_to_string T v) = Some v"
  by (simp add: json_text_ok_def from_str_ok_def)

lemma json_text_null: "json_text_ok T V \<Longrightarrow> jt_from_str T ''null'' = Inr JNull"
  by (simp add: json_text_ok_def)

lemma json_text_not_null:
  "json_text_ok T V \<Longrightarrow> v \<in> V \<Longrightarrow> jt_to_string T v = ''null'' \<Longrightarrow> v = JNull"
  by (metis json_text_null json_text_parse sum.inject(2))

text \<open>
  A concrete pair for the witnesses: the value \<open>v\<close> has the text \<open>txt\<close>, every other value has
  the text \<open>null\<close>.
\<close>

definition one_value_text :: "json \<Rightarrow> string \<Rightarrow> json_text" where
  "one_value_text v txt =
     \<lparr> jt_to_string = (\<lambda>w. if w = v then txt else ''null''),
       jt_from_str =
         (\<lambda>s. if s = txt then Inr v else if s = ''null'' then Inr JNull else Inl ''expected value'') \<rparr>"

lemma one_value_text_ok: "txt \<noteq> ''null'' \<Longrightarrow> json_text_ok (one_value_text v txt) {v, JNull}"
  by (auto simp: json_text_ok_def one_value_text_def)

end
