(* ===== verification/Errors.thy ===== *)
theory Errors
  imports Json
begin

text \<open>
  The crate-wide error type of \<open>src/src/error.rs\<close>: its variants, constructors, stable codes,
  display text and the classification of database failures. Errors of the \<open>sqlx\<close>, migration
  and \<open>serde_json\<close> packages enter with what the crate reads of them: their kind, their database
  code and their display text.
\<close>

section \<open>Errors of the packages below\<close>

datatype sqlx_kind =
    Sqlx_Io
  | Sqlx_PoolTimedOut
  | Sqlx_PoolClosed
  | Sqlx_Database (db_code: "string option") (db_unique: bool) (db_foreign_key: bool)
  | Sqlx_Other

datatype sqlx_error = Sqlx_Error (sqlx_kind_of: sqlx_kind) (sqlx_display: string)

record portable_workflow_error =
  pe_name :: string
  pe_message :: string
  pe_code :: "json option"
  pe_data :: "json option"

section \<open>The error type\<close>

datatype error =
    Db sqlx_error
  | Migrate string
  | Serde string
  | Serialization string
  | UnknownWorkflow string
  | UnknownQueue string
  | NonExistentWorkflow string
  | QueueDeduplicated string string
  | Cancelled string
  | MaxRecoveryAttemptsExceeded string
  | ConflictingRegistration string
  | Timeout
  | UnexpectedStep string int string string
  | App string "string option"
  | Portable portable_workflow_error

datatype error_code =
    ErrorCode_Database
  | ErrorCode_Initialization
  | ErrorCode_Serialization
  | ErrorCode_WorkflowNotRegistered
  | ErrorCode_QueueNotRegistered
  | ErrorCode_NonExistentWorkflow
  | ErrorCode_QueueDeduplicated
  | ErrorCode_WorkflowCancelled
  | ErrorCode_MaxRecoveryAttemptsExceeded
  | ErrorCode_ConflictingRegistration
  | ErrorCode_Timeout
  | ErrorCode_UnexpectedStep
  | ErrorCode_Application

type_synonym 'a result = "error + 'a"

definition app :: "string \<Rightarrow> error" where
  "app msg = App msg None"

definition app_source :: "string \<Rightarrow> string \<Rightarrow> error" where
  "app_source msg source = App msg (Some source)"

definition portable :: "string \<Rightarrow> string \<Rightarrow> error" where
  "portable name message =
     Portable \<lparr> pe_name = name, pe_message = message, pe_code = None, pe_data = None \<rparr>"

definition nonexistent_workflow :: "string \<Rightarrow> error" where
  "nonexistent_workflow wid = NonExistentWorkflow wid"

definition max_recovery_attempts_exceeded :: "string \<Rightarrow> error" where
  "max_recovery_attempts_exceeded wid = MaxRecoveryAttemptsExceeded wid"

definition conflicting_registration :: "string \<Rightarrow> error" where
  "conflicting_registration name = ConflictingRegistration name"

definition queue_deduplicated :: "string \<Rightarrow> string \<Rightarrow> error" where
  "queue_deduplicated queue_name dedup_id = QueueDeduplicated queue_name dedup_id"

definition unexpected_step :: "string \<Rightarrow> int \<Rightarrow> string \<Rightarrow> string \<Rightarrow> error" where
  "unexpected_step workflow_id step_id expected recorded =
     UnexpectedStep workflow_id step_id expected recorded"

fun code :: "error \<Rightarrow> error_code" where
  "code (Db _) = ErrorCode_Database"
| "code (Migrate _) = ErrorCode_Initialization"
| "code (Serde _) = ErrorCode_Serialization"
| "code (Serialization _) = ErrorCode_Serialization"
| "code (UnknownWorkflow _) = ErrorCode_WorkflowNotRegistered"
| "code (UnknownQueue _) = ErrorCode_QueueNotRegistered"
| "code (NonExistentWorkflow _) = ErrorCode_NonExistentWorkflow"
| "code (QueueDeduplicated _ _) = ErrorCode_QueueDeduplicated"
| "code (Cancelled _) = ErrorCode_WorkflowCancelled"
| "code (MaxRecoveryAttemptsExceeded _) = ErrorCode_MaxRecoveryAttemptsExceeded"
| "code (ConflictingRegistration _) = ErrorCode_ConflictingRegistration"
| "code Timeout = ErrorCode_Timeout"
| "code (UnexpectedStep _ _ _ _) = ErrorCode_UnexpectedStep"
| "code (App _ _) = ErrorCode_Application"
| "code (Portable _) = ErrorCode_Application"

text \<open>The display text (the \<open>#[error(...)]\<close> attributes).\<close>

fun to_string :: "error \<Rightarrow> string" where
  "to_string (Db e) = ''database error: '' @ sqlx_display e"
| "to_string (Migrate m) = ''migration error: '' @ m"
| "to_string (Serde m) = ''serialization error: '' @ m"
| "to_string (Serialization m) = ''serialization format error: '' @ m"
| "to_string (UnknownWorkflow n) = ''no workflow registered under name `'' @ n @ ''`''"
| "to_string (UnknownQueue n) = ''no queue registered under name `'' @ n @ ''`''"
| "to_string (NonExistentWorkflow w) = ''workflow `'' @ w @ ''` does not exist''"
| "to_string (QueueDeduplicated q d) =
     ''deduplication id `'' @ d @ ''` already in use on queue `'' @ q @ ''`''"
| "to_string (Cancelled w) = ''workflow `'' @ w @ ''` was cancelled''"
| "to_string (MaxRecoveryAttemptsExceeded w) =
     ''workflow `'' @ w @ ''` exceeded its maximum recovery attempts''"
| "to_string (ConflictingRegistration n) =
     ''workflow name `'' @ n @ ''` is registered more than once''"
| "to_string Timeout = ''operation timed out''"
| "to_string (UnexpectedStep w i e r) =
     ''workflow `'' @ w @ ''` step '' @ int_to_string i @ '' is `'' @ e @ ''` but `'' @ r @
     ''` is recorded there '' @ map char_of [226, 128, 148 :: nat] @
     '' the workflow function is non-deterministic''"
| "to_string (App m _) = m"
| "to_string (Portable p) = pe_message p"

section \<open>Classification of database failures\<close>

fun is_unique_violation :: "error \<Rightarrow> bool" where
  "is_unique_violation (Db (Sqlx_Error (Sqlx_Database _ u _) _)) = u"
| "is_unique_violation _ = False"

fun is_foreign_key_violation :: "error \<Rightarrow> bool" where
  "is_foreign_key_violation (Db (Sqlx_Error (Sqlx_Database _ _ f) _)) = f"
| "is_foreign_key_violation _ = False"

text \<open>The low byte of a numeric code is 5 or 6 (\<open>n & 0xFF\<close> on the two's-complement value).\<close>

definition busy_or_locked :: "string \<Rightarrow> bool" where
  "busy_or_locked c = is_some_and (\<lambda>n. n mod 256 = 5 \<or> n mod 256 = 6) (parse_i32 c)"

definition is_tx_conflict_code :: "string \<Rightarrow> bool" where
  "is_tx_conflict_code c =
     (if length c = 5 then c = ''40001'' \<or> c = ''40P01'' else busy_or_locked c)"

definition is_retryable_db_code :: "string \<Rightarrow> bool" where
  "is_retryable_db_code c =
     (if length c = 5
      then starts_with c ''08'' \<or> c \<in> set [''57P01'', ''57P02'', ''57P03'', ''53300'']
      else busy_or_locked c)"

fun is_retryable :: "error \<Rightarrow> bool" where
  "is_retryable (Db (Sqlx_Error k _)) =
     (case k of
        Sqlx_Io \<Rightarrow> True
      | Sqlx_PoolTimedOut \<Rightarrow> True
      | Sqlx_PoolClosed \<Rightarrow> True
      | Sqlx_Database c _ _ \<Rightarrow> unwrap_or (map_option is_retryable_db_code c) False
      | Sqlx_Other \<Rightarrow> False)"
| "is_retryable _ = False"

fun is_tx_conflict :: "error \<Rightarrow> bool" where
  "is_tx_conflict (Db (Sqlx_Error (Sqlx_Database c _ _) _)) =
     unwrap_or (map_option is_tx_conflict_code c) False"
| "is_tx_conflict _ = False"

text \<open>A panic payload is a text or something else.\<close>

datatype panic_payload = Panic_Text string | Panic_Opaque

fun panic_message :: "panic_payload \<Rightarrow> string" where
  "panic_message (Panic_Text s) = s"
| "panic_message Panic_Opaque = ''panicked with a non-string payload''"

section \<open>Fallible state-passing operations\<close>

text \<open>
  An operation on a state \<open>'s\<close> returns a result and the next state; \<open>and_then\<close> is the
  \<open>?\<close> operator: an error ends the operation in the state reached so far.
\<close>

type_synonym ('s, 'a) op = "'s \<Rightarrow> 'a result \<times> 's"

definition ok :: "'a \<Rightarrow> ('s, 'a) op" where
  "ok x s = (Inr x, s)"

definition fail :: "error \<Rightarrow> ('s, 'a) op" where
  "fail e s = (Inl e, s)"

definition and_then :: "('s, 'a) op \<Rightarrow> ('a \<Rightarrow> ('s, 'b) op) \<Rightarrow> ('s, 'b) op" where
  "and_then m k s = (case m s of (Inl e, s') \<Rightarrow> (Inl e, s') | (Inr x, s') \<Rightarrow> k x s')"

definition lift_result :: "'a result \<Rightarrow> ('s, 'a) op" where
  "lift_result r s = (r, s)"

lemma ok_apply [simp]: "ok x s = (Inr x, s)"
  by (simp add: ok_def)

lemma fail_apply [simp]: "fail e s = (Inl e, s)"
  by (simp add: fail_def)

lemma lift_result_apply [simp]: "lift_result r s = (r, s)"
  by (simp add: lift_result_def)

lemma and_then_Inl [simp]: "m s = (Inl e, s') \<Longrightarrow> and_then m k s = (Inl e, s')"
  by (simp add: and_then_def)

lemma and_then_Inr [simp]: "m s = (Inr x, s') \<Longrightarrow> and_then m k s = k x s'"
  by (simp add: and_then_def)

lemma and_then_assoc: "and_then (and_then m k) h = and_then m (\<lambda>x. and_then (k x) h)"
  by (rule ext) (auto simp: and_then_def split: prod.splits sum.splits)

lemma and_then_ok [simp]: "and_then (ok x) k = k x" "and_then (fail e) k = fail e"
  by (auto simp: and_then_def fun_eq_iff)

section \<open>Facts about the classification\<close>

lemma i32_low_byte: "parse_i32 c = Some n \<Longrightarrow> i32_min \<le> n \<and> n \<le> i32_max"
  by (auto simp: parse_i32_def Let_def option_filter_def split: option.splits if_splits)

lemma tx_conflict_not_retryable_sqlstate:
  assumes "length c = 5" and "is_tx_conflict_code c"
  shows "\<not> is_retryable_db_code c"
proof -
  from assms have "c = ''40001'' \<or> c = ''40P01''" by (simp add: is_tx_conflict_code_def)
  then show ?thesis by (auto simp: is_retryable_db_code_def starts_with_def)
qed

lemma violations_not_retryable:
  "is_unique_violation e \<Longrightarrow> \<exists>s. e = Db s"
  by (cases e rule: is_unique_violation.cases) auto

end
