(* ===== verification/Serialize.thy ===== *)
theory Serialize
  imports Errors
begin

text \<open>
  The serialization formats of \<open>src/src/serialize.rs\<close>: the three serializers, the
  format-directed decoding, the argument envelope of a workflow input and the error envelope.
  The packages below (\<open>serde_json\<close>'s text form, \<open>base64\<close>) are the fields of a \<open>codec_env\<close>;
  \<open>codec_env_ok\<close> states the documented laws the round trips use.
\<close>

section \<open>Parameters\<close>

record codec_env =
  ce_json :: json_text
  ce_b64_encode :: "string \<Rightarrow> string"
  ce_b64_decode :: "string \<Rightarrow> string + string"

text \<open>A user codec (\<open>SerializerCodec\<close>).\<close>

record serializer_codec =
  sc_name :: string
  sc_encode :: "json \<Rightarrow> string result"
  sc_decode :: "string \<Rightarrow> json result"

datatype serializer = Ser_Json | is_Ser_Portable: Ser_Portable | Ser_Custom serializer_codec

lemma is_Ser_Portable_iff [simp]: "is_Ser_Portable ser \<longleftrightarrow> ser = Ser_Portable"
  by (cases ser) simp_all

definition PORTABLE :: string where "PORTABLE = ''portable_json''"

definition DBOS_JSON :: string where "DBOS_JSON = ''DBOS_JSON''"

definition NIL_MARKER :: string where "NIL_MARKER = ''__DBOS_NIL''"

definition PORTABLE_ERROR_NAME :: string where "PORTABLE_ERROR_NAME = ''Portable Error''"

fun serializer_name :: "serializer \<Rightarrow> string" where
  "serializer_name Ser_Json = DBOS_JSON"
| "serializer_name Ser_Portable = PORTABLE"
| "serializer_name (Ser_Custom c) = sc_name c"

text \<open>Rust's debug form of a text, on ASCII (bytes above 127 stand for printable characters).\<close>

definition hex_digit :: "nat \<Rightarrow> char" where
  "hex_digit n = (if n < 10 then char_of (48 + n) else char_of (87 + n))"

definition escape_debug_char :: "char \<Rightarrow> string" where
  "escape_debug_char c =
     (let n = (of_char c :: nat) in
      if n = 0 then [CHR 0x5C, CHR ''0'']
      else if n = 9 then [CHR 0x5C, CHR ''t'']
      else if n = 10 then [CHR 0x5C, CHR ''n'']
      else if n = 13 then [CHR 0x5C, CHR ''r'']
      else if n = 34 \<or> n = 92 then [CHR 0x5C, c]
      else if n < 32 \<or> n = 127 then
        [CHR 0x5C, CHR ''u'', CHR 0x7B]
          @ (if n < 16 then [hex_digit n] else [hex_digit (n div 16), hex_digit (n mod 16)])
          @ [CHR 0x7D]
      else [c])"

definition debug_str :: "string \<Rightarrow> string" where
  "debug_str s = CHR 0x22 # concat (map escape_debug_char s) @ [CHR 0x22]"

section \<open>Encoding and decoding a value\<close>

fun encode :: "codec_env \<Rightarrow> serializer \<Rightarrow> json \<Rightarrow> string result" where
  "encode E Ser_Portable v =
     (if is_null v then Inr ''null'' else Inr (jt_to_string (ce_json E) v))"
| "encode E Ser_Json v =
     (if is_null v then Inr NIL_MARKER
      else Inr (ce_b64_encode E (jt_to_string (ce_json E) v)))"
| "encode E (Ser_Custom c) v = sc_encode c v"

definition serde_result :: "string + 'a \<Rightarrow> 'a result" where
  "serde_result r = (case r of Inl m \<Rightarrow> Inl (Serde m) | Inr v \<Rightarrow> Inr v)"

lemma serde_result_simps [simp]:
  "serde_result (Inl m) = Inl (Serde m)" "serde_result (Inr v) = Inr v"
  by (simp_all add: serde_result_def)

definition custom_named :: "serializer \<Rightarrow> string \<Rightarrow> serializer_codec option" where
  "custom_named ser fmt =
     (case ser of Ser_Custom c \<Rightarrow> if sc_name c = fmt then Some c else None | _ \<Rightarrow> None)"

definition decode :: "codec_env \<Rightarrow> serializer \<Rightarrow> string option \<Rightarrow> string \<Rightarrow> json result" where
  "decode E ser format stored =
     (let fmt = unwrap_or format [] in
      if fmt = PORTABLE then
        (if stored = ''null'' then Inr JNull
         else serde_result (jt_from_str (ce_json E) stored))
      else
        (case custom_named ser fmt of
           Some c \<Rightarrow> sc_decode c stored
         | None \<Rightarrow>
             if fmt = [] \<or> fmt = DBOS_JSON then
               (if stored = NIL_MARKER then Inr JNull
                else
                  (case ce_b64_decode E stored of
                     Inl e \<Rightarrow>
                       Inl (Serialization (''invalid base64 in '' @ DBOS_JSON @ '' value: '' @ e))
                   | Inr bytes \<Rightarrow> serde_result (jt_from_str (ce_json E) bytes)))
             else
               Inl (Serialization
                 (''value uses serialization format '' @ debug_str fmt @
                  '', which this SDK cannot decode; use '' @ PORTABLE @
                  '' for cross-language interop, or configure a matching custom serializer''))))"

definition decode_opt ::
    "codec_env \<Rightarrow> serializer \<Rightarrow> string option \<Rightarrow> string option \<Rightarrow> json option result" where
  "decode_opt E ser format stored =
     (case stored of
        Some s \<Rightarrow> (case decode E ser format s of Inl e \<Rightarrow> Inl e | Inr v \<Rightarrow> Inr (Some v))
      | None \<Rightarrow> Inr None)"

section \<open>The argument envelope\<close>

record portable_workflow_args =
  pa_positional :: "json list"
  pa_named :: json_map

definition args_single :: "json \<Rightarrow> portable_workflow_args" where
  "args_single v = \<lparr> pa_positional = [v], pa_named = [] \<rparr>"

definition args_json :: "portable_workflow_args \<Rightarrow> json" where
  "args_json a =
     JObject [(''positionalArgs'', JArray (pa_positional a)), (''namedArgs'', JObject (pa_named a))]"

definition as_envelope :: "json \<Rightarrow> portable_workflow_args option" where
  "as_envelope v =
     (case as_object v of
        None \<Rightarrow> None
      | Some obj \<Rightarrow>
          (case Option.bind (hm_get obj ''positionalArgs'') as_array of
             None \<Rightarrow> None
           | Some pos \<Rightarrow>
               (case hm_get obj ''namedArgs'' of
                  Some (JObject m) \<Rightarrow> Some \<lparr> pa_positional = pos, pa_named = m \<rparr>
                | None \<Rightarrow> Some \<lparr> pa_positional = pos, pa_named = [] \<rparr>
                | Some JNull \<Rightarrow> Some \<lparr> pa_positional = pos, pa_named = [] \<rparr>
                | Some _ \<Rightarrow> None)))"

definition encode_input :: "codec_env \<Rightarrow> serializer \<Rightarrow> json \<Rightarrow> string result" where
  "encode_input E ser v =
     (if is_Ser_Portable ser
      then Inr (jt_to_string (ce_json E) (args_json (unwrap_or (as_envelope v) (args_single v))))
      else encode E ser v)"

definition first_positional :: "json \<Rightarrow> json" where
  "first_positional v =
     (case as_envelope v of
        Some env \<Rightarrow> (case pa_positional env of x # _ \<Rightarrow> x | [] \<Rightarrow> JNull)
      | None \<Rightarrow> v)"

definition decode_input :: "codec_env \<Rightarrow> serializer \<Rightarrow> string option \<Rightarrow> string \<Rightarrow> json result" where
  "decode_input E ser format stored =
     (case decode E ser format stored of
        Inl e \<Rightarrow> Inl e
      | Inr v \<Rightarrow> Inr (if format = Some PORTABLE then first_positional v else v))"

definition decode_input_opt ::
    "codec_env \<Rightarrow> serializer \<Rightarrow> string option \<Rightarrow> string option \<Rightarrow> json option result" where
  "decode_input_opt E ser format stored =
     (case stored of
        Some s \<Rightarrow> (case decode_input E ser format s of Inl e \<Rightarrow> Inl e | Inr v \<Rightarrow> Inr (Some v))
      | None \<Rightarrow> Inr None)"

section \<open>The error envelope\<close>

definition opt_field :: "string \<Rightarrow> json option \<Rightarrow> json_map" where
  "opt_field k x = (case x of None \<Rightarrow> [] | Some v \<Rightarrow> [(k, v)])"

definition portable_error_json :: "portable_workflow_error \<Rightarrow> json" where
  "portable_error_json e =
     JObject ([(''name'', JString (pe_name e)), (''message'', JString (pe_message e))]
       @ opt_field ''code'' (pe_code e) @ opt_field ''data'' (pe_data e))"

text \<open>
  The derived deserializer: an object with the two texts and optional values (a null is an absent
  value), or the positional array form.
\<close>

definition opt_value :: "json \<Rightarrow> json option" where
  "opt_value v = (if is_null v then None else Some v)"

definition portable_error_of_json :: "json \<Rightarrow> portable_workflow_error option" where
  "portable_error_of_json v =
     (case v of
        JObject m \<Rightarrow>
          (case (Option.bind (hm_get m ''name'') as_str, Option.bind (hm_get m ''message'') as_str) of
             (Some n, Some msg) \<Rightarrow>
               Some \<lparr> pe_name = n, pe_message = msg,
                      pe_code = Option.bind (hm_get m ''code'') opt_value,
                      pe_data = Option.bind (hm_get m ''data'') opt_value \<rparr>
           | _ \<Rightarrow> None)
      | JArray [JString n, JString msg] \<Rightarrow>
          Some \<lparr> pe_name = n, pe_message = msg, pe_code = None, pe_data = None \<rparr>
      | JArray [JString n, JString msg, c] \<Rightarrow>
          Some \<lparr> pe_name = n, pe_message = msg, pe_code = opt_value c, pe_data = None \<rparr>
      | JArray [JString n, JString msg, c, d] \<Rightarrow>
          Some \<lparr> pe_name = n, pe_message = msg, pe_code = opt_value c, pe_data = opt_value d \<rparr>
      | _ \<Rightarrow> None)"

definition error_envelope :: "error \<Rightarrow> portable_workflow_error" where
  "error_envelope err =
     (case err of
        Portable pe \<Rightarrow> pe
      | other \<Rightarrow> \<lparr> pe_name = PORTABLE_ERROR_NAME, pe_message = to_string other,
                   pe_code = None, pe_data = None \<rparr>)"

definition encode_error :: "codec_env \<Rightarrow> serializer \<Rightarrow> error \<Rightarrow> string" where
  "encode_error E ser err =
     (if is_Ser_Portable ser then jt_to_string (ce_json E) (portable_error_json (error_envelope err))
      else to_string err)"

definition decode_error ::
    "codec_env \<Rightarrow> string option \<Rightarrow> string \<Rightarrow> string \<times> portable_workflow_error option" where
  "decode_error E format stored =
     (if format = Some PORTABLE then
        (case Option.bind (from_str_ok (ce_json E) stored) portable_error_of_json of
           Some env \<Rightarrow> (pe_message env, Some env)
         | None \<Rightarrow> (stored, None))
      else (stored, None))"

definition decode_error_opt ::
    "codec_env \<Rightarrow> string option \<Rightarrow> string option
       \<Rightarrow> string option \<times> portable_workflow_error option" where
  "decode_error_opt E format stored =
     (case stored of
        Some s \<Rightarrow> (let (msg, env) = decode_error E format s in (Some msg, env))
      | None \<Rightarrow> (None, None))"

section \<open>Laws of the packages\<close>

text \<open>
  For the values in \<open>V\<close>: the JSON text form round-trips, base64 decodes what it encoded, and
  its output uses the standard alphabet (letters, digits, \<open>+\<close>, \<open>/\<close>, \<open>=\<close>), which has no
  underscore.
\<close>

definition codec_env_ok :: "codec_env \<Rightarrow> json set \<Rightarrow> bool" where
  "codec_env_ok E V \<longleftrightarrow>
     json_text_ok (ce_json E) V \<and>
     (\<forall>v \<in> V. let b = jt_to_string (ce_json E) v in
        ce_b64_decode E (ce_b64_encode E b) = Inr b \<and> CHR ''_'' \<notin> set (ce_b64_encode E b))"

text \<open>A concrete environment for the witnesses.\<close>

definition plain_env :: "json \<Rightarrow> codec_env" where
  "plain_env v =
     \<lparr> ce_json = one_value_text v ''text'', ce_b64_encode = (\<lambda>s. s), ce_b64_decode = Inr \<rparr>"

lemma plain_env_ok: "codec_env_ok (plain_env v) {v, JNull}"
  using one_value_text_ok [of "''text''" v]
  by (simp add: codec_env_ok_def plain_env_def one_value_text_def)

text \<open>A custom codec that reads what it wrote, under a name of its own.\<close>

definition codec_ok :: "serializer \<Rightarrow> json \<Rightarrow> bool" where
  "codec_ok ser v \<longleftrightarrow>
     (case ser of
        Ser_Custom c \<Rightarrow>
          sc_name c \<noteq> PORTABLE \<and>
          (\<exists>txt. sc_encode c v = Inr txt \<and> sc_decode c txt = Inr v)
      | _ \<Rightarrow> True)"

lemma formats_distinct [simp]:
  "PORTABLE \<noteq> DBOS_JSON" "DBOS_JSON \<noteq> PORTABLE" "PORTABLE \<noteq> []" "DBOS_JSON \<noteq> []"
  by (simp_all add: PORTABLE_def DBOS_JSON_def)

lemma custom_named_own [simp]: "custom_named (Ser_Custom c) (sc_name c) = Some c"
  by (simp add: custom_named_def)

lemma is_null_iff [simp]: "is_null v \<longleftrightarrow> v = JNull"
  by (cases v) auto

lemma b64_text:
  assumes "codec_env_ok E V" "v \<in> V"
  shows "ce_b64_decode E (ce_b64_encode E (jt_to_string (ce_json E) v)) = Inr (jt_to_string (ce_json E) v)"
    and "CHR ''_'' \<notin> set (ce_b64_encode E (jt_to_string (ce_json E) v))"
  using assms by (auto simp: codec_env_ok_def Let_def)

lemma b64_not_nil:
  assumes "codec_env_ok E V" "v \<in> V"
  shows "ce_b64_encode E (jt_to_string (ce_json E) v) \<noteq> NIL_MARKER"
proof
  assume "ce_b64_encode E (jt_to_string (ce_json E) v) = NIL_MARKER"
  then have "CHR ''_'' \<notin> set NIL_MARKER" using b64_text(2) [OF assms] by simp
  then show False by (simp add: NIL_MARKER_def)
qed

lemma decode_portable:
  assumes "codec_env_ok E V" "v \<in> V"
  shows "decode E ser (Some PORTABLE) (jt_to_string (ce_json E) v) = Inr v"
  using assms json_text_not_null [of "ce_json E" V v]
  by (auto simp: decode_def codec_env_ok_def json_text_parse)

lemma decode_dbos_json:
  assumes "codec_env_ok E V" "v \<in> V" "custom_named ser DBOS_JSON = None"
  shows "decode E ser (Some DBOS_JSON) (ce_b64_encode E (jt_to_string (ce_json E) v)) = Inr v"
  using assms b64_not_nil [OF assms(1,2)] b64_text [OF assms(1,2)]
  by (auto simp: decode_def codec_env_ok_def json_text_parse)

lemma as_envelope_args_json [simp]: "as_envelope (args_json a) = Some a"
  by (simp add: as_envelope_def args_json_def hm_get_def)

lemma first_positional_args_json:
  "first_positional (args_json (unwrap_or (as_envelope v) (args_single v))) = first_positional v"
  by (cases "as_envelope v")
    (simp_all add: first_positional_def args_single_def)

lemma portable_error_round:
  assumes "pe_code e \<noteq> Some JNull" "pe_data e \<noteq> Some JNull"
  shows "portable_error_of_json (portable_error_json e) = Some e"
  using assms
  by (cases e) (auto simp: portable_error_of_json_def portable_error_json_def opt_field_def
      opt_value_def hm_get_def split: option.splits)

lemma to_string_error_envelope: "pe_message (error_envelope err) = to_string err"
  by (cases err) (simp_all add: error_envelope_def)

section \<open>Round trips\<close>

text \<open>
  C31. Whatever serializer wrote a value, a reader that follows the stored format name reads the same
  value back: the built-in formats under any reader whose custom codec does not take their name, and
  a custom codec under itself. Null values, which have their own spelling in each format, included.
\<close>

theorem decode_encode:
  assumes "codec_env_ok E V" "v \<in> V" "codec_ok ser v"
    and "reader = ser \<or>
         ser \<in> {Ser_Json, Ser_Portable} \<and> custom_named reader (serializer_name ser) = None"
  shows "\<exists>txt. encode E ser v = Inr txt \<and>
           decode E reader (Some (serializer_name ser)) txt = Inr v"
proof (cases ser)
  case Ser_Json
  then have "custom_named reader DBOS_JSON = None" using assms(4) by (auto simp: custom_named_def)
  with Ser_Json show ?thesis
    using decode_dbos_json [OF assms(1,2)] by (cases "v = JNull") (auto simp: decode_def)
next
  case Ser_Portable
  then show ?thesis
    using decode_portable [OF assms(1,2)] by (cases "v = JNull") (auto simp: decode_def)
next
  case (Ser_Custom c)
  then show ?thesis using assms(3,4) by (auto simp: codec_ok_def decode_def)
qed

theorem decode_encode_witness:
  "\<exists>txt. encode (plain_env (JInt 7)) Ser_Json (JInt 7) = Inr txt \<and>
     decode (plain_env (JInt 7)) Ser_Portable (Some (serializer_name Ser_Json)) txt = Inr (JInt 7)"
  using decode_encode [OF plain_env_ok, of "JInt 7" "JInt 7" Ser_Json Ser_Portable]
  by (simp add: codec_ok_def custom_named_def)

text \<open>
  A workflow input survives being stored and decoded: under the portable format the first
  positional argument of the stored envelope comes back, which is the input itself unless the input
  already was an envelope; under the other formats the input comes back unchanged.
\<close>

theorem decode_input_encode_input:
  assumes "codec_env_ok E V" "codec_ok ser v" "v \<in> V"
    and "args_json (unwrap_or (as_envelope v) (args_single v)) \<in> V"
  shows "\<exists>txt. encode_input E ser v = Inr txt \<and>
           decode_input E ser (Some (serializer_name ser)) txt =
             Inr (if ser = Ser_Portable then first_positional v else v) \<and>
           (as_envelope v = None \<longrightarrow> first_positional v = v)"
proof (cases "ser = Ser_Portable")
  case True
  then show ?thesis
    using decode_portable [OF assms(1,4)] first_positional_args_json [of v]
    by (auto simp: encode_input_def decode_input_def first_positional_def)
next
  case False
  have "\<exists>txt. encode E ser v = Inr txt \<and> decode E ser (Some (serializer_name ser)) txt = Inr v"
    using False assms(2) decode_dbos_json [OF assms(1,3), of Ser_Json]
    by (cases ser) (auto simp: codec_ok_def decode_def custom_named_def)
  moreover have "serializer_name ser \<noteq> PORTABLE"
    using False assms(2) by (cases ser) (auto simp: codec_ok_def)
  ultimately show ?thesis
    using False by (auto simp: encode_input_def decode_input_def first_positional_def)
qed

theorem decode_input_encode_input_witness:
  "\<exists>txt. encode_input (plain_env (args_json (args_single JNull))) Ser_Portable JNull = Inr txt \<and>
     decode_input (plain_env (args_json (args_single JNull))) Ser_Portable (Some PORTABLE) txt = Inr JNull"
  using decode_input_encode_input
    [OF plain_env_ok, of Ser_Portable JNull "args_json (args_single JNull)"]
  by (simp add: codec_ok_def as_envelope_def first_positional_def)

text \<open>
  A recorded failure reads back with the message it was raised with, in every format; under the
  portable format the whole error envelope (name, code and data included) comes back.
\<close>

theorem decode_error_encode_error:
  assumes "codec_env_ok E V" "portable_error_json (error_envelope err) \<in> V"
    and "ser = Ser_Portable \<or> serializer_name ser \<noteq> PORTABLE"
    and "pe_code (error_envelope err) \<noteq> Some JNull" "pe_data (error_envelope err) \<noteq> Some JNull"
  shows "decode_error E (Some (serializer_name ser)) (encode_error E ser err) =
           (to_string err, if ser = Ser_Portable then Some (error_envelope err) else None)"
  using assms(3)
proof
  assume "ser = Ser_Portable"
  then show ?thesis
    using assms json_text_parse_ok [of "ce_json E" V] portable_error_round [OF assms(4,5)]
    by (simp add: decode_error_def encode_error_def codec_env_ok_def to_string_error_envelope)
next
  assume "serializer_name ser \<noteq> PORTABLE"
  then show ?thesis by (auto simp: decode_error_def encode_error_def)
qed

theorem decode_error_encode_error_witness:
  "decode_error (plain_env (portable_error_json (error_envelope (UnknownWorkflow ''w''))))
     (Some PORTABLE)
     (encode_error (plain_env (portable_error_json (error_envelope (UnknownWorkflow ''w''))))
        Ser_Portable (UnknownWorkflow ''w'')) =
   (to_string (UnknownWorkflow ''w''), Some (error_envelope (UnknownWorkflow ''w'')))"
  using decode_error_encode_error
    [OF plain_env_ok, of "UnknownWorkflow ''w''"
        "portable_error_json (error_envelope (UnknownWorkflow ''w''))" Ser_Portable]
  by (simp add: error_envelope_def)

end
