(* ===== verification/Provider_Types.thy ===== *)
theory Provider_Types
  imports Serialize
begin

text \<open>
  The data of the storage interface, \<open>src/src/provider.rs\<close>: the workflow row, its status
  constants, the request and filter types, the recorded steps, and the small helpers both the
  in-memory and the SQL backends call. Instants (\<open>DateTime<Utc>\<close>) are integer nanoseconds since the
  epoch; epoch-millisecond columns are integers, with the 64-bit wrap-around written where the code
  casts or adds.
\<close>

section \<open>Time\<close>

type_synonym datetime = int

text \<open>\<open>DateTime::timestamp_millis\<close> rounds towards minus infinity.\<close>

definition timestamp_millis :: "datetime \<Rightarrow> int" where
  "timestamp_millis t = t div 1000000"

text \<open>A \<open>std::time::Duration\<close> in nanoseconds; \<open>as_millis() as i64\<close> keeps the low 64 bits.\<close>

type_synonym duration = nat

definition from_secs :: "nat \<Rightarrow> duration" where
  "from_secs n = n * 1000000000"

definition from_millis :: "nat \<Rightarrow> duration" where
  "from_millis n = n * 1000000"

definition as_millis :: "duration \<Rightarrow> nat" where
  "as_millis d = d div 1000000"

definition as_millis_i64 :: "duration \<Rightarrow> int" where
  "as_millis_i64 d = i64_wrap (int (as_millis d))"

lemma timestamp_millis_mono: "a \<le> b \<Longrightarrow> timestamp_millis a \<le> timestamp_millis b"
  by (simp add: timestamp_millis_def zdiv_mono1)

lemma as_millis_i64_range: "i64_min \<le> as_millis_i64 d \<and> as_millis_i64 d \<le> i64_max"
  by (simp add: as_millis_i64_def i64_wrap_range)

section \<open>Status constants\<close>

definition STATUS_ENQUEUED :: string where "STATUS_ENQUEUED = ''ENQUEUED''"

definition STATUS_DELAYED :: string where "STATUS_DELAYED = ''DELAYED''"

definition STATUS_PENDING :: string where "STATUS_PENDING = ''PENDING''"

definition STATUS_SUCCESS :: string where "STATUS_SUCCESS = ''SUCCESS''"

definition STATUS_ERROR :: string where "STATUS_ERROR = ''ERROR''"

definition STATUS_CANCELLED :: string where "STATUS_CANCELLED = ''CANCELLED''"

definition STATUS_MAX_RECOVERY_ATTEMPTS_EXCEEDED :: string where "STATUS_MAX_RECOVERY_ATTEMPTS_EXCEEDED = ''MAX_RECOVERY_ATTEMPTS_EXCEEDED''"

definition STREAM_CLOSED_SENTINEL :: string where
  "STREAM_CLOSED_SENTINEL = ''__DBOS_STREAM_CLOSED__''"

definition NOTIFICATIONS_CHANNEL :: string where
  "NOTIFICATIONS_CHANNEL = ''dbos_notifications_channel''"

definition WORKFLOW_EVENTS_CHANNEL :: string where
  "WORKFLOW_EVENTS_CHANNEL = ''dbos_workflow_events_channel''"

lemmas status_defs =
  STATUS_ENQUEUED_def STATUS_DELAYED_def STATUS_PENDING_def STATUS_SUCCESS_def
  STATUS_ERROR_def STATUS_CANCELLED_def STATUS_MAX_RECOVERY_ATTEMPTS_EXCEEDED_def

lemma status_distinct [simp]:
  "STATUS_ENQUEUED \<noteq> STATUS_DELAYED"
  "STATUS_ENQUEUED \<noteq> STATUS_PENDING"
  "STATUS_ENQUEUED \<noteq> STATUS_SUCCESS"
  "STATUS_ENQUEUED \<noteq> STATUS_ERROR"
  "STATUS_ENQUEUED \<noteq> STATUS_CANCELLED"
  "STATUS_ENQUEUED \<noteq> STATUS_MAX_RECOVERY_ATTEMPTS_EXCEEDED"
  "STATUS_DELAYED \<noteq> STATUS_ENQUEUED"
  "STATUS_DELAYED \<noteq> STATUS_PENDING"
  "STATUS_DELAYED \<noteq> STATUS_SUCCESS"
  "STATUS_DELAYED \<noteq> STATUS_ERROR"
  "STATUS_DELAYED \<noteq> STATUS_CANCELLED"
  "STATUS_DELAYED \<noteq> STATUS_MAX_RECOVERY_ATTEMPTS_EXCEEDED"
  "STATUS_PENDING \<noteq> STATUS_ENQUEUED"
  "STATUS_PENDING \<noteq> STATUS_DELAYED"
  "STATUS_PENDING \<noteq> STATUS_SUCCESS"
  "STATUS_PENDING \<noteq> STATUS_ERROR"
  "STATUS_PENDING \<noteq> STATUS_CANCELLED"
  "STATUS_PENDING \<noteq> STATUS_MAX_RECOVERY_ATTEMPTS_EXCEEDED"
  "STATUS_SUCCESS \<noteq> STATUS_ENQUEUED"
  "STATUS_SUCCESS \<noteq> STATUS_DELAYED"
  "STATUS_SUCCESS \<noteq> STATUS_PENDING"
  "STATUS_SUCCESS \<noteq> STATUS_ERROR"
  "STATUS_SUCCESS \<noteq> STATUS_CANCELLED"
  "STATUS_SUCCESS \<noteq> STATUS_MAX_RECOVERY_ATTEMPTS_EXCEEDED"
  "STATUS_ERROR \<noteq> STATUS_ENQUEUED"
  "STATUS_ERROR \<noteq> STATUS_DELAYED"
  "STATUS_ERROR \<noteq> STATUS_PENDING"
  "STATUS_ERROR \<noteq> STATUS_SUCCESS"
  "STATUS_ERROR \<noteq> STATUS_CANCELLED"
  "STATUS_ERROR \<noteq> STATUS_MAX_RECOVERY_ATTEMPTS_EXCEEDED"
  "STATUS_CANCELLED \<noteq> STATUS_ENQUEUED"
  "STATUS_CANCELLED \<noteq> STATUS_DELAYED"
  "STATUS_CANCELLED \<noteq> STATUS_PENDING"
  "STATUS_CANCELLED \<noteq> STATUS_SUCCESS"
  "STATUS_CANCELLED \<noteq> STATUS_ERROR"
  "STATUS_CANCELLED \<noteq> STATUS_MAX_RECOVERY_ATTEMPTS_EXCEEDED"
  "STATUS_MAX_RECOVERY_ATTEMPTS_EXCEEDED \<noteq> STATUS_ENQUEUED"
  "STATUS_MAX_RECOVERY_ATTEMPTS_EXCEEDED \<noteq> STATUS_DELAYED"
  "STATUS_MAX_RECOVERY_ATTEMPTS_EXCEEDED \<noteq> STATUS_PENDING"
  "STATUS_MAX_RECOVERY_ATTEMPTS_EXCEEDED \<noteq> STATUS_SUCCESS"
  "STATUS_MAX_RECOVERY_ATTEMPTS_EXCEEDED \<noteq> STATUS_ERROR"
  "STATUS_MAX_RECOVERY_ATTEMPTS_EXCEEDED \<noteq> STATUS_CANCELLED"
  by (simp_all add: status_defs)

definition is_terminal :: "string \<Rightarrow> bool" where
  "is_terminal s \<longleftrightarrow>
     s = STATUS_SUCCESS \<or> s = STATUS_ERROR \<or> s = STATUS_CANCELLED \<or>
     s = STATUS_MAX_RECOVERY_ATTEMPTS_EXCEEDED"

lemma is_terminal_simps [simp]:
  "is_terminal STATUS_SUCCESS" "is_terminal STATUS_ERROR" "is_terminal STATUS_CANCELLED"
  "is_terminal STATUS_MAX_RECOVERY_ATTEMPTS_EXCEEDED"
  "\<not> is_terminal STATUS_ENQUEUED" "\<not> is_terminal STATUS_DELAYED" "\<not> is_terminal STATUS_PENDING"
  by (simp_all add: is_terminal_def)

section \<open>Change signals\<close>

datatype change_wait = CW_Notification string string | CW_Event string string

fun channel :: "change_wait \<Rightarrow> string" where
  "channel (CW_Notification _ _) = NOTIFICATIONS_CHANNEL"
| "channel (CW_Event _ _) = WORKFLOW_EVENTS_CHANNEL"

fun payload :: "change_wait \<Rightarrow> string" where
  "payload (CW_Notification workflow_id topic) = workflow_id @ ''::'' @ topic"
| "payload (CW_Event workflow_id key) = workflow_id @ ''::'' @ key"

section \<open>The workflow row\<close>

record workflow_status =
  ws_id :: string
  ws_name :: string
  ws_status :: string
  ws_input :: json
  ws_output :: "json option"
  ws_error :: "string option"
  ws_error_info :: "portable_workflow_error option"
  ws_executor_id :: string
  ws_app_version :: string
  ws_queue_name :: "string option"
  ws_queue_partition_key :: "string option"
  ws_priority :: int
  ws_dedup_id :: "string option"
  ws_recovery_attempts :: int
  ws_parent_workflow_id :: "string option"
  ws_timeout_ms :: "int option"
  ws_deadline_ms :: "int option"
  ws_started_at_ms :: "int option"
  ws_rate_limited :: bool
  ws_delay_until_ms :: "int option"
  ws_completed_at_ms :: "int option"
  ws_forked_from :: "string option"
  ws_authenticated_user :: "string option"
  ws_assumed_role :: "string option"
  ws_authenticated_roles :: "string list"
  ws_class_name :: "string option"
  ws_config_name :: "string option"
  ws_created_at :: datetime
  ws_updated_at :: datetime

definition workflow_status_new ::
    "string \<Rightarrow> string \<Rightarrow> json \<Rightarrow> string \<Rightarrow> string \<Rightarrow> string \<Rightarrow> datetime \<Rightarrow> workflow_status" where
  "workflow_status_new wid name input status executor_id app_version now =
     \<lparr> ws_id = wid, ws_name = name, ws_status = status, ws_input = input, ws_output = None,
       ws_error = None, ws_error_info = None, ws_executor_id = executor_id,
       ws_app_version = app_version, ws_queue_name = None, ws_queue_partition_key = None,
       ws_priority = 0, ws_dedup_id = None, ws_recovery_attempts = 0,
       ws_parent_workflow_id = None, ws_timeout_ms = None, ws_deadline_ms = None,
       ws_started_at_ms = None, ws_rate_limited = False, ws_delay_until_ms = None,
       ws_completed_at_ms = None, ws_forked_from = None, ws_authenticated_user = None,
       ws_assumed_role = None, ws_authenticated_roles = [], ws_class_name = None,
       ws_config_name = None, ws_created_at = now, ws_updated_at = now \<rparr>"

section \<open>Filters and requests\<close>

record list_filter =
  lf_workflow_ids :: "string list"
  lf_workflow_id_prefix :: "string list"
  lf_name :: "string list"
  lf_status :: "string list"
  lf_queue_name :: "string list"
  lf_app_version :: "string list"
  lf_executor_ids :: "string list"
  lf_authenticated_users :: "string list"
  lf_forked_from :: "string list"
  lf_parent_workflow_ids :: "string list"
  lf_was_forked_from :: "bool option"
  lf_start_time_ms :: "int option"
  lf_end_time_ms :: "int option"
  lf_completed_after_ms :: "int option"
  lf_completed_before_ms :: "int option"
  lf_dequeued_after_ms :: "int option"
  lf_dequeued_before_ms :: "int option"
  lf_has_parent :: "bool option"
  lf_limit :: "int option"
  lf_offset :: "int option"
  lf_sort_desc :: bool
  lf_queues_only :: bool
  lf_load_input :: bool
  lf_load_output :: bool

definition list_filter_default :: list_filter where
  "list_filter_default =
     \<lparr> lf_workflow_ids = [], lf_workflow_id_prefix = [], lf_name = [], lf_status = [],
       lf_queue_name = [], lf_app_version = [], lf_executor_ids = [],
       lf_authenticated_users = [], lf_forked_from = [], lf_parent_workflow_ids = [],
       lf_was_forked_from = None, lf_start_time_ms = None, lf_end_time_ms = None,
       lf_completed_after_ms = None, lf_completed_before_ms = None,
       lf_dequeued_after_ms = None, lf_dequeued_before_ms = None, lf_has_parent = None,
       lf_limit = None, lf_offset = None, lf_sort_desc = False, lf_queues_only = False,
       lf_load_input = True, lf_load_output = True \<rparr>"

record fork_params =
  fp_original_id :: string
  fp_new_id :: string
  fp_start_step :: int
  fp_app_version :: "string option"
  fp_queue_name :: string
  fp_partition_key :: "string option"

record dequeue_request =
  dr_queue_name :: string
  dr_executor_id :: string
  dr_app_version :: string
  dr_partition_key :: "string option"
  dr_max_tasks :: int
  dr_global_concurrency :: "int option"
  dr_rate_limit_max :: "int option"
  dr_rate_limit_period_ms :: "int option"

section \<open>Aggregate queries\<close>

record workflow_aggregate_query =
  wq_by_status :: bool
  wq_by_name :: bool
  wq_by_queue_name :: bool
  wq_by_executor_id :: bool
  wq_by_app_version :: bool
  wq_select_count :: bool
  wq_select_min_created_at :: bool
  wq_select_max_queue_wait_ms :: bool
  wq_select_max_total_latency_ms :: bool
  wq_time_bucket_ms :: "int option"
  wq_status :: "string list"
  wq_name :: "string list"
  wq_app_version :: "string list"
  wq_executor_ids :: "string list"
  wq_queue_names :: "string list"
  wq_workflow_id_prefix :: "string option"
  wq_start_time_ms :: "int option"
  wq_end_time_ms :: "int option"
  wq_completed_after_ms :: "int option"
  wq_completed_before_ms :: "int option"
  wq_dequeued_after_ms :: "int option"
  wq_dequeued_before_ms :: "int option"
  wq_limit :: "int option"

definition AGG_DIMENSIONS :: "(string \<times> string) list" where
  "AGG_DIMENSIONS =
     [(''status'', ''status''), (''name'', ''name''), (''queue_name'', ''queue_name''),
      (''executor_id'', ''executor_id''), (''application_version'', ''application_version'')]"

definition enabled_columns :: "workflow_aggregate_query \<Rightarrow> (string \<times> string) list" where
  "enabled_columns q =
     map fst (filter snd (zip AGG_DIMENSIONS
       [wq_by_status q, wq_by_name q, wq_by_queue_name q, wq_by_executor_id q, wq_by_app_version q]))"

definition wq_is_empty :: "workflow_aggregate_query \<Rightarrow> bool" where
  "wq_is_empty q \<longleftrightarrow> enabled_columns q = [] \<and> wq_time_bucket_ms q = None"

definition wq_no_select :: "workflow_aggregate_query \<Rightarrow> bool" where
  "wq_no_select q \<longleftrightarrow>
     \<not> wq_select_count q \<and> \<not> wq_select_min_created_at q \<and>
     \<not> wq_select_max_queue_wait_ms q \<and> \<not> wq_select_max_total_latency_ms q"

definition workflow_agg_selects :: "workflow_aggregate_query \<Rightarrow> string list" where
  "workflow_agg_selects q =
     (if wq_select_count q then [''COUNT(*) AS cnt''] else [])
     @ (if wq_select_min_created_at q then [''MIN(created_at) AS min_created_at''] else [])
     @ (if wq_select_max_queue_wait_ms q
        then [''MAX(started_at_epoch_ms - created_at) AS max_queue_wait_ms''] else [])
     @ (if wq_select_max_total_latency_ms q
        then [''MAX(completed_at - created_at) AS max_total_latency_ms''] else [])"

record workflow_aggregate =
  wa_group :: "(string \<times> string option) list"
  wa_count :: "int option"
  wa_min_created_at :: "int option"
  wa_max_queue_wait_ms :: "int option"
  wa_max_total_latency_ms :: "int option"

definition STEP_STATUS_EXPR :: string where
  "STEP_STATUS_EXPR =
     ''(CASE WHEN error IS NULL THEN '' @ [CHR 0x27] @ ''SUCCESS'' @ [CHR 0x27] @ '' ELSE ''
       @ [CHR 0x27] @ ''ERROR'' @ [CHR 0x27] @ '' END)''"

record step_aggregate_query =
  sq_by_function_name :: bool
  sq_by_status :: bool
  sq_select_count :: bool
  sq_select_max_duration_ms :: bool
  sq_time_bucket_ms :: "int option"
  sq_status :: "string list"
  sq_function_name :: "string list"
  sq_workflow_id_prefix :: "string option"
  sq_completed_after_ms :: "int option"
  sq_completed_before_ms :: "int option"
  sq_limit :: "int option"

definition group_exprs :: "step_aggregate_query \<Rightarrow> (string \<times> string) list" where
  "group_exprs q =
     (if sq_by_function_name q then [(''function_name'', ''function_name'')] else [])
     @ (if sq_by_status q then [(''status'', STEP_STATUS_EXPR)] else [])"

definition sq_no_grouping :: "step_aggregate_query \<Rightarrow> bool" where
  "sq_no_grouping q \<longleftrightarrow>
     \<not> sq_by_function_name q \<and> \<not> sq_by_status q \<and> sq_time_bucket_ms q = None"

definition sq_no_select :: "step_aggregate_query \<Rightarrow> bool" where
  "sq_no_select q \<longleftrightarrow> \<not> sq_select_count q \<and> \<not> sq_select_max_duration_ms q"

record step_aggregate =
  sa_group :: "(string \<times> string option) list"
  sa_count :: "int option"
  sa_max_duration_ms :: "int option"

lemma wq_no_select_iff: "wq_no_select q \<longleftrightarrow> workflow_agg_selects q = []"
  by (simp add: wq_no_select_def workflow_agg_selects_def)

lemma enabled_columns_dims: "distinct (map fst (enabled_columns q))"
  by (simp add: enabled_columns_def AGG_DIMENSIONS_def)

section \<open>Notifications, steps and versions\<close>

record notification_info =
  ni_topic :: "string option"
  ni_message :: json
  ni_created_at_ms :: int
  ni_consumed :: bool

record step_info =
  si_step_id :: int
  si_name :: string
  si_output :: "json option"
  si_error :: "string option"
  si_child_workflow_id :: "string option"
  si_started_at :: "datetime option"
  si_completed_at :: "datetime option"

datatype step_outcome = Output json | Failure string "portable_workflow_error option"

fun into_value_result :: "step_outcome \<Rightarrow> json result" where
  "into_value_result (Output v) = Inr v"
| "into_value_result (Failure message info) =
     Inl (case info of Some pe \<Rightarrow> Portable pe | None \<Rightarrow> app message)"

record recorded_step =
  rs_name :: string
  rs_outcome :: step_outcome

definition step_outcome_from ::
    "codec_env \<Rightarrow> serializer \<Rightarrow> string option \<Rightarrow> string option \<Rightarrow> string option
       \<Rightarrow> step_outcome option result" where
  "step_outcome_from E ser fmt output err =
     (case err of
        Some e \<Rightarrow> (let (message, info) = decode_error E fmt e in Inr (Some (Failure message info)))
      | None \<Rightarrow>
          (case output of
             Some out \<Rightarrow>
               (case decode E ser fmt out of
                  Inl e \<Rightarrow> Inl e
                | Inr v \<Rightarrow> Inr (Some (Output v)))
           | None \<Rightarrow> Inr None))"

record version_info =
  vi_version_id :: string
  vi_version_name :: string
  vi_version_timestamp :: datetime
  vi_created_at :: datetime

record exported_workflow =
  ew_workflow_status :: json_map
  ew_operation_outputs :: "json_map list"
  ew_workflow_events :: "json_map list"
  ew_workflow_events_history :: "json_map list"
  ew_streams :: "json_map list"

section \<open>Shared helpers\<close>

definition dedup_or :: "sqlx_error \<Rightarrow> workflow_status \<Rightarrow> error" where
  "dedup_or e s =
     (let err = Db e in
      if is_unique_violation err
      then queue_deduplicated (unwrap_or (ws_queue_name s) []) (unwrap_or (ws_dedup_id s) [])
      else err)"

definition nonexistent_or :: "sqlx_error \<Rightarrow> string \<Rightarrow> error" where
  "nonexistent_or e destination_id =
     (let err = Db e in
      if is_foreign_key_violation err then nonexistent_workflow destination_id else err)"

definition encode_roles :: "json_text \<Rightarrow> string list \<Rightarrow> string option" where
  "encode_roles T roles =
     (if roles = [] then None else Some (jt_to_string T (JArray (map JString roles))))"

text \<open>The array of texts a value denotes, if it is one.\<close>

fun strings_of_json :: "json \<Rightarrow> string list option" where
  "strings_of_json (JArray vs) = those (map as_str vs)"
| "strings_of_json _ = None"

definition decode_roles :: "json_text \<Rightarrow> string option \<Rightarrow> string list" where
  "decode_roles T stored =
     unwrap_or (Option.bind (Option.bind stored (from_str_ok T)) strings_of_json) []"

text \<open>
  \<open>group_stream_rows\<close>: the accumulator \<open>out\<close> is pushed at the end; the first failing decode
  ends the loop.
\<close>

fun group_stream_rows_loop ::
    "codec_env \<Rightarrow> serializer \<Rightarrow> (string \<times> json list) list
       \<Rightarrow> (string \<times> string \<times> string option) list \<Rightarrow> (string \<times> json list) list result" where
  "group_stream_rows_loop E ser out [] = Inr out"
| "group_stream_rows_loop E ser out ((key, value, fmt) # rows) =
     (if value = STREAM_CLOSED_SENTINEL then
        group_stream_rows_loop E ser
          (if out = [] \<or> fst (last out) \<noteq> key then out @ [(key, [])] else out) rows
      else
        (case decode E ser fmt value of
           Inl e \<Rightarrow> Inl e
         | Inr d \<Rightarrow>
             group_stream_rows_loop E ser
               (if out \<noteq> [] \<and> fst (last out) = key
                then butlast out @ [(key, snd (last out) @ [d])]
                else out @ [(key, [d])]) rows))"

definition group_stream_rows ::
    "codec_env \<Rightarrow> serializer \<Rightarrow> (string \<times> string \<times> string option) list
       \<Rightarrow> (string \<times> json list) list result" where
  "group_stream_rows E ser rows = group_stream_rows_loop E ser [] rows"

end
