(* ===== verification/Queue_Schedule.thy ===== *)
theory Queue_Schedule
  imports Provider_Types
begin

text \<open>
  The queue configuration of \<open>src/src/queue.rs\<close> and the persisted cron schedules of
  \<open>src/src/schedule.rs\<close>, with their builders.
\<close>

section \<open>Queues\<close>

record rate_limiter =
  rl_limit :: int
  rl_period :: duration

record workflow_queue =
  q_name :: string
  q_worker_concurrency :: "nat option"
  q_global_concurrency :: "int option"
  q_priority_enabled :: bool
  q_rate_limit :: "rate_limiter option"
  q_max_tasks_per_iteration :: nat
  q_partitioned :: bool
  q_base_polling_interval :: duration
  q_max_polling_interval :: duration

definition workflow_queue_new :: "string \<Rightarrow> workflow_queue" where
  "workflow_queue_new name =
     \<lparr> q_name = name, q_worker_concurrency = None, q_global_concurrency = None,
       q_priority_enabled = False, q_rate_limit = None, q_max_tasks_per_iteration = 100,
       q_partitioned = False, q_base_polling_interval = from_secs 1,
       q_max_polling_interval = from_secs 120 \<rparr>"

definition worker_concurrency :: "nat \<Rightarrow> workflow_queue \<Rightarrow> workflow_queue" where
  "worker_concurrency n q = q \<lparr> q_worker_concurrency := Some n \<rparr>"

definition global_concurrency :: "int \<Rightarrow> workflow_queue \<Rightarrow> workflow_queue" where
  "global_concurrency n q = q \<lparr> q_global_concurrency := Some n \<rparr>"

definition priority_enabled :: "workflow_queue \<Rightarrow> workflow_queue" where
  "priority_enabled q = q \<lparr> q_priority_enabled := True \<rparr>"

definition with_rate_limiter :: "rate_limiter \<Rightarrow> workflow_queue \<Rightarrow> workflow_queue" where
  "with_rate_limiter r q = q \<lparr> q_rate_limit := Some r \<rparr>"

definition max_tasks_per_iteration :: "nat \<Rightarrow> workflow_queue \<Rightarrow> workflow_queue" where
  "max_tasks_per_iteration n q = q \<lparr> q_max_tasks_per_iteration := n \<rparr>"

definition partitioned :: "workflow_queue \<Rightarrow> workflow_queue" where
  "partitioned q = q \<lparr> q_partitioned := True \<rparr>"

definition base_polling_interval :: "duration \<Rightarrow> workflow_queue \<Rightarrow> workflow_queue" where
  "base_polling_interval d q = q \<lparr> q_base_polling_interval := d \<rparr>"

definition max_polling_interval :: "duration \<Rightarrow> workflow_queue \<Rightarrow> workflow_queue" where
  "max_polling_interval d q = q \<lparr> q_max_polling_interval := d \<rparr>"

section \<open>Schedules\<close>

record scheduled_input =
  sin_scheduled_time :: datetime
  sin_context :: "json option"

datatype schedule_status = Active | Paused

fun schedule_status_as_str :: "schedule_status \<Rightarrow> string" where
  "schedule_status_as_str Active = ''ACTIVE''"
| "schedule_status_as_str Paused = ''PAUSED''"

definition schedule_status_parse :: "string \<Rightarrow> schedule_status" where
  "schedule_status_parse s = (if s = ''PAUSED'' then Paused else Active)"

record workflow_schedule =
  sch_schedule_id :: string
  sch_schedule_name :: string
  sch_workflow_name :: string
  sch_schedule :: string
  sch_status :: schedule_status
  sch_context :: "json option"
  sch_last_fired_at :: "datetime option"
  sch_automatic_backfill :: bool
  sch_cron_timezone :: "string option"
  sch_queue_name :: "string option"

definition tick_input :: "workflow_schedule \<Rightarrow> datetime \<Rightarrow> scheduled_input" where
  "tick_input s instant = \<lparr> sin_scheduled_time = instant, sin_context = sch_context s \<rparr>"

record schedule_options =
  so_context :: "json option"
  so_automatic_backfill :: bool
  so_cron_timezone :: "string option"
  so_queue_name :: "string option"

definition schedule_options_default :: schedule_options where
  "schedule_options_default =
     \<lparr> so_context = None, so_automatic_backfill = False, so_cron_timezone = None,
       so_queue_name = None \<rparr>"

record apply_schedule =
  as_schedule_name :: string
  as_workflow_name :: string
  as_schedule :: string
  as_options :: schedule_options

record schedule_filter =
  sf_statuses :: "schedule_status list"
  sf_workflow_names :: "string list"
  sf_name_prefixes :: "string list"

definition schedule_filter_default :: schedule_filter where
  "schedule_filter_default = \<lparr> sf_statuses = [], sf_workflow_names = [], sf_name_prefixes = [] \<rparr>"

definition schedule_matches :: "schedule_filter \<Rightarrow> workflow_schedule \<Rightarrow> bool" where
  "schedule_matches f s \<longleftrightarrow>
     (sf_statuses f = [] \<or> sch_status s \<in> set (sf_statuses f)) \<and>
     (sf_workflow_names f = [] \<or> sch_workflow_name s \<in> set (sf_workflow_names f)) \<and>
     (sf_name_prefixes f = [] \<or>
      list_ex (\<lambda>p. starts_with (sch_schedule_name s) p) (sf_name_prefixes f))"

lemma schedule_status_round [simp]: "schedule_status_parse (schedule_status_as_str s) = s"
  by (cases s) (simp_all add: schedule_status_parse_def)

end
