(* ===== verification/Memory_Store.thy ===== *)
theory Memory_Store
  imports Queue_Schedule
begin

text \<open>
  The in-memory state provider of \<open>src/src/memory.rs\<close>: its state (\<open>Inner\<close>, guarded by one
  mutex, so every operation is one atomic step), the row operations on workflows, the step
  checkpoints, and the store invariant with the proof that these operations keep it. Operations that
  read the clock take the instant read.
\<close>

section \<open>State\<close>

record notification_row =
  nr_message_uuid :: string
  nr_destination_id :: string
  nr_topic :: string
  nr_message :: json
  nr_consumed :: bool
  nr_created_at_ms :: int

record step_row =
  sr_name :: string
  sr_output :: "json option"
  sr_error :: "string option"
  sr_child_workflow_id :: "string option"
  sr_started_at_ms :: "int option"
  sr_completed_at_ms :: "int option"

definition step_row_default :: step_row where
  "step_row_default =
     \<lparr> sr_name = [], sr_output = None, sr_error = None, sr_child_workflow_id = None,
       sr_started_at_ms = None, sr_completed_at_ms = None \<rparr>"

record inner =
  workflows :: "(string, workflow_status) hashmap"
  steps :: "(string \<times> int, step_row) hashmap"
  notifications :: "notification_row list"
  events :: "(string \<times> string, json) hashmap"
  streams :: "(string \<times> string, json option list) hashmap"
  schedules :: "(string, workflow_schedule) hashmap"
  versions :: "(string, version_info) hashmap"
  queues :: "(string, workflow_queue) hashmap"

definition inner_default :: inner where
  "inner_default =
     \<lparr> workflows = [], steps = [], notifications = [], events = [], streams = [],
       schedules = [], versions = [], queues = [] \<rparr>"

definition step_row_outcome :: "step_row \<Rightarrow> step_outcome" where
  "step_row_outcome r =
     (case sr_error r of
        Some e \<Rightarrow> Failure e None
      | None \<Rightarrow> Output (unwrap_or (sr_output r) JNull))"

section \<open>Workflow rows\<close>

definition dedup_conflict :: "inner \<Rightarrow> workflow_status \<Rightarrow> error option" where
  "dedup_conflict g status =
     (case (ws_queue_name status, ws_dedup_id status) of
        (Some queue, Some dedup) \<Rightarrow>
          if list_ex (\<lambda>w. ws_id w \<noteq> ws_id status \<and> ws_queue_name w = Some queue \<and>
                          ws_dedup_id w = Some dedup) (hm_values (workflows g))
          then Some (queue_deduplicated queue dedup)
          else None
      | _ \<Rightarrow> None)"

text \<open>\<open>if let Some(row) = workflows.get_mut(id)\<close>: change the row if it is there.\<close>

definition update_row :: "string \<Rightarrow> (workflow_status \<Rightarrow> workflow_status) \<Rightarrow> inner \<Rightarrow> inner" where
  "update_row wid f g = g \<lparr> workflows := hm_modify wid f (workflows g) \<rparr>"

definition insert_workflow_status :: "workflow_status \<Rightarrow> (inner, workflow_status \<times> bool) op" where
  "insert_workflow_status status g =
     (case dedup_conflict g status of
        Some e \<Rightarrow> (Inl e, g)
      | None \<Rightarrow>
          let created = \<not> hm_contains (workflows g) (ws_id status);
              row = unwrap_or (hm_get (workflows g) (ws_id status)) status
          in (Inr (row, created),
              g \<lparr> workflows := hm_or_insert (ws_id status) status (workflows g) \<rparr>))"

definition get_deduplicated_workflow :: "string \<Rightarrow> string \<Rightarrow> (inner, string option) op" where
  "get_deduplicated_workflow queue_name dedup_id g =
     (Inr (map_option ws_id
        (find (\<lambda>w. ws_queue_name w = Some queue_name \<and> ws_dedup_id w = Some dedup_id)
           (hm_values (workflows g)))), g)"

definition get_workflow_status :: "string \<Rightarrow> (inner, workflow_status option) op" where
  "get_workflow_status wid g = (Inr (hm_get (workflows g) wid), g)"

text \<open>The row \<open>set_workflow_status\<close> writes.\<close>

definition status_transition ::
    "string \<Rightarrow> json option \<Rightarrow> string option \<Rightarrow> datetime \<Rightarrow> workflow_status \<Rightarrow> workflow_status" where
  "status_transition status output err now row =
     (let row1 = row \<lparr> ws_status := status \<rparr>;
          row2 = (case output of Some out \<Rightarrow> row1 \<lparr> ws_output := Some out \<rparr> | None \<Rightarrow> row1);
          row3 = (case err of Some e \<Rightarrow> row2 \<lparr> ws_error := Some e \<rparr> | None \<Rightarrow> row2);
          row4 = (if is_terminal status
                  then row3 \<lparr> ws_completed_at_ms := Some (timestamp_millis now), ws_dedup_id := None \<rparr>
                  else row3)
      in row4 \<lparr> ws_updated_at := now \<rparr>)"

definition set_workflow_status ::
    "string \<Rightarrow> string \<Rightarrow> json option \<Rightarrow> string option \<Rightarrow> datetime \<Rightarrow> (inner, unit) op" where
  "set_workflow_status wid status output err now g =
     (case hm_get (workflows g) wid of
        None \<Rightarrow> (Inr (), g)
      | Some row \<Rightarrow>
          if (status = STATUS_SUCCESS \<or> status = STATUS_ERROR) \<and> ws_status row = STATUS_CANCELLED
          then (Inl (Cancelled wid), g)
          else (Inr (), update_row wid (status_transition status output err now) g))"

section \<open>Step checkpoints\<close>

definition get_step_result :: "string \<Rightarrow> int \<Rightarrow> (inner, recorded_step option) op" where
  "get_step_result workflow_id seq g =
     (Inr (map_option (\<lambda>r. \<lparr> rs_name = sr_name r, rs_outcome = step_row_outcome r \<rparr>)
        (hm_get (steps g) (workflow_id, seq))), g)"

text \<open>\<open>entry(..).or_insert_with(..)\<close> on the steps, and the row then stored.\<close>

definition step_or_insert :: "string \<Rightarrow> int \<Rightarrow> step_row \<Rightarrow> inner \<Rightarrow> step_row \<times> inner" where
  "step_or_insert workflow_id seq row g =
     (unwrap_or (hm_get (steps g) (workflow_id, seq)) row,
      g \<lparr> steps := hm_or_insert (workflow_id, seq) row (steps g) \<rparr>)"

definition record_step_result ::
    "string \<Rightarrow> int \<Rightarrow> string \<Rightarrow> json \<Rightarrow> string option \<Rightarrow> int option \<Rightarrow> datetime
       \<Rightarrow> (inner, step_outcome) op" where
  "record_step_result workflow_id seq name val err started_at_ms now g =
     (let (output, error_field) =
            (case err of Some e \<Rightarrow> (None, Some e) | None \<Rightarrow> (Some val, None));
          (row, g') = step_or_insert workflow_id seq
            \<lparr> sr_name = name, sr_output = output, sr_error = error_field,
              sr_child_workflow_id = None, sr_started_at_ms = started_at_ms,
              sr_completed_at_ms = Some (timestamp_millis now) \<rparr> g
      in (Inr (step_row_outcome row), g'))"

definition run_transaction_step :: "string \<Rightarrow> int \<Rightarrow> int \<Rightarrow> (inner, json) op" where
  "run_transaction_step workflow_id seq started_at_ms g =
     (Inl (app ''transactional steps require a SQL backend (Postgres or SQLite)''), g)"

definition record_child_workflow ::
    "string \<Rightarrow> int \<Rightarrow> string \<Rightarrow> string \<Rightarrow> (inner, unit) op" where
  "record_child_workflow parent_id seq name child_id g =
     (Inr (), snd (step_or_insert parent_id seq
        (step_row_default \<lparr> sr_name := name, sr_output := None,
           sr_child_workflow_id := Some child_id \<rparr>) g))"

definition check_child_workflow :: "string \<Rightarrow> int \<Rightarrow> (inner, (string \<times> string) option) op" where
  "check_child_workflow parent_id seq g =
     (Inr (Option.bind (hm_get (steps g) (parent_id, seq))
        (\<lambda>r. map_option (\<lambda>cid. (cid, sr_name r)) (sr_child_workflow_id r))), g)"

text \<open>\<open>DateTime::from_timestamp_millis\<close> is a parameter: it returns nothing out of range.\<close>

definition get_workflow_steps ::
    "(int \<Rightarrow> datetime option) \<Rightarrow> string \<Rightarrow> (inner, step_info list) op" where
  "get_workflow_steps from_ms workflow_id g =
     (Inr (sort_key si_step_id
        (map (\<lambda>((_, seq), row).
                \<lparr> si_step_id = seq, si_name = sr_name row, si_output = sr_output row,
                  si_error = sr_error row, si_child_workflow_id = sr_child_workflow_id row,
                  si_started_at = Option.bind (sr_started_at_ms row) from_ms,
                  si_completed_at = Option.bind (sr_completed_at_ms row) from_ms \<rparr>)
           (filter (\<lambda>((wid, _), _). wid = workflow_id) (steps g)))), g)"

definition get_step_name :: "string \<Rightarrow> int \<Rightarrow> (inner, string option) op" where
  "get_step_name workflow_id seq g =
     (Inr (map_option sr_name (hm_get (steps g) (workflow_id, seq))), g)"

definition record_patch :: "string \<Rightarrow> int \<Rightarrow> string \<Rightarrow> (inner, unit) op" where
  "record_patch workflow_id seq name g =
     (Inr (), snd (step_or_insert workflow_id seq
        (step_row_default \<lparr> sr_name := name, sr_output := None,
           sr_child_workflow_id := None \<rparr>) g))"

section \<open>The store invariant\<close>

text \<open>
  Every map has one entry per key, and every row of a keyed table carries its own key: the
  provider looks rows up by key and then reads the key from the row.
\<close>

definition rows_keyed :: "('v \<Rightarrow> 'k) \<Rightarrow> ('k, 'v) hashmap \<Rightarrow> bool" where
  "rows_keyed key m \<longleftrightarrow> list_all (\<lambda>(k, v). key v = k) m"

definition store_wf :: "inner \<Rightarrow> bool" where
  "store_wf g \<longleftrightarrow>
     hm_wf (workflows g) \<and> rows_keyed ws_id (workflows g) \<and>
     hm_wf (steps g) \<and> hm_wf (events g) \<and> hm_wf (streams g) \<and>
     hm_wf (schedules g) \<and> rows_keyed sch_schedule_name (schedules g) \<and>
     hm_wf (versions g) \<and> rows_keyed vi_version_name (versions g) \<and>
     hm_wf (queues g) \<and> rows_keyed q_name (queues g)"

text \<open>At most one row holds a deduplication slot of a queue.\<close>

definition holds_slot :: "string \<Rightarrow> string \<Rightarrow> workflow_status \<Rightarrow> bool" where
  "holds_slot queue dedup w \<longleftrightarrow> ws_queue_name w = Some queue \<and> ws_dedup_id w = Some dedup"

definition dedup_unique :: "inner \<Rightarrow> bool" where
  "dedup_unique g \<longleftrightarrow>
     (\<forall>k w k' w' queue dedup.
        hm_get (workflows g) k = Some w \<longrightarrow> hm_get (workflows g) k' = Some w' \<longrightarrow>
        holds_slot queue dedup w \<longrightarrow> holds_slot queue dedup w' \<longrightarrow> k = k')"

text \<open>A closed stream carries its seal at the end and nowhere else.\<close>

definition stream_sealed_ok :: "json option list \<Rightarrow> bool" where
  "stream_sealed_ok entries \<longleftrightarrow> None \<notin> set (butlast entries)"

definition streams_ok :: "inner \<Rightarrow> bool" where
  "streams_ok g \<longleftrightarrow> list_all (\<lambda>(k, entries). stream_sealed_ok entries) (streams g)"

lemma rows_keyedI: "(\<And>k v. (k, v) \<in> set m \<Longrightarrow> key v = k) \<Longrightarrow> rows_keyed key m"
  by (auto simp: rows_keyed_def list_all_iff)

lemma rows_keyedD: "rows_keyed key m \<Longrightarrow> hm_get m k = Some v \<Longrightarrow> key v = k"
  by (auto simp: rows_keyed_def list_all_iff dest: hm_get_Some_in)

lemma rows_keyed_Nil [simp]: "rows_keyed key []"
  by (simp add: rows_keyed_def)

lemma rows_keyed_insert [simp]:
  "rows_keyed key m \<Longrightarrow> key v = k \<Longrightarrow> rows_keyed key (hm_insert k v m)"
  by (induction k v m rule: hm_insert.induct) (auto simp: rows_keyed_def)

lemma rows_keyed_or_insert [simp]:
  "rows_keyed key m \<Longrightarrow> key v = k \<Longrightarrow> rows_keyed key (hm_or_insert k v m)"
  by (simp add: hm_or_insert_def)

lemma rows_keyed_modify [simp]:
  "rows_keyed key m \<Longrightarrow> (\<And>v. key (f v) = key v) \<Longrightarrow> rows_keyed key (hm_modify k f m)"
  by (auto simp: rows_keyed_def hm_modify_def list_all_iff split: if_splits)

lemma rows_keyed_retain [simp]: "rows_keyed key m \<Longrightarrow> rows_keyed key (hm_retain p m)"
  by (auto simp: rows_keyed_def hm_retain_def list_all_iff)

lemma rows_keyed_remove [simp]: "rows_keyed key m \<Longrightarrow> rows_keyed key (hm_remove k m)"
  by (simp add: hm_remove_def)

lemma store_wf_default: "store_wf inner_default" "dedup_unique inner_default" "streams_ok inner_default"
  by (simp_all add: store_wf_def dedup_unique_def streams_ok_def inner_default_def hm_wf_def
      hm_keys_def hm_get_def)

lemma status_transition_fields [simp]:
  "ws_id (status_transition s out e now w) = ws_id w"
  "ws_status (status_transition s out e now w) = s"
  "ws_output (status_transition s out e now w) = or_else out (ws_output w)"
  "ws_error (status_transition s out e now w) = or_else e (ws_error w)"
  "ws_completed_at_ms (status_transition s out e now w) =
     (if is_terminal s then Some (timestamp_millis now) else ws_completed_at_ms w)"
  "ws_dedup_id (status_transition s out e now w) = (if is_terminal s then None else ws_dedup_id w)"
  "ws_queue_name (status_transition s out e now w) = ws_queue_name w"
  "ws_updated_at (status_transition s out e now w) = now"
  by (simp_all add: status_transition_def Let_def split: option.splits)

lemma store_wf_tables:
  assumes "store_wf g"
  shows "hm_wf m \<Longrightarrow> rows_keyed ws_id m \<Longrightarrow> store_wf (g \<lparr> workflows := m \<rparr>)"
    and "hm_wf m1 \<Longrightarrow> store_wf (g \<lparr> steps := m1 \<rparr>)"
    and "store_wf (g \<lparr> notifications := ns \<rparr>)"
    and "hm_wf m2 \<Longrightarrow> store_wf (g \<lparr> events := m2 \<rparr>)"
    and "hm_wf m3 \<Longrightarrow> store_wf (g \<lparr> streams := m3 \<rparr>)"
    and "hm_wf m4 \<Longrightarrow> rows_keyed sch_schedule_name m4 \<Longrightarrow> store_wf (g \<lparr> schedules := m4 \<rparr>)"
    and "hm_wf m5 \<Longrightarrow> rows_keyed vi_version_name m5 \<Longrightarrow> store_wf (g \<lparr> versions := m5 \<rparr>)"
    and "hm_wf m6 \<Longrightarrow> rows_keyed q_name m6 \<Longrightarrow> store_wf (g \<lparr> queues := m6 \<rparr>)"
  using assms by (simp_all add: store_wf_def)

lemma store_wfD:
  assumes "store_wf g"
  shows "hm_wf (workflows g)" "rows_keyed ws_id (workflows g)" "hm_wf (steps g)" "hm_wf (events g)"
    "hm_wf (streams g)" "hm_wf (schedules g)" "rows_keyed sch_schedule_name (schedules g)"
    "hm_wf (versions g)" "rows_keyed vi_version_name (versions g)"
    "hm_wf (queues g)" "rows_keyed q_name (queues g)"
  using assms by (simp_all add: store_wf_def)

lemma row_id: "store_wf g \<Longrightarrow> hm_get (workflows g) k = Some w \<Longrightarrow> ws_id w = k"
  by (rule rows_keyedD [OF store_wfD(2)])

lemma store_wf_update_row:
  "store_wf g \<Longrightarrow> (\<And>w. ws_id (f w) = ws_id w) \<Longrightarrow> store_wf (update_row wid f g)"
  by (simp add: update_row_def store_wf_tables store_wfD)

lemma dedup_unique_update_row:
  assumes "dedup_unique g" "\<And>w q d. holds_slot q d (f w) \<Longrightarrow> holds_slot q d w"
  shows "dedup_unique (update_row wid f g)"
  using assms unfolding dedup_unique_def update_row_def
  by (simp split: if_splits) (metis (no_types, lifting))

lemma streams_ok_tables [simp]:
  "streams_ok (g \<lparr> workflows := m \<rparr>) = streams_ok g"
  "streams_ok (g \<lparr> steps := m1 \<rparr>) = streams_ok g"
  "streams_ok (g \<lparr> notifications := ns \<rparr>) = streams_ok g"
  "streams_ok (g \<lparr> events := m2 \<rparr>) = streams_ok g"
  by (simp_all add: streams_ok_def)

lemma dedup_unique_tables [simp]:
  "dedup_unique (g \<lparr> steps := m1 \<rparr>) = dedup_unique g"
  "dedup_unique (g \<lparr> notifications := ns \<rparr>) = dedup_unique g"
  "dedup_unique (g \<lparr> events := m2 \<rparr>) = dedup_unique g"
  "dedup_unique (g \<lparr> streams := m3 \<rparr>) = dedup_unique g"
  "dedup_unique (g \<lparr> schedules := m4 \<rparr>) = dedup_unique g"
  "dedup_unique (g \<lparr> versions := m5 \<rparr>) = dedup_unique g"
  "dedup_unique (g \<lparr> queues := m6 \<rparr>) = dedup_unique g"
  by (simp_all add: dedup_unique_def)

lemma holds_slot_transition:
  "holds_slot q d (status_transition s out e now w) \<Longrightarrow> holds_slot q d w"
  by (simp add: holds_slot_def split: if_splits)

lemma store_wf_insert_workflow_status:
  "store_wf g \<Longrightarrow> store_wf (snd (insert_workflow_status w g))"
  by (auto simp: insert_workflow_status_def Let_def store_wf_tables store_wfD split: option.splits)

lemma store_wf_set_workflow_status:
  "store_wf g \<Longrightarrow> store_wf (snd (set_workflow_status wid s out e now g))"
  by (simp add: set_workflow_status_def store_wf_update_row split: option.splits)

lemma store_wf_step_or_insert: "store_wf g \<Longrightarrow> store_wf (snd (step_or_insert wid seq row g))"
  by (auto simp: step_or_insert_def store_wf_tables store_wfD)

lemma store_wf_record_step_result:
  "store_wf g \<Longrightarrow> store_wf (snd (record_step_result wid seq name v e st now g))"
  by (simp add: record_step_result_def Let_def case_prod_unfold store_wf_step_or_insert)

lemma dedup_conflict_None:
  assumes "store_wf g" "dedup_conflict g w = None" "holds_slot q d w"
    and "hm_get (workflows g) k = Some w'" "holds_slot q d w'"
  shows "k = ws_id w"
  using assms row_id [OF assms(1,4)] hm_get_in_values [OF assms(4)]
  by (auto simp: dedup_conflict_def holds_slot_def list_ex_iff split: if_splits)

lemma dedup_unique_insert_workflow_status:
  assumes "store_wf g" "dedup_unique g"
  shows "dedup_unique (snd (insert_workflow_status w g))"
proof (cases "dedup_conflict g w")
  case None
  have *: "k = k'" if
    "hm_get (hm_or_insert (ws_id w) w (workflows g)) k = Some a"
    "hm_get (hm_or_insert (ws_id w) w (workflows g)) k' = Some b"
    "holds_slot q d a" "holds_slot q d b" for k k' a b q d
  proof -
    have "k = ws_id w \<and> a = w \<or> hm_get (workflows g) k = Some a"
      "k' = ws_id w \<and> b = w \<or> hm_get (workflows g) k' = Some b"
      using that(1,2) by (cases "hm_get (workflows g) (ws_id w)"; simp split: if_splits)+
    then show ?thesis
      using that(3,4) dedup_conflict_None [OF assms(1) None] assms(2) unfolding dedup_unique_def
      by metis
  qed
  show ?thesis
    unfolding dedup_unique_def
    by (simp add: insert_workflow_status_def None Let_def del: hm_get_or_insert) (blast intro: *)
qed (simp add: insert_workflow_status_def assms)

lemma dedup_unique_set_workflow_status:
  "dedup_unique g \<Longrightarrow> dedup_unique (snd (set_workflow_status wid s out e now g))"
  using dedup_unique_update_row [OF _ holds_slot_transition]
  by (simp add: set_workflow_status_def split: option.splits)

section \<open>Creation and completion of a workflow\<close>

text \<open>
  Creating a workflow is idempotent: the first insert of an id stores the row and reports that it
  created it; every later insert of that id, whatever row it carries, either is refused for its
  deduplication slot or returns the stored row with the created flag down, and leaves the store as it
  was.
\<close>

theorem insert_workflow_status_idempotent:
  assumes "store_wf g" "hm_get (workflows g) (ws_id w) = None" "dedup_conflict g w = None"
  shows "\<exists>g'. insert_workflow_status w g = (Inr (w, True), g') \<and>
           hm_get (workflows g') (ws_id w) = Some w \<and>
           (\<forall>w'. ws_id w' = ws_id w \<longrightarrow>
              insert_workflow_status w' g' =
                ((case dedup_conflict g' w' of Some e \<Rightarrow> Inl e | None \<Rightarrow> Inr (w, False)), g'))"
  using assms
  by (auto simp: insert_workflow_status_def hm_contains_def hm_or_insert_def split: option.splits)

definition wit_row :: "string \<Rightarrow> workflow_status" where
  "wit_row wid = workflow_status_new wid ''job'' JNull STATUS_PENDING ''local'' ''1'' 0"

theorem insert_workflow_status_idempotent_witness:
  "\<exists>g'. insert_workflow_status (wit_row ''a'') inner_default = (Inr (wit_row ''a'', True), g') \<and>
     insert_workflow_status ((wit_row ''a'') \<lparr> ws_name := ''other'' \<rparr>) g' =
       (Inr (wit_row ''a'', False), g')"
proof -
  have "ws_id (wit_row ''a'') = ''a''" "dedup_conflict inner_default (wit_row ''a'') = None"
    "hm_get (workflows inner_default) (ws_id (wit_row ''a'')) = None"
    and d: "dedup_conflict g' ((wit_row ''a'') \<lparr> ws_name := ''other'' \<rparr>) = None" for g'
    by (simp_all add: wit_row_def workflow_status_new_def dedup_conflict_def inner_default_def hm_get_def)
  from insert_workflow_status_idempotent [OF store_wf_default(1) this(3,2)] obtain g' where
    g': "insert_workflow_status (wit_row ''a'') inner_default = (Inr (wit_row ''a'', True), g')"
    "\<forall>w'. ws_id w' = ws_id (wit_row ''a'') \<longrightarrow>
       insert_workflow_status w' g' =
         ((case dedup_conflict g' w' of Some e \<Rightarrow> Inl e | None \<Rightarrow> Inr (wit_row ''a'', False)), g')"
    by blast
  from g'(2) [rule_format, of "(wit_row ''a'') \<lparr> ws_name := ''other'' \<rparr>"] g'(1) d
  show ?thesis by (intro exI [of _ g']) simp
qed



end
