(* ===== verification/Memory_Queue.thy ===== *)
theory Memory_Queue
  imports Memory_Store
begin

text \<open>
  The queue operations of the in-memory provider (\<open>src/src/memory.rs\<close>): claiming work
  (\<open>dequeue_workflows\<close>), promoting delayed work and listing partitions. The claim reads the clock
  once for the claim instant and once per claimed row for its update time: \<open>upd i\<close> is the reading for
  the \<open>i\<close>-th claimed row. A panic of the claim loop is \<^const>\<open>None\<close>.
\<close>

section \<open>Claiming work\<close>

definition in_partition :: "dequeue_request \<Rightarrow> workflow_status \<Rightarrow> bool" where
  "in_partition req w \<longleftrightarrow>
     dr_partition_key req = None \<or> ws_queue_partition_key w = dr_partition_key req"

definition on_queue :: "dequeue_request \<Rightarrow> workflow_status \<Rightarrow> bool" where
  "on_queue req w \<longleftrightarrow> ws_queue_name w = Some (dr_queue_name req) \<and> in_partition req w"

definition recent_start :: "dequeue_request \<Rightarrow> int \<Rightarrow> workflow_status \<Rightarrow> bool" where
  "recent_start req cutoff w \<longleftrightarrow>
     on_queue req w \<and> ws_rate_limited w \<and> ws_status w \<noteq> STATUS_ENQUEUED \<and>
     ws_status w \<noteq> STATUS_DELAYED \<and> is_some_and (\<lambda>t. t > cutoff) (ws_started_at_ms w)"

definition running :: "dequeue_request \<Rightarrow> workflow_status \<Rightarrow> bool" where
  "running req w \<longleftrightarrow> on_queue req w \<and> ws_status w = STATUS_PENDING"

definition count_rows :: "(workflow_status \<Rightarrow> bool) \<Rightarrow> inner \<Rightarrow> int" where
  "count_rows p g = int (length (filter p (hm_values (workflows g))))"

text \<open>The claim budget after the rate limiter and the queue-wide concurrency cap.\<close>

definition claim_budget :: "dequeue_request \<Rightarrow> int \<Rightarrow> inner \<Rightarrow> int" where
  "claim_budget req now_ms g =
     (let b1 = (case (dr_rate_limit_max req, dr_rate_limit_period_ms req) of
                  (Some limit, Some period_ms) \<Rightarrow>
                    (let cutoff = i64_wrap (now_ms - period_ms);
                         recent = count_rows (recent_start req cutoff) g
                     in min (dr_max_tasks req) (max (i64_wrap (limit - recent)) 0))
                | _ \<Rightarrow> dr_max_tasks req)
      in (case dr_global_concurrency req of
            Some global \<Rightarrow> min b1 (max (i64_wrap (global - count_rows (running req) g)) 0)
          | None \<Rightarrow> b1))"

definition is_latest_version :: "dequeue_request \<Rightarrow> inner \<Rightarrow> bool" where
  "is_latest_version req g =
     is_none_or (\<lambda>latest. vi_version_name latest = dr_app_version req)
       (max_by_key vi_version_timestamp (hm_values (versions g)))"

definition claimable :: "dequeue_request \<Rightarrow> inner \<Rightarrow> workflow_status \<Rightarrow> bool" where
  "claimable req g w \<longleftrightarrow>
     on_queue req w \<and> ws_status w = STATUS_ENQUEUED \<and>
     (ws_app_version w = dr_app_version req \<or> ws_app_version w = [] \<and> is_latest_version req g)"

definition claim_key :: "workflow_status \<Rightarrow> int \<times> int \<times> string" where
  "claim_key w = (ws_priority w, timestamp_millis (ws_created_at w), ws_id w)"

definition claim_candidates :: "dequeue_request \<Rightarrow> inner \<Rightarrow> (int \<times> int \<times> string) list" where
  "claim_candidates req g =
     sort (map claim_key (filter (claimable req g) (hm_values (workflows g))))"

definition claim_row :: "dequeue_request \<Rightarrow> int \<Rightarrow> datetime \<Rightarrow> workflow_status \<Rightarrow> workflow_status" where
  "claim_row req now_ms upd w =
     w \<lparr> ws_status := STATUS_PENDING,
         ws_executor_id := dr_executor_id req,
         ws_app_version := dr_app_version req,
         ws_started_at_ms := Some now_ms,
         ws_rate_limited := (dr_rate_limit_max req \<noteq> None),
         ws_deadline_ms :=
           (if ws_deadline_ms w = None
            then map_option (\<lambda>t. i64_wrap (now_ms + t)) (ws_timeout_ms w)
            else ws_deadline_ms w),
         ws_updated_at := upd \<rparr>"

fun claim_loop ::
    "dequeue_request \<Rightarrow> int \<Rightarrow> (nat \<Rightarrow> datetime) \<Rightarrow> nat \<Rightarrow> (int \<times> int \<times> string) list
       \<Rightarrow> inner \<Rightarrow> (workflow_status list \<times> inner) option" where
  "claim_loop req now_ms upd i [] g = Some ([], g)"
| "claim_loop req now_ms upd i ((_, _, wid) # ids) g =
     (case hm_get (workflows g) wid of
        None \<Rightarrow> None
      | Some w \<Rightarrow>
          (let w' = claim_row req now_ms (upd i) w in
           case claim_loop req now_ms upd (Suc i) ids (update_row wid (\<lambda>_. w') g) of
             None \<Rightarrow> None
           | Some (claimed, g') \<Rightarrow> Some (w' # claimed, g')))"

definition dequeue_workflows ::
    "dequeue_request \<Rightarrow> datetime \<Rightarrow> (nat \<Rightarrow> datetime) \<Rightarrow> inner
       \<Rightarrow> (workflow_status list result \<times> inner) option" where
  "dequeue_workflows req now upd g =
     (let now_ms = timestamp_millis now;
          max_tasks = claim_budget req now_ms g
      in if max_tasks \<le> 0 then Some (Inr [], g)
         else
           (case claim_loop req now_ms upd 0 (take (nat max_tasks) (claim_candidates req g)) g of
              None \<Rightarrow> None
            | Some (claimed, g') \<Rightarrow> Some (Inr claimed, g')))"

section \<open>Delayed work and partitions\<close>

definition due :: "int \<Rightarrow> workflow_status \<Rightarrow> bool" where
  "due now_ms w \<longleftrightarrow> ws_status w = STATUS_DELAYED \<and> is_some_and (\<lambda>t. t \<le> now_ms) (ws_delay_until_ms w)"

text \<open>
  The loop over the rows in iteration order; \<open>upd k\<close> is the clock reading for the row of key \<open>k\<close>.
\<close>

definition promote_row :: "int \<Rightarrow> datetime \<Rightarrow> workflow_status \<Rightarrow> workflow_status" where
  "promote_row now_ms upd w =
     (if due now_ms w
      then w \<lparr> ws_status := STATUS_ENQUEUED, ws_delay_until_ms := None, ws_updated_at := upd \<rparr>
      else w)"

definition transition_delayed_workflows ::
    "int \<Rightarrow> (string \<Rightarrow> datetime) \<Rightarrow> (inner, nat) op" where
  "transition_delayed_workflows now_ms upd g =
     (Inr (length (filter (due now_ms) (hm_values (workflows g)))),
      g \<lparr> workflows := map (\<lambda>(k, w). (k, promote_row now_ms (upd k) w)) (workflows g) \<rparr>)"

definition queue_partitions :: "string \<Rightarrow> (inner, string list) op" where
  "queue_partitions queue_name g =
     (Inr (remdups_adj (sort (List.map_filter ws_queue_partition_key
        (filter (\<lambda>w. ws_queue_name w = Some queue_name \<and> ws_status w = STATUS_ENQUEUED)
           (hm_values (workflows g)))))), g)"

section \<open>The claim loop\<close>

abbreviation cand_id :: "int \<times> int \<times> string \<Rightarrow> string" where
  "cand_id x \<equiv> snd (snd x)"

lemma claim_row_fields [simp]:
  "ws_id (claim_row req n u w) = ws_id w"
  "ws_status (claim_row req n u w) = STATUS_PENDING"
  "claim_key (claim_row req n u w) = claim_key w"
  "on_queue req' (claim_row req n u w) = on_queue req' w"
  "ws_started_at_ms (claim_row req n u w) = Some n"
  "ws_queue_name (claim_row req n u w) = ws_queue_name w"
  "ws_dedup_id (claim_row req n u w) = ws_dedup_id w"
  by (simp_all add: claim_row_def claim_key_def on_queue_def in_partition_def)

lemma cand_id_claim_key [simp]: "cand_id (claim_key w) = ws_id w"
  by (simp add: claim_key_def)

lemma update_row_simps [simp]:
  "hm_get (workflows (update_row wid f g)) k =
     (if k = wid then map_option f (hm_get (workflows g) k) else hm_get (workflows g) k)"
  "steps (update_row wid f g) = steps g"
  "versions (update_row wid f g) = versions g"
  "hm_wf (workflows (update_row wid f g)) = hm_wf (workflows g)"
  by (simp_all add: update_row_def)

text \<open>
  What the loop does with a list of distinct stored ids: it succeeds, claims exactly those rows in
  order, and changes nothing else.
\<close>

lemma claim_loop_spec:
  assumes "distinct (map cand_id ids)" "\<forall>x \<in> set ids. hm_get (workflows g) (cand_id x) \<noteq> None"
  shows "\<exists>claimed g'. claim_loop req n upd i ids g = Some (claimed, g') \<and>
           list_all2 (\<lambda>x c. \<exists>w u. hm_get (workflows g) (cand_id x) = Some w \<and> c = claim_row req n u w \<and>
                        hm_get (workflows g') (cand_id x) = Some c) ids claimed \<and>
           (\<forall>k. k \<notin> cand_id ` set ids \<longrightarrow> hm_get (workflows g') k = hm_get (workflows g) k) \<and>
           g' = g \<lparr> workflows := workflows g' \<rparr> \<and> (hm_wf (workflows g) \<longrightarrow> hm_wf (workflows g'))"
  using assms
proof (induction ids arbitrary: i g)
  case Nil
  then show ?case by simp
next
  case (Cons x ids)
  obtain pr cr wid where x: "x = (pr, cr, wid)" by (cases x) auto
  obtain w where w: "hm_get (workflows g) wid = Some w" using Cons.prems(2) x by auto
  let ?w' = "claim_row req n (upd i) w"
  let ?g1 = "update_row wid (\<lambda>_. ?w') g"
  have notin: "wid \<notin> cand_id ` set ids" using Cons.prems(1) x by auto
  then have other: "cand_id y \<noteq> wid" if "y \<in> set ids" for y using that by auto
  have "\<forall>y \<in> set ids. hm_get (workflows ?g1) (cand_id y) \<noteq> None" using Cons.prems(2) w by simp
  from Cons.IH [OF _ this, of "Suc i"] Cons.prems(1) obtain claimed g' where IH:
    "claim_loop req n upd (Suc i) ids ?g1 = Some (claimed, g')"
    "list_all2 (\<lambda>x c. \<exists>w u. hm_get (workflows ?g1) (cand_id x) = Some w \<and> c = claim_row req n u w \<and>
       hm_get (workflows g') (cand_id x) = Some c) ids claimed"
    "\<forall>k. k \<notin> cand_id ` set ids \<longrightarrow> hm_get (workflows g') k = hm_get (workflows ?g1) k"
    "g' = ?g1 \<lparr> workflows := workflows g' \<rparr>" "hm_wf (workflows ?g1) \<longrightarrow> hm_wf (workflows g')"
    by auto
  have "list_all2 (\<lambda>x c. \<exists>w u. hm_get (workflows g) (cand_id x) = Some w \<and> c = claim_row req n u w \<and>
       hm_get (workflows g') (cand_id x) = Some c) ids claimed"
    using IH(2) by (rule list.rel_mono_strong) (simp add: other)
  moreover have "hm_get (workflows g') wid = Some ?w'"
    using IH(3) notin w by simp
  moreover have "g' = g \<lparr> workflows := workflows g' \<rparr>"
    using IH(4) by (simp add: update_row_def)
  ultimately show ?case
    using IH(1,3,5) w x
    by (intro exI [of _ "?w' # claimed"] exI [of _ g']) auto
qed

lemma keyed_ids:
  assumes "store_wf g"
  shows "map ws_id (hm_values (workflows g)) = hm_keys (workflows g)"
  using store_wfD(2) [OF assms]
  by (auto simp: hm_values_def hm_keys_def rows_keyed_def list_all_iff)

lemma distinct_ids: "store_wf g \<Longrightarrow> distinct (map ws_id (hm_values (workflows g)))"
  using store_wfD(1) by (simp add: keyed_ids hm_wf_def)

lemma distinct_map_sort: "distinct (map f (sort xs)) = distinct (map f xs)"
  by (simp add: distinct_map)

lemma claim_candidates_ids:
  assumes "store_wf g"
  shows "distinct (map cand_id (claim_candidates req g))"
    and "set (claim_candidates req g) =
           {claim_key w | w. \<exists>k. hm_get (workflows g) k = Some w \<and> claimable req g w}"
    and "sorted (claim_candidates req g)"
    and "length (claim_candidates req g) = length (filter (claimable req g) (hm_values (workflows g)))"
proof -
  let ?L = "filter (claimable req g) (hm_values (workflows g))"
  have "distinct (map ws_id ?L)"
    using distinct_ids [OF assms] by (rule distinct_map_filter)
  moreover have "map cand_id (map claim_key ?L) = map ws_id ?L"
    by simp
  ultimately have "distinct (map cand_id (map claim_key ?L))" by (simp only:)
  then show "distinct (map cand_id (claim_candidates req g))"
    by (simp only: claim_candidates_def distinct_map_sort)
  show "set (claim_candidates req g) =
      {claim_key w | w. \<exists>k. hm_get (workflows g) k = Some w \<and> claimable req g w}"
    using hm_values_iff [OF store_wfD(1) [OF assms]] by (auto simp: claim_candidates_def)
qed (simp_all add: claim_candidates_def)

lemma sorted_take_least:
  fixes xs :: "'a :: linorder list"
  assumes "sorted xs" "x \<in> set (take n xs)" "y \<in> set xs" "y \<notin> set (take n xs)"
  shows "x \<le> y"
proof -
  have "y \<in> set (drop n xs)" using assms(3,4) by (metis append_take_drop_id UnE set_append)
  then show ?thesis using assms(1,2) by (metis append_take_drop_id sorted_append)
qed

lemma dequeue_spec:
  assumes "store_wf g"
  shows "\<exists>claimed g'. dequeue_workflows req now upd g = Some (Inr claimed, g') \<and>
           map claim_key claimed =
             take (nat (claim_budget req (timestamp_millis now) g)) (claim_candidates req g) \<and>
           (\<forall>c \<in> set claimed. \<exists>w u. hm_get (workflows g) (ws_id c) = Some w \<and> claimable req g w \<and>
              c = claim_row req (timestamp_millis now) u w \<and> hm_get (workflows g') (ws_id c) = Some c) \<and>
           (\<forall>k. k \<notin> ws_id ` set claimed \<longrightarrow> hm_get (workflows g') k = hm_get (workflows g) k) \<and>
           g' = g \<lparr> workflows := workflows g' \<rparr> \<and> hm_wf (workflows g')"
proof (cases "claim_budget req (timestamp_millis now) g \<le> 0")
  case True
  then show ?thesis using store_wfD(1) [OF assms] by (auto simp: dequeue_workflows_def)
next
  case False
  let ?n = "timestamp_millis now"
  let ?ids = "take (nat (claim_budget req ?n g)) (claim_candidates req g)"
  have cand: "\<exists>w. hm_get (workflows g) (cand_id x) = Some w \<and> claimable req g w \<and> x = claim_key w"
    if "x \<in> set ?ids" for x
  proof -
    from that claim_candidates_ids(2) [OF assms, of req] obtain k w where
      "hm_get (workflows g) k = Some w" "claimable req g w" "x = claim_key w"
      by (auto dest!: in_set_takeD)
    with row_id [OF assms this(1)] show ?thesis by (auto simp: claim_key_def)
  qed
  have "distinct (map cand_id ?ids)"
    using claim_candidates_ids(1) [OF assms, of req] by (metis distinct_take take_map)
  moreover have "\<forall>x \<in> set ?ids. hm_get (workflows g) (cand_id x) \<noteq> None" using cand by fastforce
  ultimately obtain claimed g' where l: "claim_loop req ?n upd 0 ?ids g = Some (claimed, g')"
    "list_all2 (\<lambda>x c. \<exists>w u. hm_get (workflows g) (cand_id x) = Some w \<and> c = claim_row req ?n u w \<and>
                hm_get (workflows g') (cand_id x) = Some c) ?ids claimed"
    "\<forall>k. k \<notin> cand_id ` set ?ids \<longrightarrow> hm_get (workflows g') k = hm_get (workflows g) k"
    "g' = g \<lparr> workflows := workflows g' \<rparr>" "hm_wf (workflows g')"
    using claim_loop_spec [of ?ids g req ?n upd 0] store_wfD(1) [OF assms] by blast
  have all: "list_all2 (\<lambda>x c. cand_id x = ws_id c \<and> x = claim_key c \<and>
      (\<exists>w u. hm_get (workflows g) (ws_id c) = Some w \<and> claimable req g w \<and>
         c = claim_row req ?n u w \<and> hm_get (workflows g') (ws_id c) = Some c)) ?ids claimed"
    using l(2)
  proof (rule list.rel_mono_strong)
    fix x c assume "x \<in> set ?ids"
      and "\<exists>w u. hm_get (workflows g) (cand_id x) = Some w \<and> c = claim_row req ?n u w \<and>
             hm_get (workflows g') (cand_id x) = Some c"
    then obtain w u where "hm_get (workflows g) (cand_id x) = Some w" "c = claim_row req ?n u w"
      "hm_get (workflows g') (cand_id x) = Some c" "claimable req g w" "x = claim_key w"
      using cand by fastforce
    then show "cand_id x = ws_id c \<and> x = claim_key c \<and>
      (\<exists>w u. hm_get (workflows g) (ws_id c) = Some w \<and> claimable req g w \<and>
         c = claim_row req ?n u w \<and> hm_get (workflows g') (ws_id c) = Some c)"
      by auto
  qed
  then have keys: "map claim_key claimed = ?ids" "map ws_id claimed = map cand_id ?ids"
    by (induction rule: list_all2_induct) auto
  then have "ws_id ` set claimed = cand_id ` set ?ids" by (metis set_map)
  moreover from all have "\<forall>c \<in> set claimed. \<exists>w u. hm_get (workflows g) (ws_id c) = Some w \<and>
      claimable req g w \<and> c = claim_row req ?n u w \<and> hm_get (workflows g') (ws_id c) = Some c"
    by (induction rule: list_all2_induct) auto
  ultimately show ?thesis
    using False l(1,3,4,5) keys(1) by (auto simp: dequeue_workflows_def Let_def)
qed

lemma count_rows_card:
  assumes "hm_wf (workflows g)"
  shows "count_rows p g = int (card {k. \<exists>w. hm_get (workflows g) k = Some w \<and> p w})"
proof -
  let ?L = "filter (\<lambda>(k, w). p w) (workflows g)"
  have "distinct (map fst ?L)"
    using assms by (auto simp: hm_wf_def hm_keys_def intro: distinct_map_filter)
  moreover have "fst ` set ?L = {k. \<exists>w. hm_get (workflows g) k = Some w \<and> p w}"
    using assms by (auto simp: hm_in_iff image_iff Bex_def)
  ultimately have "length ?L = card {k. \<exists>w. hm_get (workflows g) k = Some w \<and> p w}"
    using distinct_card [of "map fst ?L"] by simp
  then show ?thesis by (simp add: count_rows_def hm_values_def filter_map o_def case_prod_unfold)
qed

lemma finite_rows: "finite {k. \<exists>w. hm_get (workflows g) k = Some w \<and> p w}"
  by (rule finite_subset [of _ "fst ` set (workflows g)"]) (auto dest: hm_get_Some_in intro: rev_image_eqI)

lemma count_rows_le: "count_rows p g \<le> int (length (workflows g))" "0 \<le> count_rows p g"
  by (auto simp: count_rows_def hm_values_def intro: order_trans [OF length_filter_le])

text \<open>Rows counted after a change of the rows in \<open>K\<close> only.\<close>

lemma count_rows_grow:
  assumes "hm_wf (workflows g)" "hm_wf (workflows g')" "finite K"
    and "\<And>k. k \<notin> K \<Longrightarrow> hm_get (workflows g') k = hm_get (workflows g) k"
  shows "count_rows p g' \<le> count_rows p g + int (card K)"
proof -
  let ?A = "\<lambda>g. {k. \<exists>w. hm_get (workflows g) k = Some w \<and> p w}"
  have "?A g' \<subseteq> ?A g \<union> K" using assms(4) by force
  then have "card (?A g') \<le> card (?A g \<union> K)" by (intro card_mono) (simp_all add: finite_rows assms)
  also have "\<dots> \<le> card (?A g) + card K" by (rule card_Un_le)
  finally show ?thesis using assms by (simp add: count_rows_card)
qed

lemma claimed_count:
  assumes "store_wf g" "dequeue_workflows req now upd g = Some (Inr claimed, g')"
  shows "int (length claimed) \<le> max 0 (claim_budget req (timestamp_millis now) g)"
    and "distinct (map ws_id claimed)"
    and "card (ws_id ` set claimed) = length claimed"
proof -
  from dequeue_spec [OF assms(1), of req now upd] assms(2)
  have k: "map claim_key claimed =
      take (nat (claim_budget req (timestamp_millis now) g)) (claim_candidates req g)" by auto
  from arg_cong [OF k, of length]
  show "int (length claimed) \<le> max 0 (claim_budget req (timestamp_millis now) g)" by auto
  have "map ws_id claimed = map cand_id (map claim_key claimed)" by simp
  then show d: "distinct (map ws_id claimed)"
    using claim_candidates_ids(1) [OF assms(1), of req] k by (metis distinct_take take_map)
  then show "card (ws_id ` set claimed) = length claimed"
    by (metis distinct_card length_map set_map)
qed

lemma dequeue_grow:
  assumes "store_wf g" "dequeue_workflows req now upd g = Some (Inr claimed, g')"
  shows "count_rows p g' \<le> count_rows p g + int (length claimed)"
proof -
  from dequeue_spec [OF assms(1), of req now upd] assms(2)
  have "hm_wf (workflows g')"
    "\<And>k. k \<notin> ws_id ` set claimed \<Longrightarrow> hm_get (workflows g') k = hm_get (workflows g) k" by auto
  from count_rows_grow [OF store_wfD(1) [OF assms(1)] this(1) _ this(2), of "ws_id ` set claimed"]
  show ?thesis by (simp add: claimed_count(3) [OF assms])
qed

section \<open>Properties of the claim\<close>

text \<open>
  C9. A claim never panics and takes exactly the best available work: on a well-formed store it
  returns as many rows as the budget allows (all of the claimable ones if they fit), in the order of
  (priority, creation time in milliseconds, id), no row twice, and no claimable row that it leaves
  behind comes before one it took.
\<close>

theorem dequeue_takes_least:
  assumes "store_wf g"
  shows "\<exists>claimed g'. dequeue_workflows req now upd g = Some (Inr claimed, g') \<and>
           length claimed =
             min (nat (claim_budget req (timestamp_millis now) g))
                 (length (filter (claimable req g) (hm_values (workflows g)))) \<and>
           sorted (map claim_key claimed) \<and> distinct (map ws_id claimed) \<and>
           (\<forall>c \<in> set claimed. \<forall>w. hm_get (workflows g) (ws_id w) = Some w \<longrightarrow> claimable req g w \<longrightarrow>
              ws_id w \<notin> ws_id ` set claimed \<longrightarrow> claim_key c \<le> claim_key w)"
proof -
  from dequeue_spec [OF assms, of req now upd] obtain claimed g' where
    d: "dequeue_workflows req now upd g = Some (Inr claimed, g')"
    and k: "map claim_key claimed =
      take (nat (claim_budget req (timestamp_millis now) g)) (claim_candidates req g)" by blast
  note c = claim_candidates_ids [OF assms, of req]
  have "claim_key x \<le> claim_key w"
    if "x \<in> set claimed" "hm_get (workflows g) (ws_id w) = Some w" "claimable req g w"
      "ws_id w \<notin> ws_id ` set claimed" for x w
  proof (rule sorted_take_least [OF c(3)])
    show "claim_key x \<in> set (take (nat (claim_budget req (timestamp_millis now) g)) (claim_candidates req g))"
      using that(1) by (simp flip: k)
    show "claim_key w \<in> set (claim_candidates req g)" using that(2,3) unfolding c(2) by blast
    show "claim_key w \<notin> set (take (nat (claim_budget req (timestamp_millis now) g)) (claim_candidates req g))"
      using that(4) by (auto simp flip: k) (metis cand_id_claim_key imageI)
  qed
  moreover have "length claimed = min (nat (claim_budget req (timestamp_millis now) g))
      (length (filter (claimable req g) (hm_values (workflows g))))"
    using arg_cong [OF k, of length] c(4) by auto
  moreover have "sorted (map claim_key claimed)" unfolding k by (rule sorted_wrt_take [OF c(3)])
  ultimately show ?thesis using d claimed_count(2) [OF assms d] by blast
qed

text \<open>
  A claim changes only what it takes: each returned row was waiting on the queue, enabled for this
  executor's version, and is now stored as running with this executor, this version and the claim
  time, its deadline fixed from its timeout if it had none; every other row and every other table is
  as before.
\<close>

theorem dequeue_claims_rows:
  assumes "store_wf g" "dequeue_workflows req now upd g = Some (Inr claimed, g')"
  shows "(\<forall>c \<in> set claimed. \<exists>w. hm_get (workflows g) (ws_id c) = Some w \<and>
            ws_status w = STATUS_ENQUEUED \<and> ws_queue_name w = Some (dr_queue_name req) \<and>
            (ws_app_version w = dr_app_version req \<or> ws_app_version w = [] \<and> is_latest_version req g) \<and>
            hm_get (workflows g') (ws_id c) = Some c \<and> ws_status c = STATUS_PENDING \<and>
            ws_executor_id c = dr_executor_id req \<and> ws_app_version c = dr_app_version req \<and>
            ws_started_at_ms c = Some (timestamp_millis now) \<and> ws_input c = ws_input w \<and>
            ws_deadline_ms c = or_else (ws_deadline_ms w)
              (map_option (\<lambda>t. i64_wrap (timestamp_millis now + t)) (ws_timeout_ms w))) \<and>
         (\<forall>k. k \<notin> ws_id ` set claimed \<longrightarrow> hm_get (workflows g') k = hm_get (workflows g) k) \<and>
         g' = g \<lparr> workflows := workflows g' \<rparr>"
proof -
  from dequeue_spec [OF assms(1), of req now upd] assms(2) have
    c: "\<forall>c \<in> set claimed. \<exists>w u. hm_get (workflows g) (ws_id c) = Some w \<and> claimable req g w \<and>
          c = claim_row req (timestamp_millis now) u w \<and> hm_get (workflows g') (ws_id c) = Some c"
    and rest: "\<forall>k. k \<notin> ws_id ` set claimed \<longrightarrow> hm_get (workflows g') k = hm_get (workflows g) k"
      "g' = g \<lparr> workflows := workflows g' \<rparr>" by auto
  show ?thesis
  proof (intro conjI rest ballI)
    fix x assume "x \<in> set claimed"
    with c obtain w u where w: "hm_get (workflows g) (ws_id x) = Some w" "claimable req g w"
      "x = claim_row req (timestamp_millis now) u w" "hm_get (workflows g') (ws_id x) = Some x" by blast
    then show "\<exists>w. hm_get (workflows g) (ws_id x) = Some w \<and>
            ws_status w = STATUS_ENQUEUED \<and> ws_queue_name w = Some (dr_queue_name req) \<and>
            (ws_app_version w = dr_app_version req \<or> ws_app_version w = [] \<and> is_latest_version req g) \<and>
            hm_get (workflows g') (ws_id x) = Some x \<and> ws_status x = STATUS_PENDING \<and>
            ws_executor_id x = dr_executor_id req \<and> ws_app_version x = dr_app_version req \<and>
            ws_started_at_ms x = Some (timestamp_millis now) \<and> ws_input x = ws_input w \<and>
            ws_deadline_ms x = or_else (ws_deadline_ms w)
              (map_option (\<lambda>t. i64_wrap (timestamp_millis now + t)) (ws_timeout_ms w))"
      by (intro exI [of _ w]) (cases "ws_deadline_ms w"; simp add: claimable_def on_queue_def claim_row_def)
  qed
qed

text \<open>
  C10. The concurrency cap holds: after a claim on a queue with global concurrency \<open>c\<close>, the number of
  running rows of the queue (of the partition, for a partitioned request) is at most \<open>c\<close>, or what it
  already was when it was above; and no claim returns more than \<open>max_tasks\<close> rows.
\<close>

theorem dequeue_global_concurrency:
  assumes "store_wf g" "dequeue_workflows req now upd g = Some (Inr claimed, g')"
    and "dr_global_concurrency req = Some c" "0 \<le> c" "c \<le> i64_max"
    and "int (length (workflows g)) \<le> i64_max"
  shows "count_rows (running req) g' \<le> max c (count_rows (running req) g) \<and>
         int (length claimed) \<le> max 0 (dr_max_tasks req)"
proof -
  have "i64_wrap (c - count_rows (running req) g) = c - count_rows (running req) g"
    using assms(4-6) count_rows_le [of "running req" g]
    by (intro i64_wrap_id) (simp_all add: i64_min_def i64_max_def)
  then have "claim_budget req (timestamp_millis now) g \<le> max (c - count_rows (running req) g) 0"
    "claim_budget req (timestamp_millis now) g \<le> max 0 (dr_max_tasks req)"
    using assms(3) by (auto simp: claim_budget_def Let_def split: option.splits)
  then show ?thesis
    using claimed_count(1) [OF assms(1,2)] dequeue_grow [OF assms(1,2), of "running req"] by linarith
qed

text \<open>
  C11. The rate limit holds: after a claim on a queue limited to \<open>limit\<close> starts per \<open>period\<close>, the
  number of rate-limited starts inside the trailing window is at most \<open>limit\<close>, or what it already
  was.
\<close>

theorem dequeue_rate_limit:
  assumes "store_wf g" "dequeue_workflows req now upd g = Some (Inr claimed, g')"
    and "dr_rate_limit_max req = Some limit" "dr_rate_limit_period_ms req = Some period_ms"
    and "0 \<le> limit" "limit \<le> i64_max" "int (length (workflows g)) \<le> i64_max"
  shows "count_rows (recent_start req (i64_wrap (timestamp_millis now - period_ms))) g' \<le>
           max limit (count_rows (recent_start req (i64_wrap (timestamp_millis now - period_ms))) g)"
proof -
  let ?p = "recent_start req (i64_wrap (timestamp_millis now - period_ms))"
  have "i64_wrap (limit - count_rows ?p g) = limit - count_rows ?p g"
    using assms(5-7) count_rows_le [of ?p g]
    by (intro i64_wrap_id) (simp_all add: i64_min_def i64_max_def)
  then have "claim_budget req (timestamp_millis now) g \<le> max (limit - count_rows ?p g) 0"
    using assms(3,4) by (auto simp: claim_budget_def Let_def split: option.splits)
  then show ?thesis
    using claimed_count(1) [OF assms(1,2)] dequeue_grow [OF assms(1,2), of ?p] by linarith
qed


section \<open>Witnesses\<close>

definition wit_queued :: "string \<Rightarrow> int \<Rightarrow> workflow_status" where
  "wit_queued wid prio =
     (workflow_status_new wid ''job'' JNull STATUS_ENQUEUED [] ''1'' 0)
       \<lparr> ws_queue_name := Some ''q'', ws_priority := prio, ws_timeout_ms := Some 50 \<rparr>"

definition wit_store :: inner where
  "wit_store =
     snd (insert_workflow_status ((wit_queued ''c'' 0) \<lparr> ws_status := STATUS_PENDING \<rparr>)
       (snd (insert_workflow_status (wit_queued ''b'' 1)
         (snd (insert_workflow_status (wit_queued ''a'' 2) inner_default)))))"

definition wit_req :: dequeue_request where
  "wit_req =
     \<lparr> dr_queue_name = ''q'', dr_executor_id = ''e1'', dr_app_version = ''1'',
       dr_partition_key = None, dr_max_tasks = 10, dr_global_concurrency = Some 2,
       dr_rate_limit_max = Some 5, dr_rate_limit_period_ms = Some 1000 \<rparr>"

lemma wit_store_wf: "store_wf wit_store"
  by (simp add: wit_store_def store_wf_insert_workflow_status store_wf_default)

lemma wit_budget:
  "claim_budget wit_req (timestamp_millis 5000000) wit_store = 1"
  "filter (claimable wit_req wit_store) (hm_values (workflows wit_store)) \<noteq> []"
  "int (length (workflows wit_store)) \<le> i64_max"
  by code_simp+

abbreviation wit_claim :: "(workflow_status list result \<times> inner) option" where
  "wit_claim \<equiv> dequeue_workflows wit_req 5000000 (\<lambda>_. 5000000) wit_store"

lemma wit_claim_ids:
  "map_option (\<lambda>(r, _). case r of Inr cs \<Rightarrow> map ws_id cs | Inl _ \<Rightarrow> []) wit_claim = Some [''b'']"
  by code_simp

lemma wit_claimE:
  obtains claimed g' where "wit_claim = Some (Inr claimed, g')" "map ws_id claimed = [''b'']"
proof -
  obtain r g' where r: "wit_claim = Some (r, g')" using wit_claim_ids by auto
  then show thesis using wit_claim_ids that by (cases r) auto
qed

theorem dequeue_takes_least_witness:
  "\<exists>claimed g'. wit_claim = Some (Inr claimed, g') \<and> length claimed = 1 \<and> sorted (map claim_key claimed)"
proof -
  have "nat 1 = 1" "length (filter (claimable wit_req wit_store) (hm_values (workflows wit_store))) \<noteq> 0"
    using wit_budget(2) by simp_all
  then show ?thesis
    using dequeue_takes_least [OF wit_store_wf, of wit_req 5000000 "\<lambda>_. 5000000"]
    unfolding wit_budget(1) by (metis One_nat_def Suc_leI min.absorb1 neq0_conv)
qed

theorem dequeue_claims_rows_witness:
  "\<exists>claimed g'. wit_claim = Some (Inr claimed, g') \<and>
     (\<forall>c \<in> set claimed. hm_get (workflows g') (ws_id c) = Some c \<and> ws_status c = STATUS_PENDING) \<and>
     hm_get (workflows g') ''a'' = hm_get (workflows wit_store) ''a''"
proof -
  obtain claimed g' where c: "wit_claim = Some (Inr claimed, g')" "map ws_id claimed = [''b'']"
    by (rule wit_claimE)
  then have "''a'' \<notin> ws_id ` set claimed" by auto
  with dequeue_claims_rows [OF wit_store_wf c(1)] c(1) show ?thesis by blast
qed

theorem dequeue_global_concurrency_witness:
  "\<exists>claimed g'. wit_claim = Some (Inr claimed, g') \<and>
     count_rows (running wit_req) g' \<le> max 2 (count_rows (running wit_req) wit_store)"
proof -
  obtain claimed g' where c: "wit_claim = Some (Inr claimed, g')" by (rule wit_claimE)
  have "dr_global_concurrency wit_req = Some 2" by (simp add: wit_req_def)
  from dequeue_global_concurrency [OF wit_store_wf c this _ _ wit_budget(3)] c
  show ?thesis by (auto simp: i64_max_def)
qed

theorem dequeue_rate_limit_witness:
  "\<exists>claimed g'. wit_claim = Some (Inr claimed, g') \<and>
     count_rows (recent_start wit_req (i64_wrap (timestamp_millis 5000000 - 1000))) g' \<le>
       max 5 (count_rows (recent_start wit_req (i64_wrap (timestamp_millis 5000000 - 1000))) wit_store)"
proof -
  obtain claimed g' where c: "wit_claim = Some (Inr claimed, g')" by (rule wit_claimE)
  have "dr_rate_limit_max wit_req = Some 5" "dr_rate_limit_period_ms wit_req = Some 1000"
    by (simp_all add: wit_req_def)
  from dequeue_rate_limit [OF wit_store_wf c this _ _ wit_budget(3)] c
  show ?thesis by (auto simp: i64_max_def)
qed

lemma store_wf_dequeue:
  assumes "store_wf g" "dequeue_workflows req now upd g = Some (r, g')"
  shows "store_wf g'"
proof -
  from dequeue_spec [OF assms(1), of req now upd] assms(2) obtain claimed where
    c: "\<forall>c \<in> set claimed. hm_get (workflows g') (ws_id c) = Some c"
    and k: "\<forall>k. k \<notin> ws_id ` set claimed \<longrightarrow> hm_get (workflows g') k = hm_get (workflows g) k"
    and g: "g' = g \<lparr> workflows := workflows g' \<rparr>" "hm_wf (workflows g')" by auto
  have "ws_id w = k" if "hm_get (workflows g') k = Some w" for k w
    using that c k row_id [OF assms(1)] by (cases "k \<in> ws_id ` set claimed") auto
  then have "rows_keyed ws_id (workflows g')"
    using g(2) by (intro rows_keyedI) (simp add: hm_in_iff)
  then show ?thesis using store_wf_tables(1) [OF assms(1) g(2)] g(1) by metis
qed


end
