(* ===== verification/Memory_Messaging.thy ===== *)
theory Memory_Messaging
  imports Memory_Queue
begin

text \<open>
  Notifications, events and streams of the in-memory provider (\<open>src/src/memory.rs\<close>). A mailbox is
  shown to be a FIFO queue through the interface \<open>fifo_mailbox\<close>; a stream is an append-only list
  sealed at most once. The identifier drawn by an unkeyed send (\<open>uuid\<close>) is an argument.
\<close>

section \<open>Operations\<close>

definition insert_notification ::
    "string \<Rightarrow> string \<Rightarrow> json \<Rightarrow> string option \<Rightarrow> string \<Rightarrow> datetime \<Rightarrow> (inner, unit) op" where
  "insert_notification destination_id topic message idempotency_key fresh now g =
     (if \<not> hm_contains (workflows g) destination_id
      then (Inl (nonexistent_workflow destination_id), g)
      else
        let message_uuid =
              (case idempotency_key of Some k \<Rightarrow> k @ ''::'' @ destination_id | None \<Rightarrow> fresh)
        in if idempotency_key \<noteq> None \<and>
              list_ex (\<lambda>n. nr_message_uuid n = message_uuid) (notifications g)
           then (Inr (), g)
           else (Inr (), g \<lparr> notifications := notifications g @
                  [\<lparr> nr_message_uuid = message_uuid, nr_destination_id = destination_id,
                     nr_topic = topic, nr_message = message, nr_consumed = False,
                     nr_created_at_ms = timestamp_millis now \<rparr>] \<rparr>))"

definition unread :: "string \<Rightarrow> string \<Rightarrow> notification_row \<Rightarrow> bool" where
  "unread workflow_id topic n \<longleftrightarrow>
     \<not> nr_consumed n \<and> nr_destination_id n = workflow_id \<and> nr_topic n = topic"

text \<open>The unconsumed notifications of a mailbox with their positions.\<close>

definition unread_rows :: "string \<Rightarrow> string \<Rightarrow> inner \<Rightarrow> (nat \<times> notification_row) list" where
  "unread_rows workflow_id topic g =
     filter (\<lambda>(_, n). unread workflow_id topic n) (enumerate 0 (notifications g))"

definition created_key :: "nat \<times> notification_row \<Rightarrow> int" where
  "created_key x = nr_created_at_ms (snd x)"

definition consume_notification ::
    "string \<Rightarrow> string \<Rightarrow> int \<Rightarrow> string \<Rightarrow> (inner, json option) op" where
  "consume_notification workflow_id topic seq step_name g =
     (case min_by_key created_key (unread_rows workflow_id topic g) of
        None \<Rightarrow> (Inr None, g)
      | Some (i, row) \<Rightarrow>
          let g1 = g \<lparr> notifications := (notifications g)[i := row \<lparr> nr_consumed := True \<rparr>] \<rparr>;
              (stored, g2) = step_or_insert workflow_id seq
                (step_row_default \<lparr> sr_name := step_name, sr_output := Some (nr_message row),
                   sr_child_workflow_id := None \<rparr>) g1
          in (Inr (Some (unwrap_or (sr_output stored) JNull)), g2))"

definition upsert_event :: "string \<Rightarrow> string \<Rightarrow> json \<Rightarrow> (inner, unit) op" where
  "upsert_event workflow_id key val g =
     (Inr (), g \<lparr> events := hm_insert (workflow_id, key) val (events g) \<rparr>)"

definition get_event_value :: "string \<Rightarrow> string \<Rightarrow> (inner, json option) op" where
  "get_event_value workflow_id key g = (Inr (hm_get (events g) (workflow_id, key)), g)"

definition stream_entries :: "inner \<Rightarrow> string \<Rightarrow> string \<Rightarrow> json option list" where
  "stream_entries g workflow_id key = unwrap_or (hm_get (streams g) (workflow_id, key)) []"

text \<open>The entry is created before the seal is looked for, also when the write is refused.\<close>

definition write_stream :: "string \<Rightarrow> string \<Rightarrow> json option \<Rightarrow> int \<Rightarrow> (inner, unit) op" where
  "write_stream workflow_id key val function_id g =
     (let entries = stream_entries g workflow_id key in
      if list_ex (\<lambda>e. e = None) entries
      then (Inl (app (''stream `'' @ key @ ''` is already closed'')),
            g \<lparr> streams := hm_insert (workflow_id, key) entries (streams g) \<rparr>)
      else (Inr (), g \<lparr> streams := hm_insert (workflow_id, key) (entries @ [val]) (streams g) \<rparr>))"

fun read_entries :: "json option list \<Rightarrow> json list \<times> bool" where
  "read_entries [] = ([], False)"
| "read_entries (None # _) = ([], True)"
| "read_entries (Some v # es) = (let (vs, c) = read_entries es in (v # vs, c))"

definition read_stream :: "string \<Rightarrow> string \<Rightarrow> int \<Rightarrow> (inner, json list \<times> bool) op" where
  "read_stream workflow_id key from_offset g =
     (Inr (case hm_get (streams g) (workflow_id, key) of
             Some entries \<Rightarrow> read_entries (drop (nat (max from_offset 0)) entries)
           | None \<Rightarrow> ([], False)), g)"

definition list_workflow_events :: "string \<Rightarrow> (inner, (string \<times> json) list) op" where
  "list_workflow_events workflow_id g =
     (Inr (sort_key fst (map (\<lambda>((_, key), v). (key, v))
        (filter (\<lambda>((wid, _), _). wid = workflow_id) (events g)))), g)"

definition list_workflow_notifications :: "string \<Rightarrow> (inner, notification_info list) op" where
  "list_workflow_notifications workflow_id g =
     (Inr (map (\<lambda>n. \<lparr> ni_topic = (if nr_topic n \<noteq> [] then Some (nr_topic n) else None),
                     ni_message = nr_message n, ni_created_at_ms = nr_created_at_ms n,
                     ni_consumed = nr_consumed n \<rparr>)
        (sort_key nr_created_at_ms
           (filter (\<lambda>n. nr_destination_id n = workflow_id) (notifications g)))), g)"

definition list_workflow_streams :: "string \<Rightarrow> (inner, (string \<times> json list) list) op" where
  "list_workflow_streams workflow_id g =
     (Inr (sort_key fst (map (\<lambda>((_, key), entries).
          (key, List.map_filter (\<lambda>e. e) (takeWhile (\<lambda>e. e \<noteq> None) entries)))
        (filter (\<lambda>((wid, _), _). wid = workflow_id) (streams g)))), g)"

section \<open>Mailboxes are queues\<close>

text \<open>
  The interface of a mailbox, over the list of messages still to be received. Sends are stamped with
  a clock reading; \<open>settled t s\<close> says that no message is stamped later than \<open>t\<close>.
\<close>

fun receive_seq :: "(int \<Rightarrow> 's \<Rightarrow> 'm option \<times> 's) \<Rightarrow> int list \<Rightarrow> 's \<Rightarrow> 'm option list \<times> 's" where
  "receive_seq rcv [] s = ([], s)"
| "receive_seq rcv (i # is) s =
     (let (m, s') = rcv i s; (ms, s'') = receive_seq rcv is s' in (m # ms, s''))"

locale fifo_mailbox =
  fixes pending :: "'s \<Rightarrow> 'm list"
    and settled :: "int \<Rightarrow> 's \<Rightarrow> bool"
    and ready :: "'s \<Rightarrow> bool"
    and send :: "'m \<Rightarrow> int \<Rightarrow> 's \<Rightarrow> 's"
    and receive :: "int \<Rightarrow> 's \<Rightarrow> 'm option \<times> 's"
    and free_seq :: "int \<Rightarrow> 's \<Rightarrow> bool"
  assumes send_pending: "ready s \<Longrightarrow> settled t s \<Longrightarrow> pending (send m t s) = pending s @ [m]"
    and send_settled: "ready s \<Longrightarrow> settled t s \<Longrightarrow> settled t (send m t s)"
    and settled_mono: "settled t s \<Longrightarrow> t \<le> t' \<Longrightarrow> settled t' s"
    and send_ready: "ready s \<Longrightarrow> ready (send m t s)"
    and send_free: "free_seq i (send m t s) = free_seq i s"
    and receive_empty: "pending s = [] \<Longrightarrow> receive i s = (None, s)"
    and receive_cons: "pending s = m # ms \<Longrightarrow> free_seq i s \<Longrightarrow>
          \<exists>s'. receive i s = (Some m, s') \<and> pending s' = ms \<and>
               (\<forall>j. j \<noteq> i \<longrightarrow> free_seq j s' = free_seq j s)"
begin

lemma send_seq_pending:
  assumes "ready s" "sorted (map snd ms)" "\<forall>t \<in> set (map snd ms). settled t s"
  shows "pending (fold (\<lambda>(m, t). send m t) ms s) = pending s @ map fst ms \<and>
         (\<forall>i. free_seq i (fold (\<lambda>(m, t). send m t) ms s) = free_seq i s)"
  using assms
proof (induction ms arbitrary: s)
  case (Cons mt ms)
  obtain m t where mt: "mt = (m, t)" by (cases mt)
  have r: "ready s" "settled t s" "\<forall>t' \<in> set (map snd ms). t \<le> t'"
    using Cons.prems by (auto simp: mt)
  have "\<forall>t' \<in> set (map snd ms). settled t' (send m t s)"
    using settled_mono [OF send_settled [OF r(1,2)]] r(3) by blast
  with Cons.IH [OF send_ready [OF r(1)]] Cons.prems(2) send_pending [OF r(1,2)]
  show ?case by (simp add: mt send_free)
qed simp

lemma receive_seq_pending:
  assumes "distinct is" "\<forall>i \<in> set is. free_seq i s" "length is = length (pending s)"
  shows "\<exists>s'. receive_seq receive is s = (map Some (pending s), s') \<and> pending s' = []"
  using assms
proof (induction "is" arbitrary: s)
  case (Cons i "is")
  then obtain m ms where p: "pending s = m # ms" by (cases "pending s") auto
  from receive_cons [OF this] Cons.prems obtain s1 where s1: "receive i s = (Some m, s1)"
    "pending s1 = ms" "\<forall>j. j \<noteq> i \<longrightarrow> free_seq j s1 = free_seq j s" by auto
  moreover have "\<forall>j \<in> set is. free_seq j s1" using s1(3) Cons.prems(1,2) by auto
  ultimately show ?case using Cons.IH [of s1] Cons.prems p by auto
qed simp

lemma deliver_in_order:
  assumes "ready s" "pending s = []" "sorted (map snd ms)" "\<forall>t \<in> set (map snd ms). settled t s"
    and "distinct is" "\<forall>i \<in> set is. free_seq i s" "length is = length ms"
  shows "\<exists>s'. receive_seq receive is (fold (\<lambda>(m, t). send m t) ms s) = (map (Some \<circ> fst) ms, s') \<and>
           (\<forall>j. receive j s' = (None, s'))"
  using receive_seq_pending [of "is" "fold (\<lambda>(m, t). send m t) ms s"] send_seq_pending [OF assms(1,3,4)] assms(2,5-7)
    receive_empty by (auto simp flip: map_map)

end

text \<open>The messages a mailbox still holds, oldest first (ties in order of arrival).\<close>

definition mailbox :: "string \<Rightarrow> string \<Rightarrow> inner \<Rightarrow> json list" where
  "mailbox workflow_id topic g =
     map (nr_message \<circ> snd) (sort_key created_key (unread_rows workflow_id topic g))"

definition mail_settled :: "int \<Rightarrow> inner \<Rightarrow> bool" where
  "mail_settled t g \<longleftrightarrow> list_all (\<lambda>n. nr_created_at_ms n \<le> timestamp_millis t) (notifications g)"

lemma unread_rows_distinct: "distinct (map fst (unread_rows wid topic g))"
  unfolding unread_rows_def by (rule distinct_map_filter) simp

lemma sort_key_snoc_max:
  "(\<And>y. y \<in> set xs \<Longrightarrow> f y \<le> f x) \<Longrightarrow> sort_key f (xs @ [x]) = sort_key f xs @ [x]"
proof (induction xs)
  case (Cons a xs)
  have "insort_key f a (ys @ [x]) = insort_key f a ys @ [x]" if "f a \<le> f x" for ys
    using that by (induction ys) auto
  with Cons show ?case by simp
qed simp

lemma mailbox_append:
  assumes "mail_settled t g"
    and "n = \<lparr> nr_message_uuid = u, nr_destination_id = wid, nr_topic = topic, nr_message = m,
               nr_consumed = False, nr_created_at_ms = timestamp_millis t \<rparr>"
  shows "mailbox wid topic (g \<lparr> notifications := notifications g @ [n] \<rparr>) = mailbox wid topic g @ [m]"
proof -
  have "unread_rows wid topic (g \<lparr> notifications := notifications g @ [n] \<rparr>) =
      unread_rows wid topic g @ [(length (notifications g), n)]"
    by (simp add: unread_rows_def enumerate_append_eq unread_def assms(2))
  moreover have "created_key y \<le> created_key (length (notifications g), n)"
    if "y \<in> set (unread_rows wid topic g)" for y
    using that assms
    by (auto simp: unread_rows_def created_key_def mail_settled_def list_all_iff in_set_enumerate_eq)
  ultimately show ?thesis by (simp add: mailbox_def sort_key_snoc_max assms(2))
qed

lemma unread_rows_nth:
  "(i, n) \<in> set (unread_rows wid topic g) \<Longrightarrow> i < length (notifications g) \<and> notifications g ! i = n"
  by (auto simp: unread_rows_def in_set_enumerate_eq)

lemma unread_rows_consume:
  assumes "i < length (notifications g)"
  shows "unread_rows wid topic (g \<lparr> notifications :=
           (notifications g)[i := (notifications g ! i) \<lparr> nr_consumed := True \<rparr>] \<rparr>) =
         filter (\<lambda>(j, _). j \<noteq> i) (unread_rows wid topic g)"
proof -
  have "filter (\<lambda>(_, n). unread wid topic n) (enumerate k (ns[i := (ns ! i) \<lparr> nr_consumed := True \<rparr>])) =
      filter (\<lambda>(j, _). j \<noteq> i + k) (filter (\<lambda>(_, n). unread wid topic n) (enumerate k ns))"
    if "i < length ns" for ns k i
    using that
  proof (induction ns arbitrary: i k)
    case (Cons n ns)
    show ?case
    proof (cases i)
      case 0
      have "filter (\<lambda>(j, _). j \<noteq> k) (filter (\<lambda>(_, n). unread wid topic n) (enumerate (Suc k) ns)) =
          filter (\<lambda>(_, n). unread wid topic n) (enumerate (Suc k) ns)"
        by (auto simp only: filter_id_conv set_filter in_set_enumerate_eq mem_Collect_eq split_beta)
      then show ?thesis using 0 by (simp add: unread_def del: filter_filter)
    next
      case (Suc i')
      then show ?thesis using Cons.IH [of i' "Suc k"] Cons.prems by auto
    qed
  qed simp
  from this [OF assms, of 0] show ?thesis by (simp add: unread_rows_def)
qed

lemma mailbox_head:
  assumes "mailbox wid topic g = m # ms"
  obtains i row where "min_by_key created_key (unread_rows wid topic g) = Some (i, row)"
    "i < length (notifications g)" "notifications g ! i = row" "nr_message row = m"
    "map (nr_message \<circ> snd) (filter (\<lambda>(j, _). j \<noteq> i) (sort_key created_key (unread_rows wid topic g))) = ms"
proof -
  from assms obtain x xs where s: "sort_key created_key (unread_rows wid topic g) = x # xs"
    "nr_message (snd x) = m" "map (nr_message \<circ> snd) xs = ms"
    by (auto simp: mailbox_def map_eq_Cons_conv)
  have "x \<in> set (unread_rows wid topic g)" using s(1) by (metis list.set_intros(1) set_sort)
  then have "(fst x, snd x) \<in> set (unread_rows wid topic g)" by simp
  from unread_rows_nth [OF this] have
    n: "fst x < length (notifications g)" "notifications g ! fst x = snd x" by auto
  have "distinct (map fst (sort_key created_key (unread_rows wid topic g)))"
    using unread_rows_distinct [of wid topic g] by (simp add: distinct_map)
  then have "filter (\<lambda>y. fst y \<noteq> fst x) (x # xs) = xs" unfolding s(1) by (rule filter_head_out)
  then have "map (nr_message \<circ> snd) (filter (\<lambda>(j, _). j \<noteq> fst x)
      (sort_key created_key (unread_rows wid topic g))) = ms"
    using s(1,3) by (simp add: case_prod_unfold)
  with that [of "fst x" "snd x"] n s(2) show ?thesis
    by (simp add: min_by_key_sort s(1))
qed

lemma consume_empty:
  "mailbox wid topic g = [] \<Longrightarrow> consume_notification wid topic seq name g = (Inr None, g)"
  by (simp add: mailbox_def consume_notification_def min_by_key_sort split: list.splits)

lemma consume_head:
  assumes "mailbox wid topic g = m # ms" "hm_get (steps g) (wid, seq) = None"
  shows "\<exists>g'. consume_notification wid topic seq name g = (Inr (Some m), g') \<and>
           mailbox wid topic g' = ms \<and> workflows g' = workflows g \<and>
           (\<exists>r. hm_get (steps g') (wid, seq) = Some r \<and> sr_name r = name \<and> sr_output r = Some m \<and>
              sr_error r = None) \<and>
           (\<forall>k. k \<noteq> (wid, seq) \<longrightarrow> hm_get (steps g') k = hm_get (steps g) k)"
proof -
  from assms(1) obtain i row where r: "min_by_key created_key (unread_rows wid topic g) = Some (i, row)"
    "i < length (notifications g)" "notifications g ! i = row" "nr_message row = m"
    "map (nr_message \<circ> snd) (filter (\<lambda>(j, _). j \<noteq> i) (sort_key created_key (unread_rows wid topic g))) = ms"
    by (rule mailbox_head)
  let ?g1 = "g \<lparr> notifications := (notifications g)[i := row \<lparr> nr_consumed := True \<rparr>] \<rparr>"
  let ?row = "step_row_default \<lparr> sr_name := name, sr_output := Some m, sr_child_workflow_id := None \<rparr>"
  have "mailbox wid topic ?g1 = ms"
    using r(5) unread_rows_consume [OF r(2), of wid topic]
    by (simp add: mailbox_def r(3) filter_sort)
  moreover have "mailbox wid topic (g0 \<lparr> steps := st \<rparr>) = mailbox wid topic g0" for g0 st
    by (simp add: mailbox_def unread_rows_def)
  ultimately show ?thesis
    using assms(2) r(1,4)
    by (simp add: consume_notification_def step_or_insert_def step_row_default_def)
qed

definition send_mail :: "string \<Rightarrow> string \<Rightarrow> string \<Rightarrow> json \<Rightarrow> int \<Rightarrow> inner \<Rightarrow> inner" where
  "send_mail wid topic fresh m t g = snd (insert_notification wid topic m None fresh t g)"

definition take_mail :: "string \<Rightarrow> string \<Rightarrow> string \<Rightarrow> int \<Rightarrow> inner \<Rightarrow> json option \<times> inner" where
  "take_mail wid topic name seq g =
     (case consume_notification wid topic seq name g of
        (Inl _, g') \<Rightarrow> (None, g')
      | (Inr r, g') \<Rightarrow> (r, g'))"

interpretation mail: fifo_mailbox "mailbox wid topic" mail_settled "\<lambda>g. hm_contains (workflows g) wid"
  "send_mail wid topic fresh" "take_mail wid topic name" "\<lambda>seq g. hm_get (steps g) (wid, seq) = None"
  for wid topic fresh name
proof
  fix s :: inner and t m
  assume r: "hm_contains (workflows s) wid" and st: "mail_settled t s"
  show "mailbox wid topic (send_mail wid topic fresh m t s) = mailbox wid topic s @ [m]"
    using r mailbox_append [OF st refl] by (simp add: send_mail_def insert_notification_def)
  show "mail_settled t (send_mail wid topic fresh m t s)"
    using r st by (simp add: send_mail_def insert_notification_def mail_settled_def)
next
  fix s :: inner and i m ms
  assume "mailbox wid topic s = m # ms" "hm_get (steps s) (wid, i) = None"
  from consume_head [OF this, of name] show "\<exists>s'. take_mail wid topic name i s = (Some m, s') \<and>
      mailbox wid topic s' = ms \<and>
      (\<forall>j. j \<noteq> i \<longrightarrow> (hm_get (steps s') (wid, j) = None) = (hm_get (steps s) (wid, j) = None))"
    by (auto simp: take_mail_def)
next
  fix t t' :: int and s
  show "mail_settled t s \<Longrightarrow> t \<le> t' \<Longrightarrow> mail_settled t' s"
    using timestamp_millis_mono [of t t'] by (force simp: mail_settled_def list_all_iff)
qed (simp_all add: send_mail_def insert_notification_def take_mail_def consume_empty Let_def)

text \<open>
  C32. Messages are delivered exactly once and in order: if a workflow's mailbox on a topic is empty,
  then after any messages are sent to it with a clock that does not run backwards, receiving at as
  many fresh step positions returns exactly those messages in the order sent, and a further receive
  finds the mailbox empty and changes nothing.
\<close>

theorem mailbox_delivers_in_order:
  assumes "hm_contains (workflows g) wid" "mailbox wid topic g = []"
    and "sorted (map snd ms)" "\<forall>t \<in> set (map snd ms). mail_settled t g"
    and "distinct seqs" "\<forall>i \<in> set seqs. hm_get (steps g) (wid, i) = None" "length seqs = length ms"
  shows "\<exists>g'. receive_seq (take_mail wid topic name) seqs
                (fold (\<lambda>(m, t). send_mail wid topic fresh m t) ms g) = (map (Some \<circ> fst) ms, g') \<and>
              (\<forall>j. take_mail wid topic name j g' = (None, g'))"
  using assms by (rule mail.deliver_in_order)

theorem mailbox_delivers_in_order_witness:
  "let g = snd (insert_workflow_status (wit_row ''a'') inner_default) in
   fst (receive_seq (take_mail ''a'' ''t'' ''DBOS.recv'') [0, 1]
     (fold (\<lambda>(m, t). send_mail ''a'' ''t'' ''u'' m t) [(JInt 1, 5), (JInt 2, 5)] g)) =
   [Some (JInt 1), Some (JInt 2)]"
proof -
  let ?g = "snd (insert_workflow_status (wit_row ''a'') inner_default)"
  have "hm_contains (workflows ?g) ''a''" "mailbox ''a'' ''t'' ?g = []" "mail_settled 5 ?g"
    "hm_get (steps ?g) (''a'', 0) = None" "hm_get (steps ?g) (''a'', 1) = None" by code_simp+
  then show ?thesis
    using mailbox_delivers_in_order
      [of ?g "''a''" "''t''" "[(JInt 1, 5), (JInt 2, 5)]" "[0, 1]" "''DBOS.recv''" "''u''"]
    by (auto simp: Let_def)
qed

text \<open>
  A keyed send is delivered at most once: after a first send under an idempotency key succeeded,
  every later send to the same destination under that key reports success and leaves the store as it
  is, whatever its topic and message; the store holds exactly one row for the key if it held none
  before.
\<close>

theorem keyed_send_at_most_once:
  assumes "insert_notification dest topic m (Some k) u now g = (Inr (), g')"
    and "\<forall>n \<in> set (notifications g). nr_message_uuid n \<noteq> k @ ''::'' @ dest"
  shows "insert_notification dest topic' m' (Some k) u' now' g' = (Inr (), g') \<and>
         length (filter (\<lambda>n. nr_message_uuid n = k @ ''::'' @ dest) (notifications g')) = 1"
  using assms
  by (auto simp: insert_notification_def Let_def list_ex_iff filter_empty_conv split: if_splits)

theorem keyed_send_at_most_once_witness:
  "let g = snd (insert_workflow_status (wit_row ''a'') inner_default);
       g' = snd (insert_notification ''a'' ''t'' (JInt 1) (Some ''k'') ''u'' 5 g)
   in insert_notification ''a'' ''x'' (JInt 2) (Some ''k'') ''v'' 6 g' = (Inr (), g')"
proof -
  let ?g = "snd (insert_workflow_status (wit_row ''a'') inner_default)"
  let ?r = "insert_notification ''a'' ''t'' (JInt 1) (Some ''k'') ''u'' 5 ?g"
  have "fst ?r = Inr ()" "notifications ?g = []" by code_simp+
  then have "?r = (Inr (), snd ?r)" by (metis prod.collapse)
  from keyed_send_at_most_once [OF this] \<open>notifications ?g = []\<close>
  show ?thesis by (simp add: Let_def)
qed

section \<open>Streams are append-only and sealed once\<close>

text \<open>The values written so far and whether the stream is sealed.\<close>

definition stream_view :: "inner \<Rightarrow> string \<Rightarrow> string \<Rightarrow> json list \<times> bool" where
  "stream_view g workflow_id key = read_entries (stream_entries g workflow_id key)"

lemma sealed_cases:
  assumes "stream_sealed_ok es"
  obtains vs where "es = map Some vs" | vs where "es = map Some vs @ [None]"
proof -
  have "\<exists>vs. es = map Some vs" if "None \<notin> set es" for es :: "json option list"
  proof -
    have "es = map Some (map the es)" using that by (induction es) (auto intro: option.collapse [symmetric])
    then show ?thesis by blast
  qed
  note all = this
  show thesis
  proof (cases "None \<in> set es")
    case False
    then show ?thesis using all that(1) by blast
  next
    case True
    then have ne: "es \<noteq> []" by auto
    with True assms have "last es = None"
      by (metis append_butlast_last_id insertE list.set(2) rotate1.simps(2) set_rotate1 stream_sealed_ok_def)
    moreover obtain vs where "butlast es = map Some vs" using all assms by (auto simp: stream_sealed_ok_def)
    ultimately show ?thesis using that(2) ne by (metis append_butlast_last_id)
  qed
qed

lemma read_entries_values [simp]:
  "read_entries (map Some vs) = (vs, False)"
  "read_entries (map Some vs @ None # es) = (vs, True)"
  by (induction vs) auto

lemma stream_entries_ok: "streams_ok g \<Longrightarrow> stream_sealed_ok (stream_entries g wid key)"
  by (auto simp: streams_ok_def stream_entries_def list_all_iff unwrap_or_def stream_sealed_ok_def
      dest!: hm_get_Some_in split: option.splits)

lemma list_all_hm_insert: "list_all P m \<Longrightarrow> P (k, v) \<Longrightarrow> list_all P (hm_insert k v m)"
  by (induction k v m rule: hm_insert.induct) auto

lemma streams_ok_insert:
  "streams_ok g \<Longrightarrow> stream_sealed_ok es \<Longrightarrow> streams_ok (g \<lparr> streams := hm_insert k es (streams g) \<rparr>)"
  by (simp add: streams_ok_def list_all_hm_insert)

lemma streams_ok_write_stream:
  "streams_ok g \<Longrightarrow> streams_ok (snd (write_stream wid key v i g))"
  using stream_entries_ok [of g wid key]
  by (auto simp: write_stream_def Let_def streams_ok_insert stream_sealed_ok_def list_ex_iff)

lemma read_stream_view:
  assumes "streams_ok g" "stream_view g wid key = (vs, c)" "off \<le> length vs"
  shows "read_stream wid key (int off) g = (Inr (drop off vs, c), g)"
proof -
  have r: "read_stream wid key (int off) g = (Inr (read_entries (drop off (stream_entries g wid key))), g)"
    by (simp add: read_stream_def stream_entries_def split: option.splits)
  from stream_entries_ok [OF assms(1), of wid key] show ?thesis
    by (cases rule: sealed_cases) (use assms(2,3) in \<open>auto simp: r stream_view_def drop_map\<close>)
qed

text \<open>
  A stream is an append-only list that is sealed at most once: on a stream that is open, a write
  appends its value and a close seals it; on a sealed stream every write and close is refused and
  nothing is added; reading from an offset returns exactly the values from that offset on, in order,
  with the seal; and the other streams are untouched.
\<close>

theorem stream_append_only:
  assumes "streams_ok g" "stream_view g wid key = (vs, closed)"
  shows "(\<exists>g'. write_stream wid key (Some v) i g =
             (if closed then Inl (app (''stream `'' @ key @ ''` is already closed'')) else Inr (), g') \<and>
           stream_view g' wid key = (if closed then vs else vs @ [v], closed)) \<and>
         (\<exists>g'. write_stream wid key None i g =
             (if closed then Inl (app (''stream `'' @ key @ ''` is already closed'')) else Inr (), g') \<and>
           stream_view g' wid key = (vs, True)) \<and>
         (\<forall>off. 0 \<le> off \<longrightarrow> off \<le> int (length vs) \<longrightarrow>
           read_stream wid key off g = (Inr (drop (nat off) vs, closed), g)) \<and>
         (\<forall>k'. k' \<noteq> (wid, key) \<longrightarrow>
           stream_view (snd (write_stream wid key e i g)) (fst k') (snd k') = stream_view g (fst k') (snd k'))"
proof -
  have read: "read_stream wid key off g =
      (Inr (read_entries (drop (nat (max off 0)) (stream_entries g wid key))), g)" for off
    by (simp add: read_stream_def stream_entries_def split: option.splits)
  have other: "stream_view (snd (write_stream wid key e i g)) (fst k') (snd k') =
      stream_view g (fst k') (snd k')" if "k' \<noteq> (wid, key)" for k' e
    using that by (simp add: stream_view_def stream_entries_def write_stream_def Let_def)
  from stream_entries_ok [OF assms(1), of wid key] show ?thesis
  proof (cases rule: sealed_cases)
    case (1 us)
    then have "us = vs" "\<not> closed" using assms(2) by (simp_all add: stream_view_def)
    with 1 other show ?thesis
      by (auto simp: read write_stream_def Let_def list_ex_iff stream_view_def stream_entries_def drop_map
          read_entries_values(1) [of "vs @ [v]", simplified])
  next
    case (2 us)
    then have "us = vs" "closed" using assms(2) by (simp_all add: stream_view_def)
    with 2 other show ?thesis
      by (auto simp: read write_stream_def Let_def list_ex_iff stream_view_def stream_entries_def drop_map)
  qed
qed

theorem stream_append_only_witness:
  "let g = snd (write_stream ''a'' ''k'' (Some (JInt 1)) 0 inner_default)
   in read_stream ''a'' ''k'' 1 g = (Inr ([], False), g) \<and>
      stream_view (snd (write_stream ''a'' ''k'' (Some (JInt 2)) 1 g)) ''a'' ''k'' = ([JInt 1, JInt 2], False)"
proof -
  let ?g = "snd (write_stream ''a'' ''k'' (Some (JInt 1)) 0 inner_default)"
  have "streams_ok ?g" by (rule streams_ok_write_stream [OF store_wf_default(3)])
  moreover have "stream_view ?g ''a'' ''k'' = ([JInt 1], False)" by code_simp
  ultimately have t: "(\<exists>g'. write_stream ''a'' ''k'' (Some (JInt 2)) 1 ?g = (Inr (), g') \<and>
      stream_view g' ''a'' ''k'' = ([JInt 1, JInt 2], False)) \<and>
      read_stream ''a'' ''k'' 1 ?g = (Inr ([], False), ?g)"
    using stream_append_only [of ?g "''a''" "''k''" "[JInt 1]" False "JInt 2" 1 None] by auto
  then show ?thesis by (auto simp: Let_def)
qed

section \<open>Invariants\<close>

lemma store_wf_messaging:
  assumes "store_wf g"
  shows "store_wf (snd (insert_notification dest topic m key u now g))"
    and "store_wf (snd (consume_notification wid topic seq name g))"
    and "store_wf (snd (upsert_event wid key' v g))"
    and "store_wf (snd (write_stream wid key' e i g))"
  using assms
  by (simp_all add: insert_notification_def consume_notification_def upsert_event_def write_stream_def
      Let_def step_or_insert_def store_wf_tables store_wfD split: option.splits)

lemma dedup_unique_messaging:
  assumes "dedup_unique g"
  shows "dedup_unique (snd (insert_notification dest topic m key u now g))"
    and "dedup_unique (snd (consume_notification wid topic seq name g))"
    and "dedup_unique (snd (upsert_event wid key' v g))"
    and "dedup_unique (snd (write_stream wid key' e i g))"
  using assms
  by (simp_all add: insert_notification_def consume_notification_def upsert_event_def write_stream_def
      Let_def step_or_insert_def split: option.splits)

end
