(* ===== verification/Memory_Admin.thy ===== *)
theory Memory_Admin
  imports Memory_Messaging
begin

text \<open>
  The management operations of the in-memory provider (\<open>src/src/memory.rs\<close>): cancel, resume,
  re-enqueue, delete with descendants, delay, fork and the recovery counter.
\<close>

section \<open>Cancel and resume\<close>

definition cancel_row :: "datetime \<Rightarrow> workflow_status \<Rightarrow> workflow_status" where
  "cancel_row now row =
     (if is_terminal (ws_status row) then row
      else row \<lparr> ws_status := STATUS_CANCELLED,
                 ws_completed_at_ms := Some (timestamp_millis now),
                 ws_started_at_ms := None, ws_queue_name := None, ws_dedup_id := None,
                 ws_updated_at := now \<rparr>)"

definition cancel_workflow :: "string \<Rightarrow> datetime \<Rightarrow> (inner, unit) op" where
  "cancel_workflow wid now g = (Inr (), update_row wid (cancel_row now) g)"

definition cancel_workflows :: "string list \<Rightarrow> datetime \<Rightarrow> (inner, unit) op" where
  "cancel_workflows ids now g = (Inr (), fold (\<lambda>wid. update_row wid (cancel_row now)) ids g)"

definition resumable :: "workflow_status \<Rightarrow> bool" where
  "resumable row \<longleftrightarrow> \<not> (is_terminal (ws_status row) \<and> ws_status row \<noteq> STATUS_CANCELLED)"

definition resume_row :: "datetime \<Rightarrow> workflow_status \<Rightarrow> workflow_status" where
  "resume_row now row =
     row \<lparr> ws_status := STATUS_PENDING, ws_recovery_attempts := 0, ws_deadline_ms := None,
           ws_dedup_id := None, ws_started_at_ms := None, ws_completed_at_ms := None,
           ws_updated_at := now \<rparr>"

definition resume_workflow :: "string \<Rightarrow> datetime \<Rightarrow> (inner, bool) op" where
  "resume_workflow wid now g =
     (case hm_get (workflows g) wid of
        None \<Rightarrow> (Inr False, g)
      | Some row \<Rightarrow>
          if \<not> resumable row then (Inr False, g)
          else (Inr True, update_row wid (resume_row now) g))"

fun resume_loop :: "string list \<Rightarrow> datetime \<Rightarrow> inner \<Rightarrow> string list \<times> inner" where
  "resume_loop [] now g = ([], g)"
| "resume_loop (wid # ids) now g =
     (case hm_get (workflows g) wid of
        None \<Rightarrow> resume_loop ids now g
      | Some row \<Rightarrow>
          if \<not> resumable row then resume_loop ids now g
          else let (resumed, g') = resume_loop ids now (update_row wid (resume_row now) g)
               in (wid # resumed, g'))"

definition resume_workflows :: "string list \<Rightarrow> datetime \<Rightarrow> (inner, string list) op" where
  "resume_workflows ids now g = (let (resumed, g') = resume_loop ids now g in (Inr resumed, g'))"

definition enqueue_existing :: "string \<Rightarrow> string \<Rightarrow> datetime \<Rightarrow> (inner, unit) op" where
  "enqueue_existing wid queue now g =
     (Inr (), update_row wid (\<lambda>row. row \<lparr> ws_status := STATUS_ENQUEUED, ws_queue_name := Some queue,
                ws_executor_id := [], ws_started_at_ms := None, ws_updated_at := now \<rparr>) g)"

section \<open>Delete\<close>

text \<open>One pass of the inner loop: append the children of \<open>parent\<close> that are not yet targets.\<close>

fun add_child :: "string \<Rightarrow> string \<times> workflow_status \<Rightarrow> string list \<Rightarrow> string list" where
  "add_child parent (cid, row) ts =
     (if ws_parent_workflow_id row = Some parent \<and> cid \<notin> set ts then ts @ [cid] else ts)"

definition add_children ::
    "(string, workflow_status) hashmap \<Rightarrow> string \<Rightarrow> string list \<Rightarrow> string list" where
  "add_children wfs parent targets = fold (add_child parent) wfs targets"

lemma add_children_spec:
  "\<exists>new. add_children wfs parent ts = ts @ new \<and> distinct new \<and> set new \<inter> set ts = {} \<and>
     set new \<subseteq> fst ` set wfs \<and>
     set (ts @ new) = set ts \<union> {cid. \<exists>row. (cid, row) \<in> set wfs \<and> ws_parent_workflow_id row = Some parent}"
proof (induction wfs arbitrary: ts)
  case (Cons kv wfs)
  obtain cid row where kv: "kv = (cid, row)" by (cases kv)
  show ?case
  proof (cases "ws_parent_workflow_id row = Some parent \<and> cid \<notin> set ts")
    case True
    with Cons.IH [of "ts @ [cid]"] obtain new where
      "add_children wfs parent (ts @ [cid]) = (ts @ [cid]) @ new"
      "distinct new" "set new \<inter> set (ts @ [cid]) = {}" "set new \<subseteq> fst ` set wfs"
      "set ((ts @ [cid]) @ new) = set (ts @ [cid]) \<union>
         {cid. \<exists>row. (cid, row) \<in> set wfs \<and> ws_parent_workflow_id row = Some parent}" by blast
    with True show ?thesis
      by (intro exI [of _ "cid # new"]) (auto simp: kv add_children_def)
  next
    case False
    then have "add_children (kv # wfs) parent ts = add_children wfs parent ts"
      by (auto simp: kv add_children_def)
    with Cons.IH [of ts] False show ?thesis by (auto simp: kv)
  qed
qed (simp add: add_children_def)

text \<open>The worklist loop over the growing list of targets.\<close>

function collect_targets ::
    "(string, workflow_status) hashmap \<Rightarrow> nat \<Rightarrow> string list \<Rightarrow> string list" where
  "collect_targets wfs i targets =
     (if i < length targets
      then collect_targets wfs (Suc i) (add_children wfs (targets ! i) targets)
      else targets)"
  by pat_completeness auto

termination
proof (relation "measure (\<lambda>(wfs, i, ts). card (fst ` set wfs - set ts) + (length ts - i))")
  fix wfs :: "(string, workflow_status) hashmap" and i and ts :: "string list"
  assume i: "i < length ts"
  obtain new where new: "add_children wfs (ts ! i) ts = ts @ new" "distinct new"
    "set new \<inter> set ts = {}" "set new \<subseteq> fst ` set wfs"
    using add_children_spec by blast
  have "fst ` set wfs - set (ts @ new) = (fst ` set wfs - set ts) - set new" by auto
  moreover have "set new \<subseteq> fst ` set wfs - set ts" using new by auto
  ultimately have "card (fst ` set wfs - set (ts @ new)) = card (fst ` set wfs - set ts) - length new"
    "length new \<le> card (fst ` set wfs - set ts)"
    using new(2) card_mono [of "fst ` set wfs - set ts" "set new"]
    by (simp_all add: card_Diff_subset distinct_card)
  then show "((wfs, Suc i, add_children wfs (ts ! i) ts), (wfs, i, ts))
      \<in> measure (\<lambda>(wfs, i, ts). card (fst ` set wfs - set ts) + (length ts - i))"
    using i by (simp add: new(1))
qed simp

declare collect_targets.simps [simp del]

definition delete_one :: "string \<Rightarrow> inner \<Rightarrow> inner" where
  "delete_one wid g =
     g \<lparr> workflows := hm_remove wid (workflows g),
         steps := hm_retain (\<lambda>(wf, _) _. wf \<noteq> wid) (steps g),
         streams := hm_retain (\<lambda>(wf, _) _. wf \<noteq> wid) (streams g),
         notifications := filter (\<lambda>n. nr_destination_id n \<noteq> wid) (notifications g) \<rparr>"

definition delete_workflows :: "string list \<Rightarrow> bool \<Rightarrow> (inner, unit) op" where
  "delete_workflows ids delete_children g =
     (let targets = (if delete_children then collect_targets (workflows g) 0 ids else ids)
      in (Inr (), fold delete_one targets g))"

section \<open>Delay, fork and recovery\<close>

definition set_workflow_delay :: "string \<Rightarrow> int \<Rightarrow> datetime \<Rightarrow> (inner, bool) op" where
  "set_workflow_delay wid delay_until_ms now g =
     (case hm_get (workflows g) wid of
        Some row \<Rightarrow>
          if ws_status row = STATUS_DELAYED
          then (Inr True, update_row wid
                 (\<lambda>row. row \<lparr> ws_delay_until_ms := Some delay_until_ms, ws_updated_at := now \<rparr>) g)
          else (Inr False, g)
      | None \<Rightarrow> (Inr False, g))"

definition forked_row :: "fork_params \<Rightarrow> workflow_status \<Rightarrow> datetime \<Rightarrow> workflow_status" where
  "forked_row params original now =
     (workflow_status_new (fp_new_id params) (ws_name original) (ws_input original) STATUS_ENQUEUED []
        (unwrap_or (fp_app_version params) (ws_app_version original)) now)
       \<lparr> ws_forked_from := Some (fp_original_id params),
         ws_authenticated_user := ws_authenticated_user original,
         ws_assumed_role := ws_assumed_role original,
         ws_authenticated_roles := ws_authenticated_roles original,
         ws_class_name := ws_class_name original,
         ws_config_name := ws_config_name original,
         ws_queue_name := Some (fp_queue_name params),
         ws_queue_partition_key := fp_partition_key params \<rparr>"

definition fork_workflow :: "fork_params \<Rightarrow> datetime \<Rightarrow> (inner, unit) op" where
  "fork_workflow params now g =
     (case hm_get (workflows g) (fp_original_id params) of
        None \<Rightarrow> (Inl (nonexistent_workflow (fp_original_id params)), g)
      | Some original \<Rightarrow>
          let g1 = g \<lparr> workflows := hm_insert (fp_new_id params) (forked_row params original now)
                                      (workflows g) \<rparr>;
              copied = map (\<lambda>((_, seq), v). (seq, v))
                (filter (\<lambda>((wid, seq), _). wid = fp_original_id params \<and> seq < fp_start_step params)
                   (steps g1))
          in (Inr (), g1 \<lparr> steps :=
                fold (\<lambda>(seq, v). hm_insert (fp_new_id params, seq) v) copied (steps g1) \<rparr>))"

definition bump_row :: "int \<Rightarrow> datetime \<Rightarrow> workflow_status \<Rightarrow> workflow_status" where
  "bump_row mx now row =
     (let row1 = row \<lparr> ws_recovery_attempts := i32_wrap (ws_recovery_attempts row + 1) \<rparr> in
      if ws_recovery_attempts row1 > mx
      then row1 \<lparr> ws_status := STATUS_MAX_RECOVERY_ATTEMPTS_EXCEEDED, ws_dedup_id := None,
                  ws_updated_at := now \<rparr>
      else row1)"

definition bump_recovery_attempts :: "string \<Rightarrow> int \<Rightarrow> datetime \<Rightarrow> (inner, int) op" where
  "bump_recovery_attempts wid mx now g =
     (case hm_get (workflows g) wid of
        None \<Rightarrow> (Inr 0, g)
      | Some row \<Rightarrow>
          (Inr (ws_recovery_attempts (bump_row mx now row)), update_row wid (bump_row mx now) g))"

section \<open>Deletion removes exactly the descendants\<close>

definition child_rel :: "(string, workflow_status) hashmap \<Rightarrow> (string \<times> string) set" where
  "child_rel wfs = {(p, c). \<exists>row. (c, row) \<in> set wfs \<and> ws_parent_workflow_id row = Some p}"

lemma collect_targets_closed:
  assumes "\<forall>j < i. child_rel wfs `` {ts ! j} \<subseteq> set ts" "i \<le> length ts"
  shows "set ts \<subseteq> set (collect_targets wfs i ts) \<and>
         child_rel wfs `` set (collect_targets wfs i ts) \<subseteq> set (collect_targets wfs i ts) \<and>
         set (collect_targets wfs i ts) \<subseteq> (child_rel wfs)\<^sup>* `` set ts"
  using assms
proof (induction wfs i ts rule: collect_targets.induct)
  case (1 wfs i ts)
  show ?case
  proof (cases "i < length ts")
    case False
    then have "collect_targets wfs i ts = ts" by (simp add: collect_targets.simps)
    moreover have "child_rel wfs `` set ts \<subseteq> set ts"
      using False 1(2,3) by (fastforce simp: in_set_conv_nth)
    ultimately show ?thesis by auto
  next
    case True
    obtain new where new: "add_children wfs (ts ! i) ts = ts @ new"
      "set (ts @ new) = set ts \<union> child_rel wfs `` {ts ! i}"
      using add_children_spec [of wfs "ts ! i" ts] by (auto simp: child_rel_def)
    have "child_rel wfs `` {(ts @ new) ! j} \<subseteq> set (ts @ new)" if "j < Suc i" for j
      using that True new(2) 1(2) by (cases "j = i") (auto simp: nth_append less_Suc_eq)
    with 1(1) [OF True] new(1) True have
      "set (ts @ new) \<subseteq> set (collect_targets wfs (Suc i) (ts @ new)) \<and>
       child_rel wfs `` set (collect_targets wfs (Suc i) (ts @ new)) \<subseteq> set (collect_targets wfs (Suc i) (ts @ new)) \<and>
       set (collect_targets wfs (Suc i) (ts @ new)) \<subseteq> (child_rel wfs)\<^sup>* `` set (ts @ new)"
      by simp
    moreover have "(child_rel wfs)\<^sup>* `` set (ts @ new) \<subseteq> (child_rel wfs)\<^sup>* `` set ts"
      unfolding new(2) using True
      by (auto intro: converse_rtrancl_into_rtrancl nth_mem)
    ultimately show ?thesis
      using True new(1) by (simp add: collect_targets.simps [of wfs i ts]) blast
  qed
qed

lemma collect_targets_descendants:
  "set (collect_targets wfs 0 ids) = (child_rel wfs)\<^sup>* `` set ids"
proof -
  note c = collect_targets_closed [of 0 wfs ids, simplified]
  have "(child_rel wfs)\<^sup>* `` set ids \<subseteq> (child_rel wfs)\<^sup>* `` set (collect_targets wfs 0 ids)"
    using c by blast
  also have "\<dots> = set (collect_targets wfs 0 ids)" using c by (intro Image_closed_trancl) blast
  finally show ?thesis using c by blast
qed

lemma fold_delete_one:
  "fold delete_one ts g =
     g \<lparr> workflows := hm_retain (\<lambda>k _. k \<notin> set ts) (workflows g),
         steps := hm_retain (\<lambda>(wf, _) _. wf \<notin> set ts) (steps g),
         streams := hm_retain (\<lambda>(wf, _) _. wf \<notin> set ts) (streams g),
         notifications := filter (\<lambda>n. nr_destination_id n \<notin> set ts) (notifications g) \<rparr>"
proof (induction ts arbitrary: g)
  case Nil
  have "filter (\<lambda>x. True) xs = xs" for xs :: "'x list" by simp
  then show ?case by (simp add: hm_retain_def case_prod_unfold)
next
  case (Cons t ts)
  show ?case
    unfolding fold.simps o_apply Cons.IH
    by (simp add: delete_one_def hm_remove_def hm_retain_def case_prod_unfold conj_commute)
qed

definition doomed :: "string list \<Rightarrow> bool \<Rightarrow> inner \<Rightarrow> string set" where
  "doomed ids delete_children g =
     (if delete_children then (child_rel (workflows g))\<^sup>* `` set ids else set ids)"

lemma delete_workflows_eq:
  "\<exists>ts. set ts = doomed ids dc g \<and> delete_workflows ids dc g = (Inr (), fold delete_one ts g)"
  unfolding delete_workflows_def doomed_def Let_def
  by (intro exI [of _ "if dc then collect_targets (workflows g) 0 ids else ids"])
    (simp add: collect_targets_descendants)

text \<open>
  C34. Deletion removes exactly the named workflows and, when asked, all their transitive children:
  their rows, steps, streams and mailboxes are gone and those of every other workflow are as before.
  Recorded events are not touched.
\<close>

theorem delete_workflows_exact:
  assumes "store_wf g"
  shows "\<exists>g'. delete_workflows ids dc g = (Inr (), g') \<and>
           (\<forall>k. hm_get (workflows g') k = (if k \<in> doomed ids dc g then None else hm_get (workflows g) k)) \<and>
           (\<forall>k i. hm_get (steps g') (k, i) = (if k \<in> doomed ids dc g then None else hm_get (steps g) (k, i))) \<and>
           (\<forall>k i. hm_get (streams g') (k, i) = (if k \<in> doomed ids dc g then None else hm_get (streams g) (k, i))) \<and>
           notifications g' = filter (\<lambda>n. nr_destination_id n \<notin> doomed ids dc g) (notifications g) \<and>
           events g' = events g"
proof -
  obtain ts where ts: "set ts = doomed ids dc g" "delete_workflows ids dc g = (Inr (), fold delete_one ts g)"
    using delete_workflows_eq by blast
  show ?thesis
    using store_wfD(1,3,5) [OF assms]
    by (auto simp: ts(2) fold_delete_one hm_get_retain option_filter_def ts(1) split: option.splits)
qed

theorem delete_workflows_exact_witness:
  "\<exists>g'. delete_workflows [''a''] True wit_store = (Inr (), g') \<and> hm_get (workflows g') ''a'' = None"
  using delete_workflows_exact [OF wit_store_wf, of "[''a'']" True]
  by (auto simp: doomed_def)

lemma store_wf_delete:
  assumes "store_wf g"
  shows "store_wf (snd (delete_workflows ids dc g))"
proof -
  have "store_wf (fold delete_one ts g)" if "store_wf g" for ts g
    using that by (simp add: fold_delete_one store_wf_def)
  then show ?thesis using delete_workflows_eq [of ids dc g] assms by auto
qed

section \<open>Cancel, resume and recovery\<close>

lemma admin_row_ids [simp]:
  "ws_id (cancel_row now w) = ws_id w" "ws_id (resume_row now w) = ws_id w"
  "ws_id (bump_row mx now w) = ws_id w"
  by (simp_all add: cancel_row_def resume_row_def bump_row_def Let_def)

lemma admin_row_slots:
  "holds_slot q d (cancel_row now w) \<Longrightarrow> holds_slot q d w"
  "holds_slot q d (resume_row now w) \<Longrightarrow> holds_slot q d w"
  "holds_slot q d (bump_row mx now w) \<Longrightarrow> holds_slot q d w"
  by (auto simp: holds_slot_def cancel_row_def resume_row_def bump_row_def Let_def split: if_splits)

lemma store_wf_admin:
  assumes "store_wf g"
  shows "store_wf (snd (cancel_workflow wid now g))"
    and "store_wf (snd (resume_workflow wid now g))"
    and "store_wf (snd (enqueue_existing wid queue now g))"
    and "store_wf (snd (set_workflow_delay wid d now g))"
    and "store_wf (snd (bump_recovery_attempts wid mx now g))"
  using assms
  by (simp_all add: cancel_workflow_def resume_workflow_def enqueue_existing_def
      set_workflow_delay_def bump_recovery_attempts_def store_wf_update_row split: option.splits)

lemma store_wf_cancel_workflows: "store_wf g \<Longrightarrow> store_wf (snd (cancel_workflows ids now g))"
proof -
  have "store_wf g \<Longrightarrow> store_wf (fold (\<lambda>wid. update_row wid (cancel_row now)) ids g)" for g
    by (induction ids arbitrary: g) (simp_all add: store_wf_update_row)
  then show "store_wf g \<Longrightarrow> ?thesis" by (simp add: cancel_workflows_def)
qed

lemma store_wf_resume_loop: "store_wf g \<Longrightarrow> store_wf (snd (resume_loop ids now g))"
  by (induction ids arbitrary: g)
    (auto simp: store_wf_update_row case_prod_unfold Let_def split: option.splits)

lemma dedup_unique_admin:
  assumes "dedup_unique g"
  shows "dedup_unique (snd (cancel_workflow wid now g))"
    and "dedup_unique (snd (resume_workflow wid now g))"
    and "dedup_unique (snd (bump_recovery_attempts wid mx now g))"
  using assms dedup_unique_update_row [OF assms admin_row_slots(1)]
    dedup_unique_update_row [OF assms admin_row_slots(2)]
    dedup_unique_update_row [OF assms admin_row_slots(3)]
  by (simp_all add: cancel_workflow_def resume_workflow_def bump_recovery_attempts_def split: option.splits)

text \<open>
  Cancellation is final until an explicit resume: a non-terminal workflow becomes CANCELLED,
  leaves its queue and frees its deduplication slot, so that no claim takes it and no completion
  overwrites it; a terminal workflow is not changed at all; and resuming the cancelled workflow makes
  it PENDING with a fresh recovery count and no deadline.
\<close>

theorem cancel_then_resume:
  assumes "hm_get (workflows g) wid = Some row"
  shows "\<exists>row1. hm_get (workflows (snd (cancel_workflow wid now g))) wid = Some row1 \<and>
           (if is_terminal (ws_status row) then row1 = row
            else ws_status row1 = STATUS_CANCELLED \<and> ws_queue_name row1 = None \<and> ws_dedup_id row1 = None \<and>
              (\<forall>req. \<not> claimable req (snd (cancel_workflow wid now g)) row1) \<and>
              (\<forall>out err t. fst (set_workflow_status wid STATUS_SUCCESS out err t
                 (snd (cancel_workflow wid now g))) = Inl (Cancelled wid)) \<and>
              fst (resume_workflow wid now' (snd (cancel_workflow wid now g))) = Inr True \<and>
              (\<exists>row2. hm_get (workflows (snd (resume_workflow wid now' (snd (cancel_workflow wid now g))))) wid
                 = Some row2 \<and> ws_status row2 = STATUS_PENDING \<and> ws_recovery_attempts row2 = 0 \<and>
                   ws_deadline_ms row2 = None \<and> ws_completed_at_ms row2 = None \<and>
                   ws_input row2 = ws_input row))"
  using assms
  by (auto simp: cancel_workflow_def cancel_row_def claimable_def set_workflow_status_def
      resume_workflow_def resumable_def resume_row_def)

theorem cancel_then_resume_witness:
  "fst (resume_workflow ''a'' 9 (snd (cancel_workflow ''a'' 5 wit_store))) = Inr True"
proof -
  have "hm_get (workflows wit_store) ''a'' = Some (wit_queued ''a'' 2)"
    "\<not> is_terminal (ws_status (wit_queued ''a'' 2))"
    by (simp_all add: wit_store_def wit_queued_def insert_workflow_status_def dedup_conflict_def
        workflow_status_new_def inner_default_def)
  with cancel_then_resume [OF this(1), of 5 9] show ?thesis by auto
qed

text \<open>
  C35. The recovery counter parks a workflow exactly past the cap: starting from \<open>n\<close> recorded attempts,
  a bump returns \<open>n + 1\<close>; up to the cap the status is unchanged, above it the workflow is
  MAX_RECOVERY_ATTEMPTS_EXCEEDED and has given back its deduplication slot. A workflow parked this way
  is refused by resume, which reports that nothing was resumed and leaves the store unchanged.
\<close>

theorem recovery_cap_parks:
  assumes "hm_get (workflows g) wid = Some row" "0 \<le> ws_recovery_attempts row"
    and "ws_recovery_attempts row < i32_max"
  shows "\<exists>g' row'. bump_recovery_attempts wid mx now g = (Inr (ws_recovery_attempts row + 1), g') \<and>
           hm_get (workflows g') wid = Some row' \<and> ws_recovery_attempts row' = ws_recovery_attempts row + 1 \<and>
           (if ws_recovery_attempts row < mx then ws_status row' = ws_status row
            else ws_status row' = STATUS_MAX_RECOVERY_ATTEMPTS_EXCEEDED \<and> ws_dedup_id row' = None \<and>
              resume_workflow wid now' g' = (Inr False, g'))"
proof -
  have "i32_wrap (ws_recovery_attempts row + 1) = ws_recovery_attempts row + 1"
    using assms(2,3) by (intro i32_wrap_id) (simp_all add: i32_min_def i32_max_def)
  then show ?thesis
    using assms(1)
    by (auto simp: bump_recovery_attempts_def bump_row_def Let_def resume_workflow_def resumable_def)
qed

theorem recovery_cap_parks_witness:
  "\<exists>g'. bump_recovery_attempts ''a'' 0 5 wit_store = (Inr 1, g') \<and>
     resume_workflow ''a'' 9 g' = (Inr False, g')"
proof -
  have "hm_get (workflows wit_store) ''a'' = Some (wit_queued ''a'' 2)"
    "ws_recovery_attempts (wit_queued ''a'' 2) = 0"
    by (simp_all add: wit_store_def wit_queued_def insert_workflow_status_def dedup_conflict_def
        workflow_status_new_def inner_default_def)
  with recovery_cap_parks [OF this(1), of 0 5 9] show ?thesis by (auto simp: i32_max_def)
qed

section \<open>Forks\<close>

lemma hm_get_fold_insert:
  "distinct (map fst xs) \<Longrightarrow>
     hm_get (fold (\<lambda>(seq, v). hm_insert (n, seq) v) xs m) k =
       (case (if fst k = n then map_of xs (snd k) else None) of Some v \<Rightarrow> Some v | None \<Rightarrow> hm_get m k)"
proof (induction xs arbitrary: m)
  case (Cons x xs)
  obtain a b where x: "x = (a, b)" by (cases x)
  have "a \<notin> fst ` set xs" using Cons.prems by (simp add: x)
  then have "map_of xs a = None" by (simp add: map_of_eq_None_iff)
  then show ?case using Cons by (cases k) (auto simp: x split: option.splits)
qed (simp split: option.splits)

definition copied_steps :: "fork_params \<Rightarrow> inner \<Rightarrow> (int \<times> step_row) list" where
  "copied_steps params g =
     map (\<lambda>((_, seq), v). (seq, v))
       (filter (\<lambda>((wid, seq), _). wid = fp_original_id params \<and> seq < fp_start_step params) (steps g))"

lemma copied_steps_spec:
  assumes "hm_wf (steps g)"
  shows "distinct (map fst (copied_steps params g))"
    and "map_of (copied_steps params g) seq =
           (if seq < fp_start_step params then hm_get (steps g) (fp_original_id params, seq) else None)"
proof -
  let ?L = "filter (\<lambda>((wid, seq), _). wid = fp_original_id params \<and> seq < fp_start_step params) (steps g)"
  have "distinct (map fst ?L)" using assms by (auto simp: hm_wf_def hm_keys_def intro: distinct_map_filter)
  then have "distinct (map (snd \<circ> fst) ?L)"
    by (auto simp: distinct_map inj_on_def split: prod.splits)
  then show d: "distinct (map fst (copied_steps params g))"
    by (simp add: copied_steps_def case_prod_unfold o_def)
  have "map_of (copied_steps params g) seq = Some v \<longleftrightarrow>
      seq < fp_start_step params \<and> hm_get (steps g) (fp_original_id params, seq) = Some v" for v
    using d assms by (force simp: map_of_eq_Some_iff copied_steps_def hm_in_iff image_iff)
  then show "map_of (copied_steps params g) seq =
      (if seq < fp_start_step params then hm_get (steps g) (fp_original_id params, seq) else None)"
    by (metis not_None_eq)
qed

text \<open>
  A fork starts from exactly the checkpoints below its start step: under a new id, the fork is
  ENQUEUED with the original's name and input, its recorded steps are the original's with a smaller
  step number and nothing else, and the original and every other workflow keep their rows and steps.
\<close>

theorem fork_copies_prefix:
  assumes "store_wf g" "hm_get (workflows g) (fp_original_id p) = Some original"
    and "fp_new_id p \<noteq> fp_original_id p" "\<forall>seq. hm_get (steps g) (fp_new_id p, seq) = None"
  shows "\<exists>g'. fork_workflow p now g = (Inr (), g') \<and>
           hm_get (workflows g') (fp_new_id p) = Some (forked_row p original now) \<and>
           (\<forall>seq. hm_get (steps g') (fp_new_id p, seq) =
              (if seq < fp_start_step p then hm_get (steps g) (fp_original_id p, seq) else None)) \<and>
           (\<forall>k. k \<noteq> fp_new_id p \<longrightarrow> hm_get (workflows g') k = hm_get (workflows g) k \<and>
              (\<forall>seq. hm_get (steps g') (k, seq) = hm_get (steps g) (k, seq)))"
proof -
  note c = copied_steps_spec [OF store_wfD(3) [OF assms(1)], of p]
  have "fork_workflow p now g = (Inr (), g \<lparr>
      workflows := hm_insert (fp_new_id p) (forked_row p original now) (workflows g),
      steps := fold (\<lambda>(seq, v). hm_insert (fp_new_id p, seq) v) (copied_steps p g) (steps g) \<rparr>)"
    using assms(2) by (simp add: fork_workflow_def copied_steps_def Let_def)
  then show ?thesis
    using assms(4) by (simp add: hm_get_fold_insert [OF c(1)] c(2) split: option.splits)
qed

definition wit_fork :: fork_params where
  "wit_fork = \<lparr> fp_original_id = ''a'', fp_new_id = ''z'', fp_start_step = 1, fp_app_version = None,
                fp_queue_name = ''q'', fp_partition_key = None \<rparr>"

theorem fork_copies_prefix_witness:
  "\<exists>g'. fork_workflow wit_fork 7
          (snd (record_step_result ''a'' 0 ''s'' (JInt 1) None None 6 wit_store)) = (Inr (), g') \<and>
     (\<exists>r. hm_get (steps g') (''z'', 0) = Some r \<and> sr_output r = Some (JInt 1))"
proof -
  let ?g = "snd (record_step_result ''a'' 0 ''s'' (JInt 1) None None 6 wit_store)"
  have g: "steps wit_store = []" "hm_get (workflows wit_store) ''a'' = Some (wit_queued ''a'' 2)"
    by (simp_all add: wit_store_def wit_queued_def insert_workflow_status_def dedup_conflict_def
        workflow_status_new_def inner_default_def)
  have wf: "store_wf ?g" by (rule store_wf_record_step_result [OF wit_store_wf])
  have "hm_get (workflows ?g) (fp_original_id wit_fork) = Some (wit_queued ''a'' 2)"
    "\<forall>seq. hm_get (steps ?g) (fp_new_id wit_fork, seq) = None"
    "\<exists>r. hm_get (steps ?g) (''a'', 0) = Some r \<and> sr_output r = Some (JInt 1)"
    "fp_new_id wit_fork \<noteq> fp_original_id wit_fork"
    using g by (simp_all add: record_step_result_def step_or_insert_def wit_fork_def hm_get_def
        hm_or_insert_def hm_contains_def)
  with fork_copies_prefix [OF wf this(1,4,2), of 7] show ?thesis
    by (auto simp: wit_fork_def)
qed

lemma hm_wf_fold_insert: "hm_wf m \<Longrightarrow> hm_wf (fold (\<lambda>(seq, v). hm_insert (n, seq) v) xs m)"
  by (induction xs arbitrary: m) auto

lemma forked_row_fields [simp]:
  "ws_id (forked_row p w now) = fp_new_id p" "ws_dedup_id (forked_row p w now) = None"
  by (simp_all add: forked_row_def workflow_status_new_def)

lemma store_wf_fork: "store_wf g \<Longrightarrow> store_wf (snd (fork_workflow p now g))"
  by (simp add: fork_workflow_def Let_def store_wf_tables store_wfD hm_wf_fold_insert split: option.splits)

lemma dedup_unique_fork: "dedup_unique g \<Longrightarrow> dedup_unique (snd (fork_workflow p now g))"
proof -
  have "\<not> holds_slot q d (forked_row p w now)" for q d w by (simp add: holds_slot_def)
  then show "dedup_unique g \<Longrightarrow> ?thesis"
    unfolding fork_workflow_def Let_def dedup_unique_def by (simp split: option.splits)
qed

end
