(* ===== verification/Memory_Registry.thy ===== *)
theory Memory_Registry
  imports Memory_Admin
begin

text \<open>
  The registries of the in-memory provider (\<open>src/src/memory.rs\<close>): cron schedules, application
  versions and queues.
\<close>

section \<open>Schedules\<close>

definition create_schedule :: "workflow_schedule \<Rightarrow> (inner, unit) op" where
  "create_schedule schedule g =
     (if hm_contains (schedules g) (sch_schedule_name schedule)
      then (Inl (app (''schedule `'' @ sch_schedule_name schedule @ ''` already exists'')), g)
      else (Inr (), g \<lparr> schedules := hm_insert (sch_schedule_name schedule) schedule (schedules g) \<rparr>))"

definition apply_schedules :: "workflow_schedule list \<Rightarrow> (inner, unit) op" where
  "apply_schedules ss g =
     (Inr (), g \<lparr> schedules := fold (\<lambda>s. hm_insert (sch_schedule_name s) s) ss (schedules g) \<rparr>)"

definition list_schedules :: "schedule_filter \<Rightarrow> (inner, workflow_schedule list) op" where
  "list_schedules f g =
     (Inr (sort_key sch_schedule_name (filter (schedule_matches f) (hm_values (schedules g)))), g)"

definition set_schedule_status :: "string \<Rightarrow> schedule_status \<Rightarrow> (inner, bool) op" where
  "set_schedule_status name status g =
     (if hm_contains (schedules g) name
      then (Inr True, g \<lparr> schedules := hm_modify name (\<lambda>s. s \<lparr> sch_status := status \<rparr>) (schedules g) \<rparr>)
      else (Inr False, g))"

definition set_schedule_last_fired ::
    "(int \<Rightarrow> datetime option) \<Rightarrow> string \<Rightarrow> int \<Rightarrow> (inner, unit) op" where
  "set_schedule_last_fired from_ms name at_ms g =
     (Inr (), g \<lparr> schedules :=
        hm_modify name (\<lambda>s. s \<lparr> sch_last_fired_at := from_ms at_ms \<rparr>) (schedules g) \<rparr>)"

definition delete_schedule :: "string \<Rightarrow> (inner, bool) op" where
  "delete_schedule name g =
     (Inr (hm_contains (schedules g) name), g \<lparr> schedules := hm_remove name (schedules g) \<rparr>)"

section \<open>Application versions\<close>

definition create_application_version :: "string \<Rightarrow> string \<Rightarrow> datetime \<Rightarrow> (inner, unit) op" where
  "create_application_version version_name fresh now g =
     (Inr (), g \<lparr> versions := hm_or_insert version_name
        \<lparr> vi_version_id = fresh, vi_version_name = version_name, vi_version_timestamp = now,
          vi_created_at = now \<rparr> (versions g) \<rparr>)"

definition list_application_versions :: "(inner, version_info list) op" where
  "list_application_versions g =
     (Inr (sort_key (\<lambda>v. - vi_version_timestamp v) (hm_values (versions g))), g)"

definition get_latest_application_version :: "(inner, version_info option) op" where
  "get_latest_application_version g =
     (Inr (max_by_key vi_version_timestamp (hm_values (versions g))), g)"

definition set_latest_application_version :: "string \<Rightarrow> datetime \<Rightarrow> (inner, bool) op" where
  "set_latest_application_version version_name now g =
     (if hm_contains (versions g) version_name
      then (Inr True, g \<lparr> versions :=
              hm_modify version_name (\<lambda>v. v \<lparr> vi_version_timestamp := now \<rparr>) (versions g) \<rparr>)
      else (Inr False, g))"

section \<open>Queues\<close>

definition upsert_queue :: "workflow_queue \<Rightarrow> bool \<Rightarrow> (inner, unit) op" where
  "upsert_queue queue update_existing g =
     (Inr (), if update_existing \<or> \<not> hm_contains (queues g) (q_name queue)
              then g \<lparr> queues := hm_insert (q_name queue) queue (queues g) \<rparr> else g)"

definition list_queues :: "(inner, workflow_queue list) op" where
  "list_queues g = (Inr (sort_key q_name (hm_values (queues g))), g)"

section \<open>Invariants\<close>

lemma fold_schedules:
  "hm_wf m \<Longrightarrow> rows_keyed sch_schedule_name m \<Longrightarrow>
     hm_wf (fold (\<lambda>s. hm_insert (sch_schedule_name s) s) ss m) \<and>
     rows_keyed sch_schedule_name (fold (\<lambda>s. hm_insert (sch_schedule_name s) s) ss m)"
  by (induction ss arbitrary: m) auto

lemma store_wf_registry:
  assumes "store_wf g"
  shows "store_wf (snd (create_schedule s g))"
    and "store_wf (snd (apply_schedules ss g))"
    and "store_wf (snd (set_schedule_status name status g))"
    and "store_wf (snd (set_schedule_last_fired from_ms name at_ms g))"
    and "store_wf (snd (delete_schedule name g))"
    and "store_wf (snd (create_application_version name u now g))"
    and "store_wf (snd (set_latest_application_version name now g))"
    and "store_wf (snd (upsert_queue q b g))"
  using assms fold_schedules [OF store_wfD(6,7) [OF assms]]
  by (simp_all add: create_schedule_def apply_schedules_def set_schedule_status_def
      set_schedule_last_fired_def delete_schedule_def create_application_version_def
      set_latest_application_version_def upsert_queue_def store_wf_tables store_wfD)

lemma latest_version_max:
  assumes "store_wf g" "fst (get_latest_application_version g) = Inr (Some v)"
    and "hm_get (versions g) name = Some v'"
  shows "vi_version_timestamp v' \<le> vi_version_timestamp v"
  using assms(2) max_by_key_max [of vi_version_timestamp "hm_values (versions g)" v]
    hm_get_in_values [OF assms(3)]
  by (simp add: get_latest_application_version_def)

text \<open>
  Marking a version latest makes its executors, and only them, take unversioned work: if the
  version is registered and the clock is past every other version's mark, the latest version is the
  one marked, and a claim is enabled for unversioned rows exactly when its executor runs that version.
\<close>

theorem set_latest_routes_unversioned:
  assumes "store_wf g" "hm_contains (versions g) name"
    and "\<forall>v \<in> set (hm_values (versions g)). vi_version_timestamp v < now"
  shows "\<exists>g'. set_latest_application_version name now g = (Inr True, g') \<and>
           (\<exists>v. fst (get_latest_application_version g') = Inr (Some v) \<and> vi_version_name v = name) \<and>
           (\<forall>req. is_latest_version req g' \<longleftrightarrow> dr_app_version req = name)"
proof -
  let ?g' = "g \<lparr> versions := hm_modify name (\<lambda>v. v \<lparr> vi_version_timestamp := now \<rparr>) (versions g) \<rparr>"
  have set: "set_latest_application_version name now g = (Inr True, ?g')"
    using assms(2) by (simp add: set_latest_application_version_def)
  have wf: "store_wf ?g'" using store_wf_registry(7) [OF assms(1), of name now] set by simp
  obtain v0 where v0: "hm_get (versions ?g') name = Some v0" "vi_version_timestamp v0 = now"
    using assms(2) by (auto simp: hm_contains_def)
  have "hm_values (versions ?g') \<noteq> []" using hm_get_in_values [OF v0(1)] by force
  then obtain v where v: "max_by_key vi_version_timestamp (hm_values (versions ?g')) = Some v"
    by (metis max_by_key_None not_None_eq)
  from max_by_key_max [OF v] v0 have "v \<in> set (hm_values (versions ?g'))" "now \<le> vi_version_timestamp v"
    using hm_get_in_values [OF v0(1)] by auto
  moreover from this(1) obtain k where k: "hm_get (versions ?g') k = Some v"
    using hm_values_iff [OF store_wfD(8) [OF wf]] by blast
  moreover have "vi_version_timestamp v < now" if "k \<noteq> name"
    using k that assms(3) by (auto dest: hm_get_in_values)
  ultimately have "k = name" by force
  then have "vi_version_name v = name" using rows_keyedD [OF store_wfD(9) [OF wf] k] by simp
  with v set show ?thesis
    by (auto simp: get_latest_application_version_def is_latest_version_def)
qed

theorem set_latest_routes_unversioned_witness:
  "let g = snd (create_application_version ''2'' ''u2'' 20
             (snd (create_application_version ''1'' ''u1'' 10 inner_default)))
   in \<exists>g'. set_latest_application_version ''1'' 30 g = (Inr True, g') \<and>
        (\<forall>req. is_latest_version req g' \<longleftrightarrow> dr_app_version req = ''1'')"
proof -
  let ?g = "snd (create_application_version ''2'' ''u2'' 20
             (snd (create_application_version ''1'' ''u1'' 10 inner_default)))"
  have "store_wf ?g" by (intro store_wf_registry store_wf_default)
  moreover have "hm_contains (versions ?g) ''1''"
    "\<forall>v \<in> set (hm_values (versions ?g)). vi_version_timestamp v < 30"
    by (simp_all add: create_application_version_def inner_default_def hm_or_insert_def hm_contains_def
        hm_values_def hm_get_def)
  ultimately show ?thesis using set_latest_routes_unversioned [of ?g "''1''" 30] by (auto simp: Let_def)
qed

end
