(* ===== verification/Memory_Listing.thy ===== *)
theory Memory_Listing
  imports Memory_Registry "HOL-Library.Option_ord"
begin

text \<open>
  Listing and aggregation of the in-memory provider (\<open>src/src/memory.rs\<close>): the filter, the order and
  the pages of \<open>list_workflows\<close>, and the grouped counts of the two aggregate queries.
\<close>

section \<open>Listing workflows\<close>

definition any_of :: "'a list \<Rightarrow> 'a \<Rightarrow> bool" where
  "any_of xs x \<longleftrightarrow> xs = [] \<or> x \<in> set xs"

definition any_of_opt :: "'a list \<Rightarrow> 'a option \<Rightarrow> bool" where
  "any_of_opt xs x \<longleftrightarrow> xs = [] \<or> is_some_and (\<lambda>y. y \<in> set xs) x"

definition fork_sources :: "inner \<Rightarrow> string list" where
  "fork_sources g = List.map_filter ws_forked_from (hm_values (workflows g))"

definition filter_matches :: "list_filter \<Rightarrow> string list \<Rightarrow> workflow_status \<Rightarrow> bool" where
  "filter_matches f sources w \<longleftrightarrow>
     any_of (lf_workflow_ids f) (ws_id w) \<and>
     (lf_workflow_id_prefix f = [] \<or>
      list_ex (\<lambda>p. starts_with (ws_id w) p) (lf_workflow_id_prefix f)) \<and>
     any_of (lf_name f) (ws_name w) \<and>
     any_of (lf_status f) (ws_status w) \<and>
     any_of_opt (lf_queue_name f) (ws_queue_name w) \<and>
     any_of (lf_app_version f) (ws_app_version w) \<and>
     any_of (lf_executor_ids f) (ws_executor_id w) \<and>
     any_of_opt (lf_authenticated_users f) (ws_authenticated_user w) \<and>
     any_of_opt (lf_forked_from f) (ws_forked_from w) \<and>
     any_of_opt (lf_parent_workflow_ids f) (ws_parent_workflow_id w) \<and>
     is_none_or (\<lambda>wf. (ws_id w \<in> set sources) = wf) (lf_was_forked_from f) \<and>
     is_none_or (\<lambda>t. timestamp_millis (ws_created_at w) \<ge> t) (lf_start_time_ms f) \<and>
     is_none_or (\<lambda>t. timestamp_millis (ws_created_at w) \<le> t) (lf_end_time_ms f) \<and>
     is_none_or (\<lambda>t. is_some_and (\<lambda>c. c \<ge> t) (ws_completed_at_ms w)) (lf_completed_after_ms f) \<and>
     is_none_or (\<lambda>t. is_some_and (\<lambda>c. c \<le> t) (ws_completed_at_ms w)) (lf_completed_before_ms f) \<and>
     is_none_or (\<lambda>t. is_some_and (\<lambda>s. s \<ge> t) (ws_started_at_ms w)) (lf_dequeued_after_ms f) \<and>
     is_none_or (\<lambda>t. is_some_and (\<lambda>s. s \<le> t) (ws_started_at_ms w)) (lf_dequeued_before_ms f) \<and>
     is_none_or (\<lambda>hp. (ws_parent_workflow_id w \<noteq> None) = hp) (lf_has_parent f) \<and>
     (\<not> lf_queues_only f \<or> ws_queue_name w \<noteq> None)"

definition matching_rows :: "list_filter \<Rightarrow> inner \<Rightarrow> workflow_status list" where
  "matching_rows f g =
     filter (filter_matches f (if lf_was_forked_from f = None then [] else fork_sources g))
       (hm_values (workflows g))"

definition strip_row :: "list_filter \<Rightarrow> workflow_status \<Rightarrow> workflow_status" where
  "strip_row f w =
     (let w1 = (if lf_load_input f then w else w \<lparr> ws_input := JNull \<rparr>)
      in if lf_load_output f then w1 else w1 \<lparr> ws_output := None \<rparr>)"

definition list_workflows :: "list_filter \<Rightarrow> (inner, workflow_status list) op" where
  "list_workflows f g =
     (let rows = sort_key ws_created_at (matching_rows f g);
          rows = (if lf_sort_desc f then rev rows else rows);
          rows = (case lf_offset f of
                    Some off \<Rightarrow> drop (min (nat (max off 0)) (length rows)) rows
                  | None \<Rightarrow> rows);
          rows = (case lf_limit f of
                    Some lim \<Rightarrow> take (nat (max lim 0)) rows
                  | None \<Rightarrow> rows);
          rows = (if \<not> lf_load_input f \<or> \<not> lf_load_output f then map (strip_row f) rows else rows)
      in (Inr rows, g))"

section \<open>Aggregates\<close>

type_synonym group_key = "(string \<times> string option) list"

record agg_acc =
  ac_count :: int
  ac_min_created :: "int option"
  ac_max_queue_wait :: "int option"
  ac_max_total_latency :: "int option"

definition agg_acc_default :: agg_acc where
  "agg_acc_default =
     \<lparr> ac_count = 0, ac_min_created = None, ac_max_queue_wait = None, ac_max_total_latency = None \<rparr>"

definition wq_matches :: "workflow_aggregate_query \<Rightarrow> workflow_status \<Rightarrow> bool" where
  "wq_matches q w \<longleftrightarrow>
     (let created = timestamp_millis (ws_created_at w) in
      any_of (wq_status q) (ws_status w) \<and>
      any_of (wq_name q) (ws_name w) \<and>
      any_of (wq_app_version q) (ws_app_version w) \<and>
      any_of (wq_executor_ids q) (ws_executor_id w) \<and>
      (wq_queue_names q = [] \<or> list_ex (\<lambda>n. ws_queue_name w = Some n) (wq_queue_names q)) \<and>
      \<not> is_some_and (\<lambda>p. \<not> starts_with (ws_id w) p) (wq_workflow_id_prefix q) \<and>
      \<not> is_some_and (\<lambda>t. created < t) (wq_start_time_ms q) \<and>
      \<not> is_some_and (\<lambda>t. created > t) (wq_end_time_ms q) \<and>
      \<not> is_some_and (\<lambda>t. is_none_or (\<lambda>c. c < t) (ws_completed_at_ms w)) (wq_completed_after_ms q) \<and>
      \<not> is_some_and (\<lambda>t. is_none_or (\<lambda>c. c > t) (ws_completed_at_ms w)) (wq_completed_before_ms q) \<and>
      \<not> is_some_and (\<lambda>t. is_none_or (\<lambda>d. d < t) (ws_started_at_ms w)) (wq_dequeued_after_ms q) \<and>
      \<not> is_some_and (\<lambda>t. is_none_or (\<lambda>d. d > t) (ws_started_at_ms w)) (wq_dequeued_before_ms q))"

definition wq_dim_value :: "workflow_status \<Rightarrow> string \<Rightarrow> string option" where
  "wq_dim_value w dim =
     (if dim = ''status'' then Some (ws_status w)
      else if dim = ''name'' then Some (ws_name w)
      else if dim = ''queue_name'' then ws_queue_name w
      else if dim = ''executor_id'' then Some (ws_executor_id w)
      else if dim = ''application_version'' then Some (ws_app_version w)
      else None)"

definition wq_group_key :: "workflow_aggregate_query \<Rightarrow> workflow_status \<Rightarrow> group_key" where
  "wq_group_key q w =
     map (\<lambda>(dim, _). (dim, wq_dim_value w dim)) (enabled_columns q)
     @ (case option_filter (\<lambda>b. b > 0) (wq_time_bucket_ms q) of
          Some bucket \<Rightarrow>
            [(''time_bucket'',
              Some (int_to_string (tdiv (timestamp_millis (ws_created_at w)) bucket * bucket)))]
        | None \<Rightarrow> [])"

definition max_opt :: "int option \<Rightarrow> int \<Rightarrow> int" where
  "max_opt m x = (case m of None \<Rightarrow> x | Some y \<Rightarrow> max y x)"

definition min_opt :: "int option \<Rightarrow> int \<Rightarrow> int" where
  "min_opt m x = (case m of None \<Rightarrow> x | Some y \<Rightarrow> min y x)"

definition wq_accumulate :: "workflow_status \<Rightarrow> agg_acc \<Rightarrow> agg_acc" where
  "wq_accumulate w acc =
     (let created = timestamp_millis (ws_created_at w);
          a1 = acc \<lparr> ac_count := ac_count acc + 1,
                     ac_min_created := Some (min_opt (ac_min_created acc) created) \<rparr>;
          a2 = (case map_option (\<lambda>s. s - created) (ws_started_at_ms w) of
                  Some qw \<Rightarrow> a1 \<lparr> ac_max_queue_wait := Some (max_opt (ac_max_queue_wait a1) qw) \<rparr>
                | None \<Rightarrow> a1)
      in (case map_option (\<lambda>c. c - created) (ws_completed_at_ms w) of
            Some lat \<Rightarrow> a2 \<lparr> ac_max_total_latency := Some (max_opt (ac_max_total_latency a2) lat) \<rparr>
          | None \<Rightarrow> a2))"

definition then_some :: "bool \<Rightarrow> 'a \<Rightarrow> 'a option" where
  "then_some b x = (if b then Some x else None)"

definition truncate_opt :: "int option \<Rightarrow> 'a list \<Rightarrow> 'a list" where
  "truncate_opt lim xs = (case lim of Some l \<Rightarrow> take (nat (max l 0)) xs | None \<Rightarrow> xs)"

definition get_workflow_aggregates ::
    "workflow_aggregate_query \<Rightarrow> (inner, workflow_aggregate list) op" where
  "get_workflow_aggregates q g =
     (let accs = group_fold (wq_group_key q) wq_accumulate agg_acc_default
                   (filter (wq_matches q) (hm_values (workflows g))) [];
          out = map (\<lambda>(k, acc).
                   \<lparr> wa_group = bt_of_list k,
                     wa_count = then_some (wq_select_count q) (ac_count acc),
                     wa_min_created_at = (if wq_select_min_created_at q then ac_min_created acc else None),
                     wa_max_queue_wait_ms =
                       (if wq_select_max_queue_wait_ms q then ac_max_queue_wait acc else None),
                     wa_max_total_latency_ms =
                       (if wq_select_max_total_latency_ms q then ac_max_total_latency acc else None) \<rparr>) accs
      in (Inr (truncate_opt (wq_limit q) (sort_key wa_group out)), g))"

definition sq_matches :: "step_aggregate_query \<Rightarrow> (string \<times> int) \<times> step_row \<Rightarrow> bool" where
  "sq_matches q x \<longleftrightarrow>
     (let wid = fst (fst x); row = snd x in
      any_of (sq_status q) ''SUCCESS'' \<and>
      any_of (sq_function_name q) (sr_name row) \<and>
      \<not> is_some_and (\<lambda>p. \<not> starts_with wid p) (sq_workflow_id_prefix q) \<and>
      \<not> is_some_and (\<lambda>t. is_none_or (\<lambda>c. c < t) (sr_completed_at_ms row)) (sq_completed_after_ms q) \<and>
      \<not> is_some_and (\<lambda>t. is_none_or (\<lambda>c. c > t) (sr_completed_at_ms row)) (sq_completed_before_ms q))"

definition sq_dim_value :: "step_row \<Rightarrow> string \<Rightarrow> string option" where
  "sq_dim_value row dim =
     (if dim = ''function_name'' then Some (sr_name row)
      else if dim = ''status'' then Some ''SUCCESS''
      else None)"

definition sq_group_key :: "step_aggregate_query \<Rightarrow> (string \<times> int) \<times> step_row \<Rightarrow> group_key" where
  "sq_group_key q x =
     map (\<lambda>(dim, _). (dim, sq_dim_value (snd x) dim)) (group_exprs q)
     @ (case option_filter (\<lambda>b. b > 0) (sq_time_bucket_ms q) of
          Some bucket \<Rightarrow>
            [(''time_bucket'',
              map_option (\<lambda>c. int_to_string (tdiv c bucket * bucket)) (sr_completed_at_ms (snd x)))]
        | None \<Rightarrow> [])"

definition sq_accumulate ::
    "(string \<times> int) \<times> step_row \<Rightarrow> int \<times> int option \<Rightarrow> int \<times> int option" where
  "sq_accumulate x acc =
     (fst acc + 1,
      case (sr_started_at_ms (snd x), sr_completed_at_ms (snd x)) of
        (Some st, Some en) \<Rightarrow> Some (max_opt (snd acc) (en - st))
      | _ \<Rightarrow> snd acc)"

definition get_step_aggregates :: "step_aggregate_query \<Rightarrow> (inner, step_aggregate list) op" where
  "get_step_aggregates q g =
     (let acc = group_fold (sq_group_key q) sq_accumulate (0, None) (filter (sq_matches q) (steps g)) [];
          out = map (\<lambda>(k, (count, max_dur)).
                   \<lparr> sa_group = bt_of_list k,
                     sa_count = then_some (sq_select_count q) count,
                     sa_max_duration_ms = (if sq_select_max_duration_ms q then max_dur else None) \<rparr>) acc
      in (Inr (truncate_opt (sq_limit q) (sort_key sa_group out)), g))"

section \<open>Properties of listing\<close>

lemma strip_row_fields [simp]:
  "ws_id (strip_row f w) = ws_id w" "ws_created_at (strip_row f w) = ws_created_at w"
  "ws_status (strip_row f w) = ws_status w"
  by (simp_all add: strip_row_def Let_def)

lemma strip_row_id: "lf_load_input f \<Longrightarrow> lf_load_output f \<Longrightarrow> strip_row f w = w"
  by (simp add: strip_row_def)

text \<open>The rows in listing order, before paging.\<close>

definition ordered_rows :: "list_filter \<Rightarrow> inner \<Rightarrow> workflow_status list" where
  "ordered_rows f g =
     (if lf_sort_desc f then rev (sort_key ws_created_at (matching_rows f g))
      else sort_key ws_created_at (matching_rows f g))"

lemma list_workflows_eq:
  "list_workflows f g =
     (Inr (map (strip_row f) (truncate_opt (lf_limit f)
        (drop (case lf_offset f of Some off \<Rightarrow> nat (max off 0) | None \<Rightarrow> 0) (ordered_rows f g)))), g)"
proof -
  have d: "drop (min n (length xs)) xs = drop n xs" for n and xs :: "workflow_status list"
    by (cases "n \<le> length xs") auto
  have s: "(if \<not> lf_load_input f \<or> \<not> lf_load_output f then map (strip_row f) xs else xs) = map (strip_row f) xs"
    for xs by (auto simp: strip_row_id map_idI)
  show ?thesis
    by (simp only: list_workflows_def Let_def s ordered_rows_def truncate_opt_def d)
      (auto simp: d split: option.splits)
qed

lemma matching_rows_iff:
  "store_wf g \<Longrightarrow> w \<in> set (matching_rows f g) \<longleftrightarrow>
     hm_get (workflows g) (ws_id w) = Some w \<and>
     filter_matches f (if lf_was_forked_from f = None then [] else fork_sources g) w"
  by (auto simp: matching_rows_def hm_values_iff store_wfD dest: row_id)

lemma ordered_rows_set [simp]: "set (ordered_rows f g) = set (matching_rows f g)"
  by (simp add: ordered_rows_def)

lemma ordered_rows_sorted:
  "sorted_wrt (\<lambda>a b. if lf_sort_desc f then ws_created_at b \<le> ws_created_at a
                      else ws_created_at a \<le> ws_created_at b) (ordered_rows f g)"
  using sorted_sort_key [of ws_created_at "matching_rows f g", unfolded sorted_map]
  by (cases "lf_sort_desc f") (simp_all add: ordered_rows_def sorted_wrt_rev)

lemma ordered_rows_distinct: "store_wf g \<Longrightarrow> distinct (map ws_id (ordered_rows f g))"
proof -
  assume "store_wf g"
  then have "distinct (map ws_id (matching_rows f g))"
    unfolding matching_rows_def by (intro distinct_map_filter distinct_ids)
  then show ?thesis by (auto simp: ordered_rows_def distinct_map)
qed

text \<open>
  Listing without a page returns every stored workflow that matches the filter, once, and no
  other, oldest first or newest first as asked; with an offset and a limit it returns the
  corresponding page of that list, so that consecutive pages put together are the whole list.
\<close>

theorem list_workflows_pages:
  assumes "store_wf g" "lf_limit f = None" "lf_offset f = None"
  shows "\<exists>rows. list_workflows f g = (Inr rows, g) \<and> distinct (map ws_id rows) \<and>
           (\<forall>k. k \<in> ws_id ` set rows \<longleftrightarrow> (\<exists>w. hm_get (workflows g) k = Some w \<and>
              filter_matches f (if lf_was_forked_from f = None then [] else fork_sources g) w)) \<and>
           sorted_wrt (\<lambda>a b. if lf_sort_desc f then ws_created_at b \<le> ws_created_at a
                              else ws_created_at a \<le> ws_created_at b) rows \<and>
           (\<forall>off lim. 0 \<le> off \<longrightarrow> 0 \<le> lim \<longrightarrow>
              list_workflows (f \<lparr> lf_offset := Some off, lf_limit := Some lim \<rparr>) g =
                (Inr (take (nat lim) (drop (nat off) rows)), g))"
proof -
  have all: "list_workflows f g = (Inr (map (strip_row f) (ordered_rows f g)), g)"
    using assms(2,3) by (simp add: list_workflows_eq truncate_opt_def)
  have fm: "filter_matches (f \<lparr> lf_offset := x, lf_limit := y \<rparr>) = filter_matches f" for x y
    by (simp add: fun_eq_iff filter_matches_def)
  have "ordered_rows (f \<lparr> lf_offset := x, lf_limit := y \<rparr>) g = ordered_rows f g"
    "strip_row (f \<lparr> lf_offset := x, lf_limit := y \<rparr>) = strip_row f" for x y
    by (simp_all add: ordered_rows_def matching_rows_def fm strip_row_def [abs_def])
  then have page: "list_workflows (f \<lparr> lf_offset := Some off, lf_limit := Some lim \<rparr>) g =
      (Inr (take (nat lim) (drop (nat off) (map (strip_row f) (ordered_rows f g)))), g)"
    if "0 \<le> off" "0 \<le> lim" for off lim
    using that by (simp add: list_workflows_eq truncate_opt_def take_map drop_map)
  have ids: "k \<in> ws_id ` set (map (strip_row f) (ordered_rows f g)) \<longleftrightarrow>
      (\<exists>w. hm_get (workflows g) k = Some w \<and>
         filter_matches f (if lf_was_forked_from f = None then [] else fork_sources g) w)" for k
    using row_id [OF assms(1)] by (force simp: matching_rows_iff [OF assms(1)] image_iff)
  have "sorted_wrt (\<lambda>a b. if lf_sort_desc f then ws_created_at b \<le> ws_created_at a
      else ws_created_at a \<le> ws_created_at b) (map (strip_row f) (ordered_rows f g))"
    unfolding sorted_wrt_map strip_row_fields by (rule ordered_rows_sorted)
  moreover have "distinct (map ws_id (map (strip_row f) (ordered_rows f g)))"
    using ordered_rows_distinct [OF assms(1), of f] by (simp add: o_def)
  ultimately show ?thesis
    using all page ids by (intro exI [of _ "map (strip_row f) (ordered_rows f g)"] conjI) blast+
qed

theorem list_workflows_pages_witness:
  "\<exists>rows. list_workflows list_filter_default wit_store = (Inr rows, wit_store) \<and>
     list_workflows (list_filter_default \<lparr> lf_offset := Some 1, lf_limit := Some 1 \<rparr>) wit_store =
       (Inr (take (nat 1) (drop (nat 1) rows)), wit_store)"
proof -
  have "lf_limit list_filter_default = None" "lf_offset list_filter_default = None"
    by (simp_all add: list_filter_default_def)
  from list_workflows_pages [OF wit_store_wf this] obtain rows where
    "list_workflows list_filter_default wit_store = (Inr rows, wit_store)"
    "\<forall>off lim. 0 \<le> off \<longrightarrow> 0 \<le> lim \<longrightarrow>
       list_workflows (list_filter_default \<lparr> lf_offset := Some off, lf_limit := Some lim \<rparr>) wit_store =
         (Inr (take (nat lim) (drop (nat off) rows)), wit_store)" by blast
  then show ?thesis by (meson zero_le_one)
qed

section \<open>Properties of the aggregates\<close>

lemma fold_wq_accumulate_count: "ac_count (fold wq_accumulate ws acc) = ac_count acc + int (length ws)"
proof -
  have "ac_count (wq_accumulate w acc) = ac_count acc + 1" for w acc
    by (simp add: wq_accumulate_def Let_def split: option.splits)
  then show ?thesis by (induction ws arbitrary: acc) simp_all
qed

lemma fold_wq_accumulate_min:
  "ws \<noteq> [] \<Longrightarrow> ac_min_created (fold wq_accumulate ws acc) =
     Some (fold (\<lambda>w m. min m (timestamp_millis (ws_created_at w))) (tl ws)
       (min_opt (ac_min_created acc) (timestamp_millis (ws_created_at (hd ws)))))"
proof -
  have m: "ac_min_created (wq_accumulate w acc) =
      Some (min_opt (ac_min_created acc) (timestamp_millis (ws_created_at w)))" for w acc
    by (simp add: wq_accumulate_def Let_def split: option.splits)
  have "ac_min_created acc = Some a \<Longrightarrow> ac_min_created (fold wq_accumulate ws acc) =
      Some (fold (\<lambda>w m. min m (timestamp_millis (ws_created_at w))) ws a)" for ws acc a
    by (induction ws arbitrary: acc a) (simp_all add: m min_opt_def)
  then show "ws \<noteq> [] \<Longrightarrow> ?thesis" by (cases ws) (simp_all add: m)
qed

lemma fold_min_bound:
  "fold (\<lambda>w m. min m (f w)) ws a \<in> insert a (f ` set ws) \<and>
   (\<forall>x \<in> insert a (f ` set ws). fold (\<lambda>w m. min m (f w)) ws a \<le> x)"
  for f :: "'w \<Rightarrow> int"
proof (induction ws arbitrary: a)
  case (Cons w ws)
  have "min a (f w) \<in> {a, f w}" by (simp add: min_def)
  with Cons.IH [of "min a (f w)"] show ?case by auto
qed simp

text \<open>The rows that a group of the answer stands for.\<close>

definition group_rows :: "workflow_aggregate_query \<Rightarrow> inner \<Rightarrow> group_key \<Rightarrow> workflow_status list" where
  "group_rows q g k =
     filter (\<lambda>w. wq_group_key q w = k) (filter (wq_matches q) (hm_values (workflows g)))"

lemma aggregates_accs:
  "(k, acc) \<in> set (group_fold (wq_group_key q) wq_accumulate agg_acc_default
      (filter (wq_matches q) (hm_values (workflows g))) []) \<longleftrightarrow>
   group_rows q g k \<noteq> [] \<and> acc = fold wq_accumulate (group_rows q g k) agg_acc_default"
proof -
  let ?rows = "filter (wq_matches q) (hm_values (workflows g))"
  let ?m = "group_fold (wq_group_key q) wq_accumulate agg_acc_default ?rows []"
  have "(k, acc) \<in> set ?m \<longleftrightarrow> hm_get ?m k = Some acc" by (intro hm_in_iff group_fold_wf) simp
  also have "\<dots> \<longleftrightarrow> group_rows q g k \<noteq> [] \<and> acc = fold wq_accumulate (group_rows q g k) agg_acc_default"
    unfolding group_fold_get group_rows_def [symmetric] by (cases "group_rows q g k = []") auto
  finally show ?thesis .
qed

text \<open>
  The workflow aggregates are exact: without a limit the answer has one entry for each group key
  that some matching workflow has and no other, in ascending order of the groups, and its count is the
  number of matching workflows with that key, its earliest creation time their minimum.
\<close>

theorem workflow_aggregates_exact:
  assumes "wq_limit q = None" "wq_select_count q" "wq_select_min_created_at q"
  shows "\<exists>out. get_workflow_aggregates q g = (Inr out, g) \<and> sorted (map wa_group out) \<and>
           (\<forall>a. a \<in> set out \<longrightarrow> (\<exists>k. wa_group a = bt_of_list k \<and> group_rows q g k \<noteq> [] \<and>
              wa_count a = Some (int (length (group_rows q g k))) \<and>
              (\<exists>m. wa_min_created_at a = Some m \<and>
                 m \<in> (timestamp_millis \<circ> ws_created_at) ` set (group_rows q g k) \<and>
                 (\<forall>w \<in> set (group_rows q g k). m \<le> timestamp_millis (ws_created_at w))))) \<and>
           (\<forall>k. group_rows q g k \<noteq> [] \<longrightarrow> (\<exists>a \<in> set out. wa_group a = bt_of_list k))"
proof -
  define mk :: "group_key \<times> agg_acc \<Rightarrow> workflow_aggregate" where "mk = (\<lambda>(k, acc). \<lparr> wa_group = bt_of_list k, wa_count = Some (ac_count acc),
    wa_min_created_at = ac_min_created acc,
    wa_max_queue_wait_ms = (if wq_select_max_queue_wait_ms q then ac_max_queue_wait acc else None),
    wa_max_total_latency_ms = (if wq_select_max_total_latency_ms q then ac_max_total_latency acc else None) \<rparr>)"
  let ?accs = "group_fold (wq_group_key q) wq_accumulate agg_acc_default
      (filter (wq_matches q) (hm_values (workflows g))) []"
  let ?out = "sort_key wa_group (map mk ?accs)"
  have out: "get_workflow_aggregates q g = (Inr ?out, g)"
    using assms by (simp add: get_workflow_aggregates_def truncate_opt_def then_some_def Let_def mk_def)
  have mem: "a \<in> set ?out \<longleftrightarrow>
      (\<exists>k. group_rows q g k \<noteq> [] \<and> a = mk (k, fold wq_accumulate (group_rows q g k) agg_acc_default))" for a
    unfolding set_sort set_map image_iff Bex_def split_paired_Ex aggregates_accs by blast
  have entry: "wa_group (mk (k, acc)) = bt_of_list k" "wa_count (mk (k, acc)) = Some (ac_count acc)"
    "wa_min_created_at (mk (k, acc)) = ac_min_created acc" for k acc by (simp_all add: mk_def)
  have min: "\<exists>m. ac_min_created (fold wq_accumulate ws agg_acc_default) = Some m \<and>
      m \<in> (timestamp_millis \<circ> ws_created_at) ` set ws \<and>
      (\<forall>w \<in> set ws. m \<le> timestamp_millis (ws_created_at w))" if "ws \<noteq> []" for ws
    using that fold_wq_accumulate_min [OF that, of agg_acc_default]
      fold_min_bound [of "timestamp_millis \<circ> ws_created_at" "tl ws" "timestamp_millis (ws_created_at (hd ws))"]
    by (cases ws) (auto simp: agg_acc_default_def min_opt_def o_def)
  have count: "ac_count (fold wq_accumulate ws agg_acc_default) = int (length ws)" for ws
    by (simp add: fold_wq_accumulate_count agg_acc_default_def)
  show ?thesis
  proof (intro exI [of _ ?out] conjI out sorted_sort_key allI impI)
    fix a assume "a \<in> set ?out"
    then obtain k where "group_rows q g k \<noteq> []"
      "a = mk (k, fold wq_accumulate (group_rows q g k) agg_acc_default)" unfolding mem by blast
    with min [OF this(1)] show "\<exists>k. wa_group a = bt_of_list k \<and> group_rows q g k \<noteq> [] \<and>
        wa_count a = Some (int (length (group_rows q g k))) \<and>
        (\<exists>m. wa_min_created_at a = Some m \<and>
           m \<in> (timestamp_millis \<circ> ws_created_at) ` set (group_rows q g k) \<and>
           (\<forall>w \<in> set (group_rows q g k). m \<le> timestamp_millis (ws_created_at w)))"
      by (intro exI [of _ k]) (simp add: entry count)
  next
    fix k assume "group_rows q g k \<noteq> []"
    then show "\<exists>a \<in> set ?out. wa_group a = bt_of_list k" using mem entry(1) by blast
  qed
qed

definition wit_query :: workflow_aggregate_query where
  "wit_query =
     \<lparr> wq_by_status = True, wq_by_name = False, wq_by_queue_name = False, wq_by_executor_id = False,
       wq_by_app_version = False, wq_select_count = True, wq_select_min_created_at = True,
       wq_select_max_queue_wait_ms = False, wq_select_max_total_latency_ms = False,
       wq_time_bucket_ms = None, wq_status = [], wq_name = [], wq_app_version = [],
       wq_executor_ids = [], wq_queue_names = [], wq_workflow_id_prefix = None,
       wq_start_time_ms = None, wq_end_time_ms = None, wq_completed_after_ms = None,
       wq_completed_before_ms = None, wq_dequeued_after_ms = None, wq_dequeued_before_ms = None,
       wq_limit = None \<rparr>"

theorem workflow_aggregates_exact_witness:
  "\<exists>out. get_workflow_aggregates wit_query wit_store = (Inr out, wit_store) \<and>
     (\<exists>a \<in> set out. wa_group a = bt_of_list [(''status'', Some STATUS_ENQUEUED)])"
proof -
  have "wq_limit wit_query = None" "wq_select_count wit_query" "wq_select_min_created_at wit_query"
    by (simp_all add: wit_query_def)
  moreover have "group_rows wit_query wit_store [(''status'', Some STATUS_ENQUEUED)] \<noteq> []" by code_simp
  ultimately show ?thesis using workflow_aggregates_exact [of wit_query wit_store] by blast
qed

end
