(* ===== verification/Memory_Export.thy ===== *)
theory Memory_Export
  imports Memory_Listing
begin

text \<open>
  Export and import of workflows by the in-memory provider (\<open>src/src/memory.rs\<close>): the portable rows
  and back. \<open>from_ms\<close> is \<open>DateTime::from_timestamp_millis\<close>; JSON texts are those of a
  \<open>codec_env\<close>. The walk over the children has no visited set, so it is a partial function; an import
  that would index a buffer with a negative offset panics (\<^const>\<open>None\<close>).
\<close>

section \<open>Portable rows\<close>

definition ms_to_dt :: "(int \<Rightarrow> datetime option) \<Rightarrow> datetime \<Rightarrow> int option \<Rightarrow> datetime" where
  "ms_to_dt from_ms now ms = unwrap_or (Option.bind ms from_ms) now"

definition payload_str :: "json_text \<Rightarrow> json \<Rightarrow> json" where
  "payload_str T v = JString (jt_to_string T v)"

definition opt_payload :: "json_text \<Rightarrow> json option \<Rightarrow> json" where
  "opt_payload T v = (case v of None \<Rightarrow> JNull | Some x \<Rightarrow> payload_str T x)"

definition status_to_map :: "json_text \<Rightarrow> workflow_status \<Rightarrow> json_map" where
  "status_to_map T w =
     [(''workflow_uuid'', json_str (ws_id w)),
      (''status'', json_str (ws_status w)),
      (''name'', json_str (ws_name w)),
      (''authenticated_user'', json_opt_str (ws_authenticated_user w)),
      (''assumed_role'', json_opt_str (ws_assumed_role w)),
      (''authenticated_roles'', json_opt_str (encode_roles T (ws_authenticated_roles w))),
      (''output'', opt_payload T (ws_output w)),
      (''error'', json_opt_str (ws_error w)),
      (''executor_id'', json_str (ws_executor_id w)),
      (''created_at'', JInt (timestamp_millis (ws_created_at w))),
      (''updated_at'', JInt (timestamp_millis (ws_updated_at w))),
      (''application_version'', json_str (ws_app_version w)),
      (''application_id'', JNull),
      (''class_name'', json_opt_str (ws_class_name w)),
      (''config_name'', json_opt_str (ws_config_name w)),
      (''recovery_attempts'', JInt (ws_recovery_attempts w)),
      (''queue_name'', json_opt_str (ws_queue_name w)),
      (''workflow_timeout_ms'', json_opt_int (ws_timeout_ms w)),
      (''workflow_deadline_epoch_ms'', json_opt_int (ws_deadline_ms w)),
      (''started_at_epoch_ms'', json_opt_int (ws_started_at_ms w)),
      (''deduplication_id'', json_opt_str (ws_dedup_id w)),
      (''inputs'', payload_str T (ws_input w)),
      (''priority'', JInt (ws_priority w)),
      (''queue_partition_key'', json_opt_str (ws_queue_partition_key w)),
      (''forked_from'', json_opt_str (ws_forked_from w)),
      (''parent_workflow_id'', json_opt_str (ws_parent_workflow_id w)),
      (''delay_until_epoch_ms'', json_opt_int (ws_delay_until_ms w)),
      (''serialization'', JNull)]"

definition map_to_status ::
    "codec_env \<Rightarrow> (int \<Rightarrow> datetime option) \<Rightarrow> datetime \<Rightarrow> datetime \<Rightarrow> json_map \<Rightarrow> workflow_status" where
  "map_to_status E from_ms now1 now2 s =
     (let T = ce_json E;
          (err, error_info) = decode_error_opt E (col_str s ''serialization'') (col_str s ''error'')
      in \<lparr> ws_id = unwrap_or (col_str s ''workflow_uuid'') [],
           ws_name = unwrap_or (col_str s ''name'') [],
           ws_status = unwrap_or (col_str s ''status'') [],
           ws_input = unwrap_or (Option.bind (col_str s ''inputs'') (from_str_ok T)) JNull,
           ws_output = Option.bind (col_str s ''output'') (from_str_ok T),
           ws_error = err,
           ws_error_info = error_info,
           ws_executor_id = unwrap_or (col_str s ''executor_id'') [],
           ws_app_version = unwrap_or (col_str s ''application_version'') [],
           ws_queue_name = col_str s ''queue_name'',
           ws_queue_partition_key = col_str s ''queue_partition_key'',
           ws_priority = i32_wrap (unwrap_or (col_i64 s ''priority'') 0),
           ws_dedup_id = col_str s ''deduplication_id'',
           ws_recovery_attempts = i32_wrap (unwrap_or (col_i64 s ''recovery_attempts'') 0),
           ws_parent_workflow_id = col_str s ''parent_workflow_id'',
           ws_timeout_ms = col_i64 s ''workflow_timeout_ms'',
           ws_deadline_ms = col_i64 s ''workflow_deadline_epoch_ms'',
           ws_started_at_ms = col_i64 s ''started_at_epoch_ms'',
           ws_rate_limited = False,
           ws_delay_until_ms = col_i64 s ''delay_until_epoch_ms'',
           ws_completed_at_ms = None,
           ws_forked_from = col_str s ''forked_from'',
           ws_authenticated_user = col_str s ''authenticated_user'',
           ws_assumed_role = col_str s ''assumed_role'',
           ws_authenticated_roles = decode_roles T (col_str s ''authenticated_roles''),
           ws_class_name = col_str s ''class_name'',
           ws_config_name = col_str s ''config_name'',
           ws_created_at = ms_to_dt from_ms now1 (col_i64 s ''created_at''),
           ws_updated_at = ms_to_dt from_ms now2 (col_i64 s ''updated_at'') \<rparr>)"

definition step_to_map :: "json_text \<Rightarrow> string \<Rightarrow> int \<Rightarrow> step_row \<Rightarrow> json_map" where
  "step_to_map T wf_id seq r =
     [(''workflow_uuid'', json_str wf_id),
      (''function_id'', JInt seq),
      (''function_name'', json_str (sr_name r)),
      (''output'', opt_payload T (sr_output r)),
      (''error'', json_opt_str (sr_error r)),
      (''child_workflow_id'', json_opt_str (sr_child_workflow_id r)),
      (''started_at_epoch_ms'', json_opt_int (sr_started_at_ms r)),
      (''completed_at_epoch_ms'', json_opt_int (sr_completed_at_ms r))]"

definition event_to_map :: "json_text \<Rightarrow> string \<Rightarrow> string \<Rightarrow> json \<Rightarrow> json_map" where
  "event_to_map T wf_id key v =
     [(''workflow_uuid'', json_str wf_id), (''key'', json_str key), (''value'', payload_str T v)]"

definition stream_to_map :: "json_text \<Rightarrow> string \<Rightarrow> string \<Rightarrow> int \<Rightarrow> json option \<Rightarrow> json_map" where
  "stream_to_map T wf_id key off entry =
     [(''workflow_uuid'', json_str wf_id), (''key'', json_str key),
      (''value'', (case entry of Some v \<Rightarrow> payload_str T v | None \<Rightarrow> json_str STREAM_CLOSED_SENTINEL)),
      (''offset'', JInt off), (''function_id'', JNull)]"

section \<open>Export\<close>

definition children_of :: "inner \<Rightarrow> string \<Rightarrow> string list" where
  "children_of g parent =
     sort (map ws_id (filter (\<lambda>w. ws_parent_workflow_id w = Some parent) (hm_values (workflows g))))"

partial_function (option) export_ids :: "inner \<Rightarrow> string list \<Rightarrow> string list \<Rightarrow> string list option" where
  "export_ids g queue ids =
     (if queue = [] then Some ids
      else let children = children_of g (last queue)
           in export_ids g (butlast queue @ children) (ids @ children))"

declare export_ids.simps [code]

definition workflow_steps :: "inner \<Rightarrow> string \<Rightarrow> (int \<times> step_row) list" where
  "workflow_steps g wid =
     sort_key fst (map (\<lambda>((_, seq), r). (seq, r)) (filter (\<lambda>((w, _), _). w = wid) (steps g)))"

definition workflow_event_rows :: "inner \<Rightarrow> string \<Rightarrow> (string \<times> json) list" where
  "workflow_event_rows g wid =
     sort_key fst (map (\<lambda>((_, k), v). (k, v)) (filter (\<lambda>((w, _), _). w = wid) (events g)))"

definition workflow_stream_rows :: "inner \<Rightarrow> string \<Rightarrow> (string \<times> json option list) list" where
  "workflow_stream_rows g wid =
     sort_key fst (map (\<lambda>((_, k), vs). (k, vs)) (filter (\<lambda>((w, _), _). w = wid) (streams g)))"

definition export_one :: "json_text \<Rightarrow> inner \<Rightarrow> string \<Rightarrow> exported_workflow result" where
  "export_one T g wid =
     (case hm_get (workflows g) wid of
        None \<Rightarrow> Inl (nonexistent_workflow wid)
      | Some w \<Rightarrow>
          Inr \<lparr> ew_workflow_status =
                  status_to_map T w @ [(''was_forked_from'', JBool (ws_id w \<in> set (fork_sources g)))],
                ew_operation_outputs = map (\<lambda>(seq, r). step_to_map T wid seq r) (workflow_steps g wid),
                ew_workflow_events = map (\<lambda>(k, v). event_to_map T wid k v) (workflow_event_rows g wid),
                ew_workflow_events_history = [],
                ew_streams = concat (map (\<lambda>(k, entries).
                    map (\<lambda>(off, e). stream_to_map T wid k (int off) e) (enumerate 0 entries))
                  (workflow_stream_rows g wid)) \<rparr>)"

fun export_all :: "json_text \<Rightarrow> inner \<Rightarrow> string list \<Rightarrow> exported_workflow list result" where
  "export_all T g [] = Inr []"
| "export_all T g (wid # ids) =
     (case export_one T g wid of
        Inl e \<Rightarrow> Inl e
      | Inr x \<Rightarrow> (case export_all T g ids of Inl e \<Rightarrow> Inl e | Inr xs \<Rightarrow> Inr (x # xs)))"

definition export_workflow ::
    "json_text \<Rightarrow> string \<Rightarrow> bool \<Rightarrow> inner \<Rightarrow> (exported_workflow list result \<times> inner) option" where
  "export_workflow T workflow_id export_children g =
     (case (if export_children then export_ids g [workflow_id] [workflow_id] else Some [workflow_id]) of
        None \<Rightarrow> None
      | Some ids \<Rightarrow> Some (export_all T g ids, g))"

section \<open>Import\<close>

definition import_step_row :: "json_text \<Rightarrow> json_map \<Rightarrow> step_row" where
  "import_step_row T m =
     \<lparr> sr_name = unwrap_or (col_str m ''function_name'') [],
       sr_output = Option.bind (col_str m ''output'') (from_str_ok T),
       sr_error = col_str m ''error'',
       sr_child_workflow_id = col_str m ''child_workflow_id'',
       sr_started_at_ms = col_i64 m ''started_at_epoch_ms'',
       sr_completed_at_ms = col_i64 m ''completed_at_epoch_ms'' \<rparr>"

definition import_step :: "json_text \<Rightarrow> string \<Rightarrow> json_map \<Rightarrow> inner \<Rightarrow> inner" where
  "import_step T wid m g =
     g \<lparr> steps := hm_insert (wid, i32_wrap (unwrap_or (col_i64 m ''function_id'') 0))
           (import_step_row T m) (steps g) \<rparr>"

definition import_event :: "json_text \<Rightarrow> string \<Rightarrow> json_map \<Rightarrow> inner \<Rightarrow> inner" where
  "import_event T wid m g =
     g \<lparr> events := hm_insert (wid, unwrap_or (col_str m ''key'') [])
           (unwrap_or (Option.bind (col_str m ''value'') (from_str_ok T)) JNull) (events g) \<rparr>"

definition import_entry :: "json_text \<Rightarrow> json_map \<Rightarrow> json option" where
  "import_entry T m =
     (case col_str m ''value'' of
        Some v \<Rightarrow> if v = STREAM_CLOSED_SENTINEL then None else from_str_ok T v
      | None \<Rightarrow> None)"

definition import_offset :: "json_map \<Rightarrow> int" where
  "import_offset m = unwrap_or (col_i64 m ''offset'') 0"

definition stream_groups ::
    "json_text \<Rightarrow> json_map list \<Rightarrow> (string, (nat \<times> json option) list) hashmap" where
  "stream_groups T ms =
     group_fold (\<lambda>m. unwrap_or (col_str m ''key'') [])
       (\<lambda>m rows. rows @ [(nat (import_offset m), import_entry T m)]) [] ms []"

definition stream_buffer :: "(nat \<times> json option) list \<Rightarrow> json option list" where
  "stream_buffer rows =
     fold (\<lambda>(off, e) buf. buf[off := e]) rows
       (replicate (unwrap_or (max_by_key id (map (\<lambda>(off, _). Suc off) rows)) 0) None)"

definition import_streams :: "json_text \<Rightarrow> string \<Rightarrow> json_map list \<Rightarrow> inner \<Rightarrow> inner option" where
  "import_streams T wid ms g =
     (if list_ex (\<lambda>m. import_offset m < 0) ms then None
      else Some (g \<lparr> streams :=
             fold (\<lambda>(key, rows). hm_insert (wid, key) (stream_buffer rows)) (stream_groups T ms) (streams g) \<rparr>))"

definition import_one ::
    "codec_env \<Rightarrow> (int \<Rightarrow> datetime option) \<Rightarrow> datetime \<Rightarrow> datetime \<Rightarrow> exported_workflow \<Rightarrow> inner \<Rightarrow> inner option" where
  "import_one E from_ms now1 now2 ew g =
     (let T = ce_json E;
          wid = unwrap_or (col_str (ew_workflow_status ew) ''workflow_uuid'') [];
          g1 = g \<lparr> workflows := hm_insert wid (map_to_status E from_ms now1 now2 (ew_workflow_status ew))
                     (workflows g) \<rparr>;
          g2 = fold (import_step T wid) (ew_operation_outputs ew) g1;
          g3 = fold (import_event T wid) (ew_workflow_events ew) g2
      in import_streams T wid (ew_streams ew) g3)"

fun import_all ::
    "codec_env \<Rightarrow> (int \<Rightarrow> datetime option) \<Rightarrow> (nat \<Rightarrow> datetime) \<Rightarrow> nat \<Rightarrow> exported_workflow list \<Rightarrow> inner
       \<Rightarrow> inner option" where
  "import_all E from_ms clk i [] g = Some g"
| "import_all E from_ms clk i (ew # ews) g =
     (case import_one E from_ms (clk (2 * i)) (clk (2 * i + 1)) ew g of
        None \<Rightarrow> None
      | Some g' \<Rightarrow> import_all E from_ms clk (Suc i) ews g')"

definition import_conflict :: "inner \<Rightarrow> exported_workflow list \<Rightarrow> string option" where
  "import_conflict g ews =
     find (\<lambda>wid. hm_contains (workflows g) wid)
       (List.map_filter (\<lambda>ew. col_str (ew_workflow_status ew) ''workflow_uuid'') ews)"

definition import_workflow ::
    "codec_env \<Rightarrow> (int \<Rightarrow> datetime option) \<Rightarrow> (nat \<Rightarrow> datetime) \<Rightarrow> exported_workflow list \<Rightarrow> inner
       \<Rightarrow> (unit result \<times> inner) option" where
  "import_workflow E from_ms clk ews g =
     (case import_conflict g ews of
        Some wid \<Rightarrow> Some (Inl (app (''workflow '' @ wid @ '' already exists'')), g)
      | None \<Rightarrow>
          (case import_all E from_ms clk 0 ews g of
             None \<Rightarrow> None
           | Some g' \<Rightarrow> Some (Inr (), g')))"

section \<open>Round trip of the rows\<close>

text \<open>
  What survives an export: everything but the completion time, the rate-limit mark, the structured
  error and the sub-millisecond part of the timestamps.
\<close>

definition portable_row :: "workflow_status \<Rightarrow> workflow_status" where
  "portable_row w =
     w \<lparr> ws_completed_at_ms := None, ws_rate_limited := False, ws_error_info := None,
         ws_created_at := timestamp_millis (ws_created_at w) * 1000000,
         ws_updated_at := timestamp_millis (ws_updated_at w) * 1000000 \<rparr>"

text \<open>The row's columns are in the ranges of their types, and its values have texts.\<close>

definition exportable :: "json set \<Rightarrow> (int \<Rightarrow> datetime option) \<Rightarrow> workflow_status \<Rightarrow> bool" where
  "exportable V from_ms w \<longleftrightarrow>
     ws_input w \<in> V \<and> (\<forall>v. ws_output w = Some v \<longrightarrow> v \<in> V) \<and>
     (ws_authenticated_roles w \<noteq> [] \<longrightarrow> JArray (map JString (ws_authenticated_roles w)) \<in> V) \<and>
     opt_in_i64 (ws_timeout_ms w) \<and> opt_in_i64 (ws_deadline_ms w) \<and> opt_in_i64 (ws_started_at_ms w) \<and>
     opt_in_i64 (ws_delay_until_ms w) \<and>
     i32_min \<le> ws_priority w \<and> ws_priority w \<le> i32_max \<and>
     i32_min \<le> ws_recovery_attempts w \<and> ws_recovery_attempts w \<le> i32_max \<and>
     (\<forall>t \<in> {timestamp_millis (ws_created_at w), timestamp_millis (ws_updated_at w)}.
        i64_min \<le> t \<and> t \<le> i64_max \<and> from_ms t = Some (t * 1000000))"

lemma those_strings: "those (map as_str (map JString xs)) = Some xs"
  by (induction xs) auto

lemma decode_encode_roles:
  assumes "json_text_ok T V" "xs \<noteq> [] \<longrightarrow> JArray (map JString xs) \<in> V"
  shows "decode_roles T (encode_roles T xs) = xs"
  using assms those_strings [of xs]
  by (cases "xs = []") (simp_all add: decode_roles_def encode_roles_def json_text_parse_ok)

lemma from_str_payload:
  assumes "json_text_ok T V"
  shows "v \<in> V \<Longrightarrow> Option.bind (as_str (payload_str T v)) (from_str_ok T) = Some v"
    and "(\<forall>x. ov = Some x \<longrightarrow> x \<in> V) \<Longrightarrow> Option.bind (as_str (opt_payload T ov)) (from_str_ok T) = ov"
  using assms
  by (auto simp: payload_str_def opt_payload_def json_text_parse_ok split: option.splits)

lemma i32_in_i64: "i32_min \<le> x \<Longrightarrow> x \<le> i32_max \<Longrightarrow> i64_min \<le> x \<and> x \<le> i64_max"
  by (simp add: i32_min_def i32_max_def i64_min_def i64_max_def)

lemmas col_defs = col_str_def col_i64_def status_to_map_def hm_get_def

lemma status_columns:
  assumes "json_text_ok (ce_json E) V" "exportable V from_ms w"
  shows "Option.bind (col_str (status_to_map (ce_json E) w @ x) ''inputs'') (from_str_ok (ce_json E)) = Some (ws_input w)"
    and "Option.bind (col_str (status_to_map (ce_json E) w @ x) ''output'') (from_str_ok (ce_json E)) = ws_output w"
    and "decode_roles (ce_json E) (col_str (status_to_map (ce_json E) w @ x) ''authenticated_roles'') =
           ws_authenticated_roles w"
    and "col_i64 (status_to_map (ce_json E) w @ x) ''priority'' = Some (ws_priority w)"
    and "col_i64 (status_to_map (ce_json E) w @ x) ''recovery_attempts'' = Some (ws_recovery_attempts w)"
    and "col_i64 (status_to_map (ce_json E) w @ x) ''created_at'' = Some (timestamp_millis (ws_created_at w))"
    and "col_i64 (status_to_map (ce_json E) w @ x) ''updated_at'' = Some (timestamp_millis (ws_updated_at w))"
    and "decode_error_opt E (col_str (status_to_map (ce_json E) w @ x) ''serialization'')
           (col_str (status_to_map (ce_json E) w @ x) ''error'') = (ws_error w, None)"
  using assms from_str_payload [OF assms(1)] decode_encode_roles [OF assms(1)] i32_in_i64
  by (simp_all add: exportable_def col_defs decode_error_opt_def decode_error_def split: option.splits)

lemma status_text_columns:
  "col_str (status_to_map T w @ x) ''workflow_uuid'' = Some (ws_id w)"
  "col_str (status_to_map T w @ x) ''name'' = Some (ws_name w)"
  "col_str (status_to_map T w @ x) ''status'' = Some (ws_status w)"
  "col_str (status_to_map T w @ x) ''executor_id'' = Some (ws_executor_id w)"
  "col_str (status_to_map T w @ x) ''application_version'' = Some (ws_app_version w)"
  "col_str (status_to_map T w @ x) ''queue_name'' = ws_queue_name w"
  "col_str (status_to_map T w @ x) ''queue_partition_key'' = ws_queue_partition_key w"
  "col_str (status_to_map T w @ x) ''deduplication_id'' = ws_dedup_id w"
  "col_str (status_to_map T w @ x) ''parent_workflow_id'' = ws_parent_workflow_id w"
  "col_str (status_to_map T w @ x) ''forked_from'' = ws_forked_from w"
  "col_str (status_to_map T w @ x) ''authenticated_user'' = ws_authenticated_user w"
  "col_str (status_to_map T w @ x) ''assumed_role'' = ws_assumed_role w"
  "col_str (status_to_map T w @ x) ''class_name'' = ws_class_name w"
  "col_str (status_to_map T w @ x) ''config_name'' = ws_config_name w"
  by (simp_all add: col_defs)

lemma status_int_columns:
  "opt_in_i64 (ws_timeout_ms w) \<Longrightarrow> col_i64 (status_to_map T w @ x) ''workflow_timeout_ms'' = ws_timeout_ms w"
  "opt_in_i64 (ws_deadline_ms w) \<Longrightarrow> col_i64 (status_to_map T w @ x) ''workflow_deadline_epoch_ms'' = ws_deadline_ms w"
  "opt_in_i64 (ws_started_at_ms w) \<Longrightarrow> col_i64 (status_to_map T w @ x) ''started_at_epoch_ms'' = ws_started_at_ms w"
  "opt_in_i64 (ws_delay_until_ms w) \<Longrightarrow> col_i64 (status_to_map T w @ x) ''delay_until_epoch_ms'' = ws_delay_until_ms w"
  by (simp_all add: col_defs)

text \<open>
  An exported workflow row imports to the same row: every column the portable form carries (id,
  names, status, input, output, error text, queue and deduplication data, priority, recovery count,
  timeouts, roles, fork and parent links) comes back exactly, timestamps to the millisecond.
\<close>

theorem map_to_status_round_trip:
  assumes "json_text_ok (ce_json E) V" "exportable V from_ms w"
  shows "map_to_status E from_ms now1 now2 (status_to_map (ce_json E) w @ x) = portable_row w"
proof -
  note c = status_columns [OF assms, of x]
  have i: "i32_wrap (ws_priority w) = ws_priority w" "i32_wrap (ws_recovery_attempts w) = ws_recovery_attempts w"
    "from_ms (timestamp_millis (ws_created_at w)) = Some (timestamp_millis (ws_created_at w) * 1000000)"
    "from_ms (timestamp_millis (ws_updated_at w)) = Some (timestamp_millis (ws_updated_at w) * 1000000)"
    "opt_in_i64 (ws_timeout_ms w)" "opt_in_i64 (ws_deadline_ms w)" "opt_in_i64 (ws_started_at_ms w)"
    "opt_in_i64 (ws_delay_until_ms w)"
    using assms(2) by (simp_all add: exportable_def i32_wrap_id)
  show ?thesis
    by (rule workflow_status.equality)
      (simp_all add: map_to_status_def c i portable_row_def ms_to_dt_def Let_def
        status_text_columns status_int_columns)
qed

definition wit_from_ms :: "int \<Rightarrow> datetime option" where
  "wit_from_ms t = Some (t * 1000000)"

theorem map_to_status_round_trip_witness:
  "map_to_status (plain_env JNull) wit_from_ms 0 0
     (status_to_map (ce_json (plain_env JNull)) (wit_queued ''a'' 2) @ []) = portable_row (wit_queued ''a'' 2)"
proof -
  have "json_text_ok (ce_json (plain_env JNull)) {JNull, JNull}"
    using plain_env_ok [of JNull] by (simp add: codec_env_ok_def)
  moreover have "exportable {JNull, JNull} wit_from_ms (wit_queued ''a'' 2)"
    by (simp add: exportable_def wit_queued_def workflow_status_new_def opt_in_i64_def wit_from_ms_def
        timestamp_millis_def i64_min_def i64_max_def i32_min_def i32_max_def)
  ultimately show ?thesis by (rule map_to_status_round_trip)
qed

end
