(* ===== verification/Provider.thy ===== *)
theory Provider
  imports Memory_Export
begin

text \<open>
  The storage interface \<open>trait StateProvider\<close> of \<open>src/src/provider.rs\<close> as a record of operations
  over a store \<open>'s\<close>, the in-memory provider as one such record, the default methods and the live
  stream readers that only use the interface. An operation that reads the clock once takes the
  instant; one that reads it several times takes the readings.
\<close>

section \<open>The interface\<close>

record 's provider =
  pv_serializer :: serializer
  pv_supports_listen_notify :: bool
  pv_insert_workflow_status :: "workflow_status \<Rightarrow> ('s, workflow_status \<times> bool) op"
  pv_get_deduplicated_workflow :: "string \<Rightarrow> string \<Rightarrow> ('s, string option) op"
  pv_get_workflow_status :: "string \<Rightarrow> ('s, workflow_status option) op"
  pv_set_workflow_status ::
    "string \<Rightarrow> string \<Rightarrow> json option \<Rightarrow> string option \<Rightarrow> datetime \<Rightarrow> ('s, unit) op"
  pv_get_step_result :: "string \<Rightarrow> int \<Rightarrow> ('s, recorded_step option) op"
  pv_record_step_result ::
    "string \<Rightarrow> int \<Rightarrow> string \<Rightarrow> json \<Rightarrow> string option \<Rightarrow> int option \<Rightarrow> datetime \<Rightarrow> ('s, step_outcome) op"
  pv_dequeue_workflows ::
    "dequeue_request \<Rightarrow> datetime \<Rightarrow> (nat \<Rightarrow> datetime) \<Rightarrow> 's \<Rightarrow> (workflow_status list result \<times> 's) option"
  pv_transition_delayed_workflows :: "int \<Rightarrow> (string \<Rightarrow> datetime) \<Rightarrow> ('s, nat) op"
  pv_queue_partitions :: "string \<Rightarrow> ('s, string list) op"
  pv_insert_notification ::
    "string \<Rightarrow> string \<Rightarrow> json \<Rightarrow> string option \<Rightarrow> string \<Rightarrow> datetime \<Rightarrow> ('s, unit) op"
  pv_consume_notification :: "string \<Rightarrow> string \<Rightarrow> int \<Rightarrow> string \<Rightarrow> ('s, json option) op"
  pv_upsert_event :: "string \<Rightarrow> string \<Rightarrow> json \<Rightarrow> ('s, unit) op"
  pv_get_event_value :: "string \<Rightarrow> string \<Rightarrow> ('s, json option) op"
  pv_list_workflows :: "list_filter \<Rightarrow> ('s, workflow_status list) op"
  pv_get_workflow_aggregates :: "workflow_aggregate_query \<Rightarrow> ('s, workflow_aggregate list) op"
  pv_get_step_aggregates :: "step_aggregate_query \<Rightarrow> ('s, step_aggregate list) op"
  pv_cancel_workflow :: "string \<Rightarrow> datetime \<Rightarrow> ('s, unit) op"
  pv_resume_workflow :: "string \<Rightarrow> datetime \<Rightarrow> ('s, bool) op"
  pv_enqueue_existing :: "string \<Rightarrow> string \<Rightarrow> datetime \<Rightarrow> ('s, unit) op"
  pv_cancel_workflows :: "string list \<Rightarrow> datetime \<Rightarrow> ('s, unit) op"
  pv_resume_workflows :: "string list \<Rightarrow> datetime \<Rightarrow> ('s, string list) op"
  pv_delete_workflows :: "string list \<Rightarrow> bool \<Rightarrow> ('s, unit) op"
  pv_set_workflow_delay :: "string \<Rightarrow> int \<Rightarrow> datetime \<Rightarrow> ('s, bool) op"
  pv_fork_workflow :: "fork_params \<Rightarrow> datetime \<Rightarrow> ('s, unit) op"
  pv_bump_recovery_attempts :: "string \<Rightarrow> int \<Rightarrow> datetime \<Rightarrow> ('s, int) op"
  pv_record_child_workflow :: "string \<Rightarrow> int \<Rightarrow> string \<Rightarrow> string \<Rightarrow> ('s, unit) op"
  pv_check_child_workflow :: "string \<Rightarrow> int \<Rightarrow> ('s, (string \<times> string) option) op"
  pv_get_workflow_steps :: "string \<Rightarrow> ('s, step_info list) op"
  pv_get_step_name :: "string \<Rightarrow> int \<Rightarrow> ('s, string option) op"
  pv_record_patch :: "string \<Rightarrow> int \<Rightarrow> string \<Rightarrow> ('s, unit) op"
  pv_write_stream :: "string \<Rightarrow> string \<Rightarrow> json option \<Rightarrow> int \<Rightarrow> ('s, unit) op"
  pv_read_stream :: "string \<Rightarrow> string \<Rightarrow> int \<Rightarrow> ('s, json list \<times> bool) op"
  pv_list_workflow_events :: "string \<Rightarrow> ('s, (string \<times> json) list) op"
  pv_list_workflow_notifications :: "string \<Rightarrow> ('s, notification_info list) op"
  pv_list_workflow_streams :: "string \<Rightarrow> ('s, (string \<times> json list) list) op"
  pv_create_schedule :: "workflow_schedule \<Rightarrow> ('s, unit) op"
  pv_apply_schedules :: "workflow_schedule list \<Rightarrow> ('s, unit) op"
  pv_list_schedules :: "schedule_filter \<Rightarrow> ('s, workflow_schedule list) op"
  pv_set_schedule_status :: "string \<Rightarrow> schedule_status \<Rightarrow> ('s, bool) op"
  pv_set_schedule_last_fired :: "string \<Rightarrow> int \<Rightarrow> ('s, unit) op"
  pv_delete_schedule :: "string \<Rightarrow> ('s, bool) op"
  pv_create_application_version :: "string \<Rightarrow> string \<Rightarrow> datetime \<Rightarrow> ('s, unit) op"
  pv_list_application_versions :: "('s, version_info list) op"
  pv_get_latest_application_version :: "('s, version_info option) op"
  pv_set_latest_application_version :: "string \<Rightarrow> datetime \<Rightarrow> ('s, bool) op"
  pv_upsert_queue :: "workflow_queue \<Rightarrow> bool \<Rightarrow> ('s, unit) op"
  pv_list_queues :: "('s, workflow_queue list) op"

text \<open>
  The in-memory provider: the trait's default serializer, no push signalling.
\<close>

definition memory_provider :: "(int \<Rightarrow> datetime option) \<Rightarrow> inner provider" where
  "memory_provider from_ms =
     \<lparr> pv_serializer = Ser_Json,
       pv_supports_listen_notify = False,
       pv_insert_workflow_status = insert_workflow_status,
       pv_get_deduplicated_workflow = get_deduplicated_workflow,
       pv_get_workflow_status = get_workflow_status,
       pv_set_workflow_status = set_workflow_status,
       pv_get_step_result = get_step_result,
       pv_record_step_result = record_step_result,
       pv_dequeue_workflows = dequeue_workflows,
       pv_transition_delayed_workflows = transition_delayed_workflows,
       pv_queue_partitions = queue_partitions,
       pv_insert_notification = insert_notification,
       pv_consume_notification = consume_notification,
       pv_upsert_event = upsert_event,
       pv_get_event_value = get_event_value,
       pv_list_workflows = list_workflows,
       pv_get_workflow_aggregates = get_workflow_aggregates,
       pv_get_step_aggregates = get_step_aggregates,
       pv_cancel_workflow = cancel_workflow,
       pv_resume_workflow = resume_workflow,
       pv_enqueue_existing = enqueue_existing,
       pv_cancel_workflows = cancel_workflows,
       pv_resume_workflows = resume_workflows,
       pv_delete_workflows = delete_workflows,
       pv_set_workflow_delay = set_workflow_delay,
       pv_fork_workflow = fork_workflow,
       pv_bump_recovery_attempts = bump_recovery_attempts,
       pv_record_child_workflow = record_child_workflow,
       pv_check_child_workflow = check_child_workflow,
       pv_get_workflow_steps = get_workflow_steps from_ms,
       pv_get_step_name = get_step_name,
       pv_record_patch = record_patch,
       pv_write_stream = write_stream,
       pv_read_stream = read_stream,
       pv_list_workflow_events = list_workflow_events,
       pv_list_workflow_notifications = list_workflow_notifications,
       pv_list_workflow_streams = list_workflow_streams,
       pv_create_schedule = create_schedule,
       pv_apply_schedules = apply_schedules,
       pv_list_schedules = list_schedules,
       pv_set_schedule_status = set_schedule_status,
       pv_set_schedule_last_fired = set_schedule_last_fired from_ms,
       pv_delete_schedule = delete_schedule,
       pv_create_application_version = create_application_version,
       pv_list_application_versions = list_application_versions,
       pv_get_latest_application_version = get_latest_application_version,
       pv_set_latest_application_version = set_latest_application_version,
       pv_upsert_queue = upsert_queue,
       pv_list_queues = list_queues \<rparr>"

section \<open>Garbage collection\<close>

definition resolve_gc_cutoff ::
    "'s provider \<Rightarrow> int option \<Rightarrow> int option \<Rightarrow> ('s, int option) op" where
  "resolve_gc_cutoff P cutoff_epoch_ms rows_threshold =
     (if is_some_and (\<lambda>t. t \<le> 0) rows_threshold
      then fail (app (''rows_threshold must be positive, got '' @
             int_to_string (unwrap_or rows_threshold 0)))
      else
        (case rows_threshold of
           None \<Rightarrow> ok cutoff_epoch_ms
         | Some threshold \<Rightarrow>
             and_then (pv_list_workflows P
               (list_filter_default \<lparr> lf_sort_desc := True, lf_limit := Some 1,
                  lf_offset := Some (threshold - 1), lf_load_input := False, lf_load_output := False \<rparr>))
             (\<lambda>nth_newest. ok (case nth_newest of
                 w # _ \<Rightarrow>
                   (let rows_cutoff = timestamp_millis (ws_created_at w) in
                    if is_none_or (\<lambda>c. rows_cutoff > c) cutoff_epoch_ms
                    then Some rows_cutoff else cutoff_epoch_ms)
               | [] \<Rightarrow> cutoff_epoch_ms))))"

definition gc_filter :: "int \<Rightarrow> list_filter" where
  "gc_filter cutoff =
     list_filter_default
       \<lparr> lf_status := [STATUS_SUCCESS, STATUS_ERROR, STATUS_CANCELLED,
                       STATUS_MAX_RECOVERY_ATTEMPTS_EXCEEDED],
         lf_end_time_ms := Some (i64_wrap (cutoff - 1)),
         lf_load_input := False, lf_load_output := False \<rparr>"

definition garbage_collect :: "'s provider \<Rightarrow> int option \<Rightarrow> int option \<Rightarrow> ('s, nat) op" where
  "garbage_collect P cutoff_epoch_ms rows_threshold =
     and_then (resolve_gc_cutoff P cutoff_epoch_ms rows_threshold)
     (\<lambda>c. case c of
        None \<Rightarrow> ok 0
      | Some cutoff \<Rightarrow>
          and_then (pv_list_workflows P (gc_filter cutoff))
          (\<lambda>victims.
             let ids = map ws_id victims in
             and_then (pv_delete_workflows P ids False) (\<lambda>_. ok (length ids))))"

lemma gc_filter_matches:
  "filter_matches (gc_filter c) [] w \<longleftrightarrow>
     is_terminal (ws_status w) \<and> timestamp_millis (ws_created_at w) \<le> i64_wrap (c - 1)"
  by (auto simp: filter_matches_def gc_filter_def list_filter_default_def any_of_def any_of_opt_def is_terminal_def)

definition gc_victim :: "int \<Rightarrow> inner \<Rightarrow> string \<Rightarrow> bool" where
  "gc_victim cutoff g k \<longleftrightarrow>
     is_some_and (\<lambda>w. is_terminal (ws_status w) \<and> timestamp_millis (ws_created_at w) < cutoff)
       (hm_get (workflows g) k)"

lemma gc_listed:
  assumes "store_wf g" "i64_min < c" "c \<le> i64_max"
  shows "\<exists>rows. list_workflows (gc_filter c) g = (Inr rows, g) \<and> distinct (map ws_id rows) \<and>
           ws_id ` set rows = {k. gc_victim c g k}"
proof -
  have w: "i64_wrap (c - 1) = c - 1" using assms(2,3) by (intro i64_wrap_id) simp_all
  have "list_workflows (gc_filter c) g =
      (Inr (map (strip_row (gc_filter c)) (ordered_rows (gc_filter c) g)), g)"
    by (simp add: list_workflows_eq truncate_opt_def gc_filter_def list_filter_default_def)
  moreover have "lf_was_forked_from (gc_filter c) = None"
    by (simp add: gc_filter_def list_filter_default_def)
  then have "k \<in> ws_id ` set (matching_rows (gc_filter c) g) \<longleftrightarrow> gc_victim c g k" for k
    using row_id [OF assms(1), of k]
    by (cases "hm_get (workflows g) k")
      (force simp: gc_victim_def matching_rows_iff [OF assms(1)] gc_filter_matches w)+
  then have "ws_id ` set (map (strip_row (gc_filter c)) (ordered_rows (gc_filter c) g)) = {k. gc_victim c g k}"
    by (auto simp: image_image)
  moreover have "distinct (map ws_id (map (strip_row (gc_filter c)) (ordered_rows (gc_filter c) g)))"
    using ordered_rows_distinct [OF assms(1)] by (simp add: o_def)
  ultimately show ?thesis by blast
qed

text \<open>
  C36. Garbage collection deletes exactly the finished workflows created before the cutoff, reports how
  many, and never touches work in flight: with an effective cutoff \<open>c\<close> the remaining workflows are
  those that are not terminal or were created at \<open>c\<close> or later, and the steps of the removed ones are
  gone with them.
\<close>

theorem garbage_collect_exact:
  assumes "store_wf g" "resolve_gc_cutoff (memory_provider from_ms) co rows g = (Inr (Some c), g)"
    and "i64_min < c" "c \<le> i64_max"
  shows "\<exists>g'. garbage_collect (memory_provider from_ms) co rows g = (Inr (card {k. gc_victim c g k}), g') \<and>
           (\<forall>k. hm_get (workflows g') k = (if gc_victim c g k then None else hm_get (workflows g) k)) \<and>
           (\<forall>k i. hm_get (steps g') (k, i) = (if gc_victim c g k then None else hm_get (steps g) (k, i)))"
proof -
  obtain vs where vs: "list_workflows (gc_filter c) g = (Inr vs, g)" "distinct (map ws_id vs)"
    "ws_id ` set vs = {k. gc_victim c g k}" using gc_listed [OF assms(1,3,4)] by blast
  have n: "length vs = card {k. gc_victim c g k}"
    using distinct_card [OF vs(2)] vs(3) by simp
  have "garbage_collect (memory_provider from_ms) co rows g =
      (Inr (length vs), fold delete_one (map ws_id vs) g)"
    using assms(2) vs(1)
    by (simp add: garbage_collect_def and_then_def ok_def memory_provider_def delete_workflows_def)
  then show ?thesis
    using vs(3) n store_wfD(1,3) [OF assms(1)]
    by (auto simp: fold_delete_one hm_get_retain option_filter_def split: option.splits)
qed

definition wit_done :: inner where
  "wit_done = snd (set_workflow_status ''a'' STATUS_SUCCESS (Some JNull) None 8000000 wit_store)"

theorem garbage_collect_exact_witness:
  "\<exists>g'. garbage_collect (memory_provider wit_from_ms) (Some 10) None wit_done =
          (Inr (card {k. gc_victim 10 wit_done k}), g') \<and>
        hm_get (workflows g') ''a'' = None"
proof -
  have "store_wf wit_done" by (simp add: wit_done_def store_wf_set_workflow_status wit_store_wf)
  moreover have "resolve_gc_cutoff (memory_provider wit_from_ms) (Some 10) None wit_done = (Inr (Some 10), wit_done)"
    by (simp add: resolve_gc_cutoff_def ok_def)
  moreover have "gc_victim 10 wit_done ''a''" by code_simp
  ultimately show ?thesis
    using garbage_collect_exact [of wit_done wit_from_ms "Some 10" None 10]
    by (auto simp: i64_min_def i64_max_def)
qed

section \<open>Live stream readers\<close>

text \<open>
  A reader runs concurrently with the rest of the system: at each point where the task yields, an
  environment step changes the store. \<open>env (2 n)\<close> runs between the stream read and the status check
  of the \<open>n\<close>-th pass, \<open>env (2 n + 1)\<close> before the next pass. \<open>dec\<close> is \<open>serde_json::from_value\<close> at the
  element type. The loop has no bound of its own, so it takes fuel.
\<close>

definition producer_status :: "'s provider \<Rightarrow> string \<Rightarrow> ('s, string option) op" where
  "producer_status P workflow_id =
     and_then (pv_get_workflow_status P workflow_id) (\<lambda>s. ok (map_option ws_status s))"

fun decode_all :: "(json \<Rightarrow> 'a result) \<Rightarrow> json list \<Rightarrow> 'a list result" where
  "decode_all dec [] = Inr []"
| "decode_all dec (v # vs) =
     (case dec v of
        Inl e \<Rightarrow> Inl e
      | Inr x \<Rightarrow> (case decode_all dec vs of Inl e \<Rightarrow> Inl e | Inr xs \<Rightarrow> Inr (x # xs)))"

fun drain_stream_from ::
    "'s provider \<Rightarrow> (json \<Rightarrow> 'a result) \<Rightarrow> (nat \<Rightarrow> 's \<Rightarrow> 's) \<Rightarrow> string \<Rightarrow> string \<Rightarrow> nat \<Rightarrow> nat
       \<Rightarrow> 'a list \<Rightarrow> int \<Rightarrow> bool \<Rightarrow> 's \<Rightarrow> (('a list \<times> bool) result \<times> 's) option" where
  "drain_stream_from P dec env wid key 0 n acc off final_read s = None"
| "drain_stream_from P dec env wid key (Suc fuel) n acc off final_read s =
     (case pv_read_stream P wid key off s of
        (Inl e, s1) \<Rightarrow> Some (Inl e, s1)
      | (Inr (values, closed), s1) \<Rightarrow>
          (let off' = i32_wrap (off + i32_wrap (int (length values))) in
           case decode_all dec values of
             Inl e \<Rightarrow> Some (Inl e, s1)
           | Inr xs \<Rightarrow>
               if closed then Some (Inr (acc @ xs, True), s1)
               else if final_read then Some (Inr (acc @ xs, True), s1)
               else
                 (case producer_status P wid (env (2 * n) s1) of
                    (Inl e, s2) \<Rightarrow> Some (Inl e, s2)
                  | (Inr None, s2) \<Rightarrow> Some (Inl (nonexistent_workflow wid), s2)
                  | (Inr (Some st), s2) \<Rightarrow>
                      drain_stream_from P dec env wid key fuel (Suc n) (acc @ xs) off'
                        (st \<noteq> STATUS_PENDING \<and> st \<noteq> STATUS_ENQUEUED) (env (2 * n + 1) s2))))"

definition drain_stream ::
    "'s provider \<Rightarrow> (json \<Rightarrow> 'a result) \<Rightarrow> (nat \<Rightarrow> 's \<Rightarrow> 's) \<Rightarrow> nat \<Rightarrow> string \<Rightarrow> string \<Rightarrow> 's
       \<Rightarrow> (('a list \<times> bool) result \<times> 's) option" where
  "drain_stream P dec env fuel wid key s = drain_stream_from P dec env wid key fuel 0 [] 0 False s"

definition snapshot_stream ::
    "'s provider \<Rightarrow> (json \<Rightarrow> 'a result) \<Rightarrow> string \<Rightarrow> string \<Rightarrow> int \<Rightarrow> ('s, 'a list \<times> bool) op" where
  "snapshot_stream P dec wid key from_offset =
     and_then (pv_read_stream P wid key from_offset)
     (\<lambda>(values, closed). lift_result
        (case decode_all dec values of Inl e \<Rightarrow> Inl e | Inr xs \<Rightarrow> Inr (xs, closed)))"

fun traj :: "(nat \<Rightarrow> 's \<Rightarrow> 's) \<Rightarrow> 's \<Rightarrow> nat \<Rightarrow> 's" where
  "traj env s 0 = s"
| "traj env s (Suc n) = env n (traj env s n)"

definition producing :: "string \<Rightarrow> inner \<Rightarrow> bool" where
  "producing wid g =
     is_some_and (\<lambda>w. ws_status w = STATUS_PENDING \<or> ws_status w = STATUS_ENQUEUED)
       (hm_get (workflows g) wid)"

text \<open>
  How the rest of the system treats a stream: the producer's row stays, values are only appended, a
  sealed stream does not change, and once the producer is neither running nor queued it stays so and
  the stream does not change. The stream is no longer than offsets can count.
\<close>

definition producer_run :: "string \<Rightarrow> string \<Rightarrow> (nat \<Rightarrow> inner) \<Rightarrow> bool" where
  "producer_run wid key tr \<longleftrightarrow>
     (\<forall>k. streams_ok (tr k) \<and> hm_contains (workflows (tr k)) wid \<and>
          int (length (fst (stream_view (tr k) wid key))) \<le> i32_max \<and>
          prefix (fst (stream_view (tr k) wid key)) (fst (stream_view (tr (Suc k)) wid key)) \<and>
          (snd (stream_view (tr k) wid key) \<longrightarrow>
             stream_view (tr (Suc k)) wid key = stream_view (tr k) wid key) \<and>
          (\<not> producing wid (tr k) \<longrightarrow> \<not> producing wid (tr (Suc k)) \<and>
             stream_view (tr (Suc k)) wid key = stream_view (tr k) wid key))"

lemma producer_runD:
  assumes "producer_run wid key tr"
  shows "streams_ok (tr k)" "hm_contains (workflows (tr k)) wid"
    "int (length (fst (stream_view (tr k) wid key))) \<le> i32_max"
    "prefix (fst (stream_view (tr k) wid key)) (fst (stream_view (tr (Suc k)) wid key))"
    "snd (stream_view (tr k) wid key) \<Longrightarrow> stream_view (tr (Suc k)) wid key = stream_view (tr k) wid key"
    "\<not> producing wid (tr k) \<Longrightarrow> \<not> producing wid (tr (Suc k))"
    "\<not> producing wid (tr k) \<Longrightarrow> stream_view (tr (Suc k)) wid key = stream_view (tr k) wid key"
  using assms by (simp_all add: producer_run_def)

lemma producer_final:
  assumes "producer_run wid key tr" "snd (stream_view (tr k) wid key) \<or> \<not> producing wid (tr k)" "k \<le> j"
  shows "stream_view (tr j) wid key = stream_view (tr k) wid key \<and>
         (\<not> producing wid (tr k) \<longrightarrow> \<not> producing wid (tr j))"
  using assms(3)
proof (induction j rule: dec_induct)
  case (step j)
  then show ?case
    using producer_runD(5-7) [OF assms(1), of j] assms(2) by metis
qed simp

lemma decode_all_total: "(\<And>v. v \<in> set vs \<Longrightarrow> dec v = Inr (D v)) \<Longrightarrow> decode_all dec vs = Inr (map D vs)"
  by (induction vs) auto

lemma memory_stream_ops [simp]:
  "pv_read_stream (memory_provider f) = read_stream"
  "producer_status (memory_provider f) wid g = (Inr (map_option ws_status (hm_get (workflows g) wid)), g)"
  by (simp_all add: memory_provider_def producer_status_def and_then_def ok_def get_workflow_status_def)

lemma drain_pass:
  assumes run: "producer_run wid key tr" and tr: "tr = traj env g"
    and us: "prefix us (fst (stream_view (tr (2 * n)) wid key))"
    and dec: "\<forall>v \<in> set (fst (stream_view (tr (2 * n)) wid key)). dec v = Inr (D v)"
  shows "drain_stream_from (memory_provider f) dec env wid key (Suc fuel) n (map D us) (int (length us)) fr (tr (2 * n)) =
     (let vs = fst (stream_view (tr (2 * n)) wid key) in
      if snd (stream_view (tr (2 * n)) wid key) \<or> fr then Some (Inr (map D vs, True), tr (2 * n))
      else drain_stream_from (memory_provider f) dec env wid key fuel (Suc n) (map D vs) (int (length vs))
             (\<not> producing wid (tr (Suc (2 * n)))) (tr (2 * Suc n)))"
proof -
  obtain vs c where v: "stream_view (tr (2 * n)) wid key = (vs, c)" by (cases "stream_view (tr (2 * n)) wid key")
  obtain ws where ws: "vs = us @ ws" using us v by (auto simp: prefix_def)
  have r: "read_stream wid key (int (length us)) (tr (2 * n)) = (Inr (ws, c), tr (2 * n))"
    using read_stream_view [OF producer_runD(1) [OF run] v, of "length us"] ws by simp
  have d: "decode_all dec ws = Inr (map D ws)" using decode_all_total [of ws dec D] dec v ws by simp
  have b: "int (length vs) \<le> i32_max" using producer_runD(3) [OF run, of "2 * n"] v by simp
  have "i32_wrap (int (length ws)) = int (length ws)"
    "i32_wrap (int (length us) + int (length ws)) = int (length vs)"
    using b ws by (auto intro!: i32_wrap_id simp: i32_min_def)
  moreover obtain w where "hm_get (workflows (tr (Suc (2 * n)))) wid = Some w"
    using producer_runD(2) [OF run, of "Suc (2 * n)"] by (auto simp: hm_contains_def)
  ultimately show ?thesis
    using r d v ws tr by (auto simp: Let_def producing_def)
qed

definition stream_over :: "string \<Rightarrow> string \<Rightarrow> inner \<Rightarrow> bool" where
  "stream_over wid key g \<longleftrightarrow> snd (stream_view g wid key) \<or> \<not> producing wid g"

declare drain_stream_from.simps [simp del]

lemma enough_Suc:
  assumes "\<exists>F. \<forall>fuel \<ge> F. Q fuel" "\<And>fuel. Q fuel \<Longrightarrow> P (Suc fuel)"
  shows "\<exists>F. \<forall>fuel \<ge> F. P fuel"
proof -
  obtain F where "\<forall>fuel \<ge> F. Q fuel" using assms(1) by blast
  then have "\<forall>fuel \<ge> Suc F. P fuel" using assms(2) by (metis Suc_le_D Suc_le_mono)
  then show ?thesis by blast
qed

abbreviation drained ::
    "(int \<Rightarrow> datetime option) \<Rightarrow> (json \<Rightarrow> 'a result) \<Rightarrow> (json \<Rightarrow> 'a) \<Rightarrow> (nat \<Rightarrow> inner \<Rightarrow> inner) \<Rightarrow> string \<Rightarrow> string
       \<Rightarrow> (nat \<Rightarrow> inner) \<Rightarrow> nat \<Rightarrow> json list \<Rightarrow> bool \<Rightarrow> nat \<Rightarrow> bool" where
  "drained f dec D env wid key tr n us fr K \<equiv>
     \<exists>F. \<forall>fuel \<ge> F. drain_stream_from (memory_provider f) dec env wid key fuel n (map D us) (int (length us)) fr
       (tr (2 * n)) = Some (Inr (map D (fst (stream_view (tr K) wid key)), True), tr K)"

lemma drain_finishes:
  assumes run: "producer_run wid key tr" and tr: "tr = traj env g"
    and over: "stream_over wid key (tr N)"
    and dec: "\<And>k. \<forall>v \<in> set (fst (stream_view (tr k) wid key)). dec v = Inr (D v)"
    and us: "prefix us (fst (stream_view (tr (2 * n)) wid key))" and fr: "fr \<longrightarrow> \<not> producing wid (tr (2 * n))"
  shows "\<exists>K. stream_over wid key (tr K) \<and> drained f dec D env wid key tr n us fr K"
  using us fr
proof (induction "N - 2 * n" arbitrary: n us fr rule: less_induct)
  case less
  have now: "\<exists>K. stream_over wid key (tr K) \<and> drained f dec D env wid key tr n us fr K"
    if "prefix us (fst (stream_view (tr (2 * n)) wid key))"
      "snd (stream_view (tr (2 * n)) wid key) \<or> fr" "fr \<longrightarrow> \<not> producing wid (tr (2 * n))" for n us fr
  proof (rule exI [of _ "2 * n"], rule conjI)
    show "stream_over wid key (tr (2 * n))" using that(2,3) by (auto simp: stream_over_def)
    show "drained f dec D env wid key tr n us fr (2 * n)"
      by (rule enough_Suc [where Q = "\<lambda>_. True"])
        (use that(2) drain_pass [OF run tr that(1) dec, where f = f and fr = fr] in auto)
  qed
  show ?case
  proof (cases "snd (stream_view (tr (2 * n)) wid key) \<or> fr")
    case True
    then show ?thesis using now less.prems by blast
  next
    case open': False
    let ?vs = "fst (stream_view (tr (2 * n)) wid key)" and ?p = "producing wid (tr (Suc (2 * n)))"
    have pre: "prefix ?vs (fst (stream_view (tr (2 * Suc n)) wid key))"
      using producer_runD(4) [OF run, of "2 * n"] producer_runD(4) [OF run, of "Suc (2 * n)"]
      by (auto intro: prefix_order.order_trans)
    have "\<exists>K. stream_over wid key (tr K) \<and> drained f dec D env wid key tr (Suc n) ?vs (\<not> ?p) K"
    proof (cases ?p)
      case True
      have "2 * n < N"
      proof (rule ccontr)
        assume "\<not> 2 * n < N"
        then have f: "stream_view (tr (2 * n)) wid key = stream_view (tr N) wid key"
          "\<not> producing wid (tr N) \<longrightarrow> \<not> producing wid (tr (2 * n))"
          using producer_final [OF run over [unfolded stream_over_def], of "2 * n"] by simp_all
        show False
          using over f open' True producer_runD(6) [OF run, of "2 * n"] unfolding stream_over_def by metis
      qed
      with less.hyps [of "Suc n" ?vs False] pre True show ?thesis by simp
    next
      case False
      then show ?thesis using now [OF pre, of True] producer_runD(6) [OF run False] by simp
    qed
    then obtain K where K: "stream_over wid key (tr K)" "drained f dec D env wid key tr (Suc n) ?vs (\<not> ?p) K"
      by blast
    have "drained f dec D env wid key tr n us fr K"
      by (rule enough_Suc [OF K(2)])
        (use open' drain_pass [OF run tr less.prems(1) dec, where f = f and fr = fr] in \<open>simp add: Let_def\<close>)
    with K(1) show ?thesis by blast
  qed
qed

text \<open>
  C33. Draining a stream terminates with every value: if the producer eventually seals the stream or
  stops, then with enough passes the reader returns closed with exactly the values of the stream as it
  finally is, in order, including values written between its last read and the moment it saw the
  producer inactive.
\<close>

theorem drain_stream_complete:
  assumes "producer_run wid key (traj env g)" "stream_over wid key (traj env g N)"
    and "\<forall>k. \<forall>v \<in> set (fst (stream_view (traj env g k) wid key)). dec v = Inr (D v)"
  shows "\<exists>F K. (\<forall>fuel \<ge> F. drain_stream (memory_provider f) dec env fuel wid key g =
             Some (Inr (map D (fst (stream_view (traj env g K) wid key)), True), traj env g K)) \<and>
           (\<forall>j \<ge> K. stream_view (traj env g j) wid key = stream_view (traj env g K) wid key)"
proof -
  have "\<forall>v \<in> set (fst (stream_view (traj env g k) wid key)). dec v = Inr (D v)" for k
    using assms(3) by blast
  from drain_finishes [OF assms(1) refl assms(2) this, where us = "[]" and n = 0 and fr = False and f = f]
  obtain F K where
    K: "stream_over wid key (traj env g K)"
    "\<forall>fuel \<ge> F. drain_stream_from (memory_provider f) dec env wid key fuel 0 [] 0 False g =
       Some (Inr (map D (fst (stream_view (traj env g K) wid key)), True), traj env g K)" by auto
  then show ?thesis
    using producer_final [OF assms(1)] unfolding drain_stream_def stream_over_def by blast
qed

definition wit_env_steps :: "nat \<Rightarrow> inner \<Rightarrow> inner" where
  "wit_env_steps n g =
     (if n = 0
      then snd (set_workflow_status ''c'' STATUS_SUCCESS None None 9
                 (snd (write_stream ''c'' ''k'' (Some (JInt 1)) 0 g)))
      else g)"

lemma wit_traj: "0 < n \<Longrightarrow> traj wit_env_steps wit_store n = wit_env_steps 0 wit_store"
  by (induction n) (auto simp: wit_env_steps_def)

theorem drain_stream_complete_witness:
  "\<exists>F. \<forall>fuel \<ge> F. fst (the (drain_stream (memory_provider wit_from_ms) (\<lambda>v. Inr v) wit_env_steps fuel
      ''c'' ''k'' wit_store)) = Inr ([JInt 1], True)"
proof -
  let ?tr = "traj wit_env_steps wit_store"
  have ok: "streams_ok wit_store" "streams_ok (wit_env_steps 0 wit_store)"
    by (code_simp, code_simp)
  have v: "stream_view wit_store ''c'' ''k'' = ([], False)"
    "stream_view (wit_env_steps 0 wit_store) ''c'' ''k'' = ([JInt 1], False)"
    "producing ''c'' wit_store" "\<not> producing ''c'' (wit_env_steps 0 wit_store)"
    "hm_contains (workflows wit_store) ''c''" "hm_contains (workflows (wit_env_steps 0 wit_store)) ''c''"
    by code_simp+
  have run: "producer_run ''c'' ''k'' ?tr"
    unfolding producer_run_def
  proof
    fix k
    show "streams_ok (?tr k) \<and> hm_contains (workflows (?tr k)) ''c'' \<and>
          int (length (fst (stream_view (?tr k) ''c'' ''k''))) \<le> i32_max \<and>
          prefix (fst (stream_view (?tr k) ''c'' ''k'')) (fst (stream_view (?tr (Suc k)) ''c'' ''k'')) \<and>
          (snd (stream_view (?tr k) ''c'' ''k'') \<longrightarrow>
             stream_view (?tr (Suc k)) ''c'' ''k'' = stream_view (?tr k) ''c'' ''k'') \<and>
          (\<not> producing ''c'' (?tr k) \<longrightarrow> \<not> producing ''c'' (?tr (Suc k)) \<and>
             stream_view (?tr (Suc k)) ''c'' ''k'' = stream_view (?tr k) ''c'' ''k'')"
      using ok v wit_traj [of k] wit_traj [of "Suc k"]
      by (cases "k = 0") (simp_all del: traj.simps(2) add: i32_max_def)
  qed
  have over: "stream_over ''c'' ''k'' (?tr 1)" using v wit_traj [of 1] by (simp add: stream_over_def del: traj.simps(2))
  have "\<forall>k. \<forall>v \<in> set (fst (stream_view (?tr k) ''c'' ''k'')). (\<lambda>v. Inr v) v = Inr ((\<lambda>v. v) v)" by simp
  from drain_stream_complete [OF run over this, of wit_from_ms] obtain F K where
    d: "\<forall>fuel \<ge> F. drain_stream (memory_provider wit_from_ms) (\<lambda>v. Inr v) wit_env_steps fuel ''c'' ''k'' wit_store =
      Some (Inr (map (\<lambda>v. v) (fst (stream_view (?tr K) ''c'' ''k'')), True), ?tr K)"
    and K: "\<forall>j \<ge> K. stream_view (?tr j) ''c'' ''k'' = stream_view (?tr K) ''c'' ''k''" by blast
  have "stream_view (?tr K) ''c'' ''k'' = stream_view (?tr (Suc K)) ''c'' ''k''"
    using K [rule_format, of "Suc K"] by (rule sym) simp
  also have "\<dots> = ([JInt 1], False)" unfolding wit_traj [of "Suc K", OF zero_less_Suc] by (rule v(2))
  finally have "fst (stream_view (?tr K) ''c'' ''k'') = [JInt 1]" by simp
  with d show ?thesis by (intro exI [of _ F]) simp
qed

text \<open>
  A reader takes a delayed producer for a finished one: on a workflow that is still DELAYED the
  drain returns at once, reporting the stream closed, although the stream is not sealed and the
  workflow becomes active again, and able to write, when its delay has passed.
\<close>

theorem drain_delayed_producer:
  assumes "streams_ok g" "stream_view g wid key = ([], False)"
    and "hm_get (workflows g) wid = Some w" "ws_status w = STATUS_DELAYED" "ws_delay_until_ms w = Some t"
  shows "drain_stream (memory_provider f) dec (\<lambda>_ s. s) (Suc (Suc fuel)) wid key g = Some (Inr ([], True), g) \<and>
         producing wid (snd (transition_delayed_workflows t upd g))"
proof -
  have r: "read_stream wid key 0 g = (Inr ([], False), g)"
    using read_stream_view [OF assms(1,2), of 0] by simp
  have "i32_wrap 0 = 0" by (intro i32_wrap_id) (simp_all add: i32_min_def i32_max_def)
  then have "drain_stream (memory_provider f) dec (\<lambda>_ s. s) (Suc (Suc fuel)) wid key g = Some (Inr ([], True), g)"
    using r assms(3,4) by (simp add: drain_stream_def drain_stream_from.simps)
  moreover have "hm_get (map (\<lambda>(k, w). (k, promote_row t (upd k) w)) m) wid =
      map_option (promote_row t (upd wid)) (hm_get m wid)" for m
    by (induction m) auto
  then have "hm_get (workflows (snd (transition_delayed_workflows t upd g))) wid = Some (promote_row t (upd wid) w)"
    using assms(3) by (simp add: transition_delayed_workflows_def)
  ultimately show ?thesis using assms(4,5) by (simp add: producing_def promote_row_def due_def)
qed

theorem drain_delayed_producer_witness:
  "let g = snd (insert_workflow_status ((wit_queued ''d'' 0) \<lparr> ws_status := STATUS_DELAYED,
              ws_delay_until_ms := Some 90 \<rparr>) inner_default)
   in drain_stream (memory_provider wit_from_ms) (\<lambda>v. Inr v) (\<lambda>_ s. s) 2 ''d'' ''k'' g = Some (Inr ([], True), g)"
proof -
  let ?w = "(wit_queued ''d'' 0) \<lparr> ws_status := STATUS_DELAYED, ws_delay_until_ms := Some 90 \<rparr>"
  let ?g = "snd (insert_workflow_status ?w inner_default)"
  have "streams_ok ?g" "stream_view ?g ''d'' ''k'' = ([], False)" by code_simp+
  moreover have "hm_get (workflows ?g) ''d'' = Some ?w"
    by (simp add: wit_queued_def insert_workflow_status_def dedup_conflict_def workflow_status_new_def
        inner_default_def hm_or_insert_def hm_contains_def)
  ultimately show ?thesis
    using drain_delayed_producer [of ?g "''d''" "''k''" ?w 90 wit_from_ms "\<lambda>v. Inr v" 0]
    by (simp add: Let_def numeral_2_eq_2)
qed

end
