(* ===== verification/Store_Invariant.thy ===== *)
theory Store_Invariant
  imports Provider
begin

text \<open>
  What every history of the in-memory provider keeps. A history is a sequence of calls of the
  provider's operations that change the store, by any number of processes and in any order
  (the store is behind one lock, so calls do not overlap). The ids in \<open>gone\<close> are those whose data the
  history is allowed to remove or replace: the targets of deletions and the new ids of forks.
\<close>

definition STATUSES :: "string set" where
  "STATUSES = {STATUS_PENDING, STATUS_ENQUEUED, STATUS_DELAYED, STATUS_SUCCESS, STATUS_ERROR, STATUS_CANCELLED,
     STATUS_MAX_RECOVERY_ATTEMPTS_EXCEEDED}"

text \<open>A row has a known status, and a finished one holds no deduplication slot.\<close>

definition row_typed :: "workflow_status \<Rightarrow> bool" where
  "row_typed w \<longleftrightarrow> ws_status w \<in> STATUSES \<and> (is_terminal (ws_status w) \<longrightarrow> ws_dedup_id w = None)"

inductive store_step :: "(int \<Rightarrow> datetime option) \<Rightarrow> string set \<Rightarrow> inner \<Rightarrow> inner \<Rightarrow> bool"
  for from_ms gone where
  "row_typed w \<Longrightarrow> store_step from_ms gone g (snd (insert_workflow_status w g))"
| "status \<in> STATUSES \<Longrightarrow> store_step from_ms gone g (snd (set_workflow_status wid status out err now g))"
| "store_step from_ms gone g (snd (record_step_result wid seq name v err st now g))"
| "store_step from_ms gone g (snd (record_child_workflow wid seq name child g))"
| "store_step from_ms gone g (snd (record_patch wid seq name g))"
| "dequeue_workflows req now upd g = Some (r, g') \<Longrightarrow> store_step from_ms gone g g'"
| "store_step from_ms gone g (snd (transition_delayed_workflows ms upds g))"
| "store_step from_ms gone g (snd (insert_notification dest topic m key fresh now g))"
| "store_step from_ms gone g (snd (consume_notification wid topic seq name g))"
| "store_step from_ms gone g (snd (upsert_event wid key v g))"
| "store_step from_ms gone g (snd (write_stream wid key e i g))"
| "store_step from_ms gone g (snd (cancel_workflow wid now g))"
| "store_step from_ms gone g (snd (cancel_workflows ids now g))"
| "store_step from_ms gone g (snd (resume_workflow wid now g))"
| "store_step from_ms gone g (snd (resume_workflows ids now g))"
| "store_step from_ms gone g (snd (enqueue_existing wid queue now g))"
| "set (if dc then collect_targets (workflows g) 0 ids else ids) \<subseteq> gone \<Longrightarrow>
     store_step from_ms gone g (snd (delete_workflows ids dc g))"
| "store_step from_ms gone g (snd (set_workflow_delay wid d now g))"
| "fp_new_id p \<in> gone \<Longrightarrow> store_step from_ms gone g (snd (fork_workflow p now g))"
| "store_step from_ms gone g (snd (bump_recovery_attempts wid mx now g))"
| "store_step from_ms gone g (snd (create_schedule s g))"
| "store_step from_ms gone g (snd (apply_schedules ss g))"
| "store_step from_ms gone g (snd (set_schedule_status name sst g))"
| "store_step from_ms gone g (snd (set_schedule_last_fired from_ms name at_ms g))"
| "store_step from_ms gone g (snd (delete_schedule name g))"
| "store_step from_ms gone g (snd (create_application_version name fresh now g))"
| "store_step from_ms gone g (snd (set_latest_application_version name now g))"
| "store_step from_ms gone g (snd (upsert_queue q b g))"

text \<open>What a workflow keeps for life, and how its data may grow.\<close>

definition same_identity :: "workflow_status \<Rightarrow> workflow_status \<Rightarrow> bool" where
  "same_identity w w' \<longleftrightarrow>
     ws_id w' = ws_id w \<and> ws_name w' = ws_name w \<and> ws_input w' = ws_input w \<and>
     ws_created_at w' = ws_created_at w \<and> ws_priority w' = ws_priority w \<and> ws_timeout_ms w' = ws_timeout_ms w \<and>
     ws_parent_workflow_id w' = ws_parent_workflow_id w \<and> ws_forked_from w' = ws_forked_from w \<and>
     ws_authenticated_user w' = ws_authenticated_user w \<and> ws_assumed_role w' = ws_assumed_role w \<and>
     ws_authenticated_roles w' = ws_authenticated_roles w \<and>
     ws_class_name w' = ws_class_name w \<and> ws_config_name w' = ws_config_name w"

definition rows_evolve :: "string set \<Rightarrow> inner \<Rightarrow> inner \<Rightarrow> bool" where
  "rows_evolve gone g g' \<longleftrightarrow>
     (\<forall>k w. k \<notin> gone \<longrightarrow> hm_get (workflows g) k = Some w \<longrightarrow>
        (\<exists>w'. hm_get (workflows g') k = Some w' \<and> same_identity w w'))"

definition steps_evolve :: "string set \<Rightarrow> inner \<Rightarrow> inner \<Rightarrow> bool" where
  "steps_evolve gone g g' \<longleftrightarrow>
     (\<forall>k seq r. k \<notin> gone \<longrightarrow> hm_get (steps g) (k, seq) = Some r \<longrightarrow> hm_get (steps g') (k, seq) = Some r)"

definition streams_evolve :: "string set \<Rightarrow> inner \<Rightarrow> inner \<Rightarrow> bool" where
  "streams_evolve gone g g' \<longleftrightarrow>
     (\<forall>k key. k \<notin> gone \<longrightarrow> (\<exists>more. stream_entries g' k key = stream_entries g k key @ more))"

definition rows_typed :: "inner \<Rightarrow> bool" where
  "rows_typed g \<longleftrightarrow> (\<forall>k w. hm_get (workflows g) k = Some w \<longrightarrow> row_typed w)"

lemma same_identity_refl [simp]: "same_identity w w"
  by (simp add: same_identity_def)

lemma same_identity_trans: "same_identity u v \<Longrightarrow> same_identity v w \<Longrightarrow> same_identity u w"
  by (simp add: same_identity_def)

lemma same_identity_updates [simp]:
  "same_identity w (status_transition s out e now w)"
  "same_identity w (cancel_row now w)" "same_identity w (resume_row now w)"
  "same_identity w (bump_row mx now w)" "same_identity w (promote_row ms u w)"
  "same_identity w (claim_row req ms u w)"
  by (auto simp: same_identity_def status_transition_def cancel_row_def resume_row_def bump_row_def promote_row_def
      claim_row_def Let_def split: option.splits)

lemma statuses_known [simp]:
  "STATUS_PENDING \<in> STATUSES" "STATUS_ENQUEUED \<in> STATUSES" "STATUS_DELAYED \<in> STATUSES" "STATUS_CANCELLED \<in> STATUSES"
  "STATUS_MAX_RECOVERY_ATTEMPTS_EXCEEDED \<in> STATUSES"
  by (simp_all add: STATUSES_def)

lemma not_terminal [simp]:
  "\<not> is_terminal STATUS_PENDING" "\<not> is_terminal STATUS_ENQUEUED"
  by (simp_all add: is_terminal_def status_defs)

lemma row_typed_updates [simp]:
  "row_typed w \<Longrightarrow> s \<in> STATUSES \<Longrightarrow> row_typed (status_transition s out e now w)"
  "row_typed w \<Longrightarrow> row_typed (cancel_row now w)" "row_typed w \<Longrightarrow> row_typed (resume_row now w)"
  "row_typed w \<Longrightarrow> row_typed (bump_row mx now w)" "row_typed w \<Longrightarrow> row_typed (promote_row ms u w)"
  "row_typed w \<Longrightarrow> row_typed (claim_row req ms u w)"
  by (auto simp: row_typed_def cancel_row_def resume_row_def bump_row_def promote_row_def claim_row_def Let_def)

section \<open>Every call is sound\<close>

definition sound :: "inner \<Rightarrow> bool" where
  "sound g \<longleftrightarrow> store_wf g \<and> streams_ok g \<and> rows_typed g"

definition sound_step :: "string set \<Rightarrow> inner \<Rightarrow> inner \<Rightarrow> bool" where
  "sound_step gone g g' \<longleftrightarrow>
     (sound g \<longrightarrow> sound g') \<and> rows_evolve gone g g' \<and> steps_evolve gone g g' \<and> streams_evolve gone g g'"

lemma sound_step_refl [simp]: "sound_step gone g g"
  by (simp add: sound_step_def rows_evolve_def steps_evolve_def streams_evolve_def)

lemma sound_step_trans:
  assumes "sound_step gone g g'" "sound_step gone g' g''"
  shows "sound_step gone g g''"
  unfolding sound_step_def
proof (intro conjI)
  show "sound g \<longrightarrow> sound g''" using assms by (simp add: sound_step_def)
  show "rows_evolve gone g g''" using assms unfolding sound_step_def rows_evolve_def
    by (meson same_identity_trans)
  show "steps_evolve gone g g''" using assms unfolding sound_step_def steps_evolve_def by blast
  show "streams_evolve gone g g''" using assms unfolding sound_step_def streams_evolve_def
    by (metis append.assoc)
qed

lemma sound_update_row:
  assumes "\<And>w. same_identity w (f w)" "\<And>w. row_typed w \<Longrightarrow> row_typed (f w)"
  shows "sound_step gone g (update_row wid f g)"
proof -
  have "sound g \<longrightarrow> sound (update_row wid f g)"
    using assms(2) assms(1) [unfolded same_identity_def]
    by (auto simp: sound_def rows_typed_def store_wf_update_row) (simp add: update_row_def)
  then show ?thesis
    using assms(1) by (simp add: sound_step_def rows_evolve_def steps_evolve_def streams_evolve_def stream_entries_def)
      (simp add: update_row_def)
qed

lemma sound_replace_row:
  assumes "hm_get (workflows g) wid = Some w" "same_identity w w'" "row_typed w \<Longrightarrow> row_typed w'"
  shows "sound_step gone g (update_row wid (\<lambda>_. w') g)"
proof -
  have "rows_keyed ws_id (hm_modify wid (\<lambda>_. w') (workflows g))" if "store_wf g"
  proof -
    have "ws_id w' = wid" using row_id [OF that assms(1)] assms(2) by (simp add: same_identity_def)
    then show ?thesis using store_wfD(2) [OF that] by (auto simp: rows_keyed_def hm_modify_def list_all_iff split: if_splits)
  qed
  then have "store_wf g \<longrightarrow> store_wf (update_row wid (\<lambda>_. w') g)"
    by (simp add: update_row_def store_wf_tables store_wfD)
  then have "sound g \<longrightarrow> sound (update_row wid (\<lambda>_. w') g)"
    using assms by (auto simp: sound_def rows_typed_def) (simp add: update_row_def)
  then show ?thesis
    using assms by (simp add: sound_step_def rows_evolve_def steps_evolve_def streams_evolve_def stream_entries_def)
      (simp add: update_row_def)
qed

lemma sound_fold:
  "(\<And>x g. sound_step gone g (f x g)) \<Longrightarrow> sound_step gone g (fold f xs g)"
  by (induction xs arbitrary: g) (auto intro: sound_step_trans)

text \<open>Calls that leave the rows, checkpoints and streams of the other workflows as they are.\<close>

lemma sound_other_tables:
  assumes "workflows g' = workflows g" "steps g' = steps g" "streams g' = streams g" "store_wf g \<Longrightarrow> store_wf g'"
  shows "sound_step gone g g'"
  using assms by (simp add: sound_step_def sound_def rows_evolve_def steps_evolve_def streams_evolve_def
      streams_ok_def rows_typed_def stream_entries_def)

lemma sound_step_or_insert: "sound_step gone g (snd (step_or_insert wid seq row g))"
  by (simp add: sound_step_def sound_def store_wf_step_or_insert)
    (auto simp: step_or_insert_def rows_evolve_def steps_evolve_def streams_evolve_def rows_typed_def stream_entries_def
      hm_or_insert_def hm_contains_def)

lemma sound_insert:
  assumes "row_typed w"
  shows "sound_step gone g (snd (insert_workflow_status w g))"
proof (cases "dedup_conflict g w")
  case None
  let ?g = "g \<lparr> workflows := hm_or_insert (ws_id w) w (workflows g) \<rparr>"
  have "sound g \<longrightarrow> sound ?g"
    using assms store_wf_insert_workflow_status [of g w] None
    by (auto simp: sound_def rows_typed_def insert_workflow_status_def Let_def hm_or_insert_def split: if_splits)
  then show ?thesis using None
    by (auto simp: insert_workflow_status_def Let_def sound_step_def rows_evolve_def steps_evolve_def streams_evolve_def
        stream_entries_def hm_or_insert_def hm_contains_def)
qed (simp add: insert_workflow_status_def)

lemma sound_dequeue:
  assumes "dequeue_workflows req now upd g = Some (r, g')"
  shows "sound_step gone g g'"
proof -
  have loop: "sound_step gone g g'" if "claim_loop req ms upd i ids g = Some (claimed, g')" for ms i ids g claimed g'
    using that
  proof (induction req ms upd i ids g arbitrary: claimed g' rule: claim_loop.induct)
    case (2 req ms upd i a b wid ids g)
    then obtain w where w: "hm_get (workflows g) wid = Some w" by (auto split: option.splits)
    then have "sound_step gone g (update_row wid (\<lambda>_. claim_row req ms (upd i) w) g)"
      by (rule sound_replace_row) simp_all
    with 2 w show ?case by (auto simp: Let_def intro: sound_step_trans split: option.splits)
  qed simp
  show ?thesis using assms by (auto simp: dequeue_workflows_def Let_def intro: loop split: if_splits option.splits)
qed

lemma sound_delayed: "sound_step gone g (snd (transition_delayed_workflows ms upds g))"
proof -
  let ?p = "map (\<lambda>(k, w). (k, promote_row ms (upds k) w))"
  have get: "hm_get (?p m) k = map_option (promote_row ms (upds k)) (hm_get m k)" for m k
    by (induction m) auto
  have "ws_id (promote_row ms u w) = ws_id w" for u w by (simp add: promote_row_def)
  then have "rows_keyed ws_id (?p m)" if "rows_keyed ws_id m" for m
    using that by (auto simp: rows_keyed_def list_all_iff)
  moreover have "hm_wf (?p m) = hm_wf m" for m by (simp add: hm_wf_def hm_keys_def case_prod_unfold o_def)
  ultimately have "sound g \<longrightarrow> sound (snd (transition_delayed_workflows ms upds g))"
    by (auto simp: sound_def transition_delayed_workflows_def store_wf_tables store_wfD rows_typed_def get)
  then show ?thesis
    by (auto simp: sound_step_def transition_delayed_workflows_def rows_evolve_def steps_evolve_def streams_evolve_def
        stream_entries_def get)
qed

lemma hm_get_retain_keep: "(\<And>v. p k v) \<Longrightarrow> hm_get (hm_retain p m) k = hm_get m k"
  unfolding hm_retain_def by (induction m) auto

lemma sound_write_stream: "sound_step gone g (snd (write_stream wid key e i g))"
proof -
  have "sound g \<longrightarrow> sound (snd (write_stream wid key e i g))"
    by (simp add: sound_def store_wf_messaging streams_ok_write_stream) (auto simp: write_stream_def Let_def rows_typed_def)
  then show ?thesis
    by (auto simp: sound_step_def rows_evolve_def steps_evolve_def streams_evolve_def stream_entries_def write_stream_def
        Let_def unwrap_or_def)
qed

lemma sound_consume: "sound_step gone g (snd (consume_notification wid topic seq name g))"
proof (cases "min_by_key created_key (unread_rows wid topic g)")
  case (Some x)
  obtain i row where x: "x = (i, row)" by (cases x)
  let ?g = "g \<lparr> notifications := (notifications g)[i := row \<lparr> nr_consumed := True \<rparr>] \<rparr>"
  have "sound_step gone g ?g" by (rule sound_other_tables) (simp_all add: store_wf_tables)
  from sound_step_trans [OF this sound_step_or_insert] show ?thesis
    by (simp add: consume_notification_def Some x case_prod_unfold Let_def)
qed (simp add: consume_notification_def)

lemma sound_resume_loop: "sound_step gone g (snd (resume_loop ids now g))"
proof (induction ids now g rule: resume_loop.induct)
  case (2 wid ids now g)
  have "sound_step gone g (update_row wid (resume_row now) g)" by (rule sound_update_row) simp_all
  with 2 show ?case by (auto simp: case_prod_unfold Let_def intro: sound_step_trans split: option.splits)
qed simp

lemma sound_delete:
  assumes "set (if dc then collect_targets (workflows g) 0 ids else ids) \<subseteq> gone"
  shows "sound_step gone g (snd (delete_workflows ids dc g))"
proof -
  let ?ts = "if dc then collect_targets (workflows g) 0 ids else ids" and ?g = "snd (delete_workflows ids dc g)"
  have d: "?g = fold delete_one ?ts g" by (simp add: delete_workflows_def Let_def)
  have "rows_typed g \<longrightarrow> rows_typed ?g" if "store_wf g"
    unfolding d fold_delete_one using that
    by (auto simp: rows_typed_def hm_get_retain store_wfD option_filter_def split: option.splits if_splits)
  moreover have "streams_ok g \<longrightarrow> streams_ok ?g"
    unfolding d fold_delete_one by (auto simp: streams_ok_def list_all_iff hm_retain_def)
  ultimately have "sound g \<longrightarrow> sound ?g" by (simp add: sound_def store_wf_delete)
  moreover have "hm_get (workflows ?g) k = hm_get (workflows g) k" "hm_get (steps ?g) (k, i) = hm_get (steps g) (k, i)"
    "hm_get (streams ?g) (k, key) = hm_get (streams g) (k, key)" if "k \<notin> gone" for k i key
    using assms that unfolding d fold_delete_one by (auto intro!: hm_get_retain_keep)
  ultimately show ?thesis
    by (simp add: sound_step_def rows_evolve_def steps_evolve_def streams_evolve_def stream_entries_def)
qed

lemma sound_fork:
  assumes "fp_new_id p \<in> gone"
  shows "sound_step gone g (snd (fork_workflow p now g))"
proof (cases "hm_get (workflows g) (fp_original_id p)")
  case (Some w)
  let ?g = "snd (fork_workflow p now g)"
  have f: "hm_get (fold (\<lambda>(seq, v). hm_insert (fp_new_id p, seq) v) xs m) (k, i) = hm_get m (k, i)"
    if "k \<noteq> fp_new_id p" for xs k i and m :: "(string \<times> int, step_row) hashmap"
    using that by (induction xs arbitrary: m) auto
  have "row_typed (forked_row p w now)" by (simp add: row_typed_def forked_row_def workflow_status_new_def)
  then have "rows_typed g \<longrightarrow> rows_typed ?g"
    by (simp add: rows_typed_def fork_workflow_def Some Let_def)
  then have "sound g \<longrightarrow> sound ?g" by (simp add: sound_def store_wf_fork) (simp add: fork_workflow_def Some Let_def)
  moreover have "k \<noteq> fp_new_id p" if "k \<notin> gone" for k using that assms by auto
  ultimately show ?thesis
    by (auto simp: sound_step_def rows_evolve_def steps_evolve_def streams_evolve_def stream_entries_def
        fork_workflow_def Some Let_def f)
qed (simp add: fork_workflow_def)

lemma sound_row_calls:
  "sound_step gone g (snd (cancel_workflow wid now g))" "sound_step gone g (snd (cancel_workflows ids now g))"
  "sound_step gone g (snd (resume_workflow wid now g))" "sound_step gone g (snd (bump_recovery_attempts wid mx now g))"
  "sound_step gone g (snd (enqueue_existing wid queue now g))" "sound_step gone g (snd (set_workflow_delay wid d now g))"
  by (auto simp: cancel_workflow_def cancel_workflows_def resume_workflow_def bump_recovery_attempts_def
      enqueue_existing_def set_workflow_delay_def intro!: sound_update_row sound_fold split: option.splits)
    (simp_all add: same_identity_def row_typed_def)

lemma sound_registry:
  "sound_step gone g (snd (create_schedule s g))" "sound_step gone g (snd (apply_schedules ss g))"
  "sound_step gone g (snd (set_schedule_status name sst g))"
  "sound_step gone g (snd (set_schedule_last_fired from_ms name at_ms g))"
  "sound_step gone g (snd (delete_schedule name g))" "sound_step gone g (snd (create_application_version name fresh now g))"
  "sound_step gone g (snd (set_latest_application_version name now g))" "sound_step gone g (snd (upsert_queue q b g))"
  "sound_step gone g (snd (insert_notification dest topic m key fresh now g))"
  "sound_step gone g (snd (upsert_event wid key' v g))"
  by (rule sound_other_tables;
      (erule store_wf_registry store_wf_messaging)?;
      simp add: create_schedule_def apply_schedules_def set_schedule_status_def set_schedule_last_fired_def
        delete_schedule_def create_application_version_def set_latest_application_version_def upsert_queue_def
        insert_notification_def upsert_event_def Let_def)+

lemma store_step_sound: "store_step from_ms gone g g' \<Longrightarrow> sound_step gone g g'"
proof (induction rule: store_step.induct)
  case (2 status g wid out err now)
  then show ?case by (simp add: set_workflow_status_def sound_update_row split: option.splits)
qed (simp_all add: sound_insert sound_dequeue sound_delayed sound_write_stream sound_consume sound_delete sound_fork
    sound_row_calls sound_registry sound_resume_loop sound_step_or_insert
    record_step_result_def record_child_workflow_def record_patch_def resume_workflows_def case_prod_unfold Let_def)

section \<open>Histories\<close>

lemma history_sound: "(store_step from_ms gone)\<^sup>*\<^sup>* g g' \<Longrightarrow> sound_step gone g g'"
  by (induction rule: rtranclp_induct) (auto intro: sound_step_trans store_step_sound)

lemma sound_default: "sound inner_default"
  by (simp add: sound_def store_wf_default rows_typed_def) (simp add: inner_default_def)


text \<open>A history: a workflow is inserted, and a step of it is recorded twice.\<close>

lemma wit_history:
  "(store_step f {})\<^sup>*\<^sup>* inner_default (snd (insert_workflow_status (wit_queued ''a'' 2) inner_default))"
  "(store_step f {})\<^sup>*\<^sup>* g (snd (record_step_result ''a'' 0 ''s'' (JBool True) None None 5 g))"
proof -
  have "row_typed (wit_queued ''a'' 2)" by (simp add: row_typed_def wit_queued_def workflow_status_new_def)
  then show "(store_step f {})\<^sup>*\<^sup>* inner_default (snd (insert_workflow_status (wit_queued ''a'' 2) inner_default))"
    by (intro r_into_rtranclp store_step.intros(1))
  show "(store_step f {})\<^sup>*\<^sup>* g (snd (record_step_result ''a'' 0 ''s'' (JBool True) None None 5 g))"
    by (intro r_into_rtranclp store_step.intros(3))
qed




end
