(* ===== verification/Context.thy ===== *)
theory Context
  imports Provider
begin

text \<open>
  The durable operations of a workflow, \<open>src/src/context.rs\<close>: steps with and without retries, durable
  values and sleep, messages, events, streams and patches. They are written over the storage interface
  (a \<open>provider\<close> record). The state of a running workflow is the store, the outside world its step
  bodies act on, and the step counter; every clock read takes the next reading of \<open>cx_clock\<close>, and
  where the task sleeps or waits for a change the rest of the system acts on the store
  (\<open>cx_environment\<close>).
\<close>

unbundle bit_operations_syntax

section \<open>Options and identity\<close>

text \<open>Serde for a type: \<open>to_value\<close> and \<open>from_value\<close>.\<close>

record 'a serde =
  sd_to_value :: "'a \<Rightarrow> json result"
  sd_from_value :: "json \<Rightarrow> 'a result"

definition json_serde :: "json serde" where
  "json_serde = \<lparr> sd_to_value = Inr, sd_from_value = Inr \<rparr>"

text \<open>\<open>Option<T>\<close> reads null as \<open>None\<close>.\<close>

definition option_from_value :: "'a serde \<Rightarrow> json \<Rightarrow> 'a option result" where
  "option_from_value d v =
     (if is_null v then Inr None
      else (case sd_from_value d v of Inl e \<Rightarrow> Inl e | Inr x \<Rightarrow> Inr (Some x)))"

text \<open>\<open>backoff_factor\<close> is the bit pattern of an \<open>f64\<close>.\<close>

record step_options =
  sto_name :: string
  sto_max_retries :: nat
  sto_backoff_factor :: "64 word"
  sto_base_interval :: duration
  sto_max_interval :: duration
  sto_retry_if :: "(error \<Rightarrow> bool) option"

definition step_options_new :: "string \<Rightarrow> step_options" where
  "step_options_new name =
     \<lparr> sto_name = name, sto_max_retries = 0, sto_backoff_factor = 0x4000000000000000,
       sto_base_interval = from_millis 100, sto_max_interval = from_secs 5, sto_retry_if = None \<rparr>"

definition step_max_retries :: "nat \<Rightarrow> step_options \<Rightarrow> step_options" where
  "step_max_retries n o' = o' \<lparr> sto_max_retries := n \<rparr>"

definition step_backoff_factor :: "64 word \<Rightarrow> step_options \<Rightarrow> step_options" where
  "step_backoff_factor f o' = o' \<lparr> sto_backoff_factor := f \<rparr>"

definition step_base_interval :: "duration \<Rightarrow> step_options \<Rightarrow> step_options" where
  "step_base_interval d o' = o' \<lparr> sto_base_interval := d \<rparr>"

definition step_max_interval :: "duration \<Rightarrow> step_options \<Rightarrow> step_options" where
  "step_max_interval d o' = o' \<lparr> sto_max_interval := d \<rparr>"

definition step_retry_if :: "(error \<Rightarrow> bool) \<Rightarrow> step_options \<Rightarrow> step_options" where
  "step_retry_if p o' = o' \<lparr> sto_retry_if := Some p \<rparr>"

record auth_context =
  ac_authenticated_user :: "string option"
  ac_assumed_role :: "string option"
  ac_authenticated_roles :: "string list"

definition auth_from_status :: "workflow_status \<Rightarrow> auth_context" where
  "auth_from_status s =
     \<lparr> ac_authenticated_user = ws_authenticated_user s, ac_assumed_role = ws_assumed_role s,
       ac_authenticated_roles = ws_authenticated_roles s \<rparr>"

definition auth_is_empty :: "auth_context \<Rightarrow> bool" where
  "auth_is_empty a \<longleftrightarrow>
     ac_authenticated_user a = None \<and> ac_assumed_role a = None \<and> ac_authenticated_roles a = []"

section \<open>The context\<close>

text \<open>
  The parameters of a running workflow. \<open>cx_backoff base factor attempt\<close> is
  \<open>Duration::from_secs_f64(base.as_secs_f64() * factor.powi(attempt))\<close>, which panics on a value out
  of range; \<open>cx_from_std\<close> is \<open>chrono::Duration::from_std\<close>; \<open>cx_instant\<close> and \<open>cx_string\<close> are the serde
  forms of an instant and a string, and \<open>cx_random\<close> that of the float \<open>n / 2^48\<close>, given by \<open>n\<close>;
  \<open>cx_uuid\<close> and \<open>cx_random_bytes\<close> are fresh identifiers and their bytes.
\<close>

record 's ctx_env =
  cx_provider :: "'s provider"
  cx_workflow_id :: string
  cx_auth :: auth_context
  cx_codec :: codec_env
  cx_clock :: "nat \<Rightarrow> datetime"
  cx_uuid :: "nat \<Rightarrow> string"
  cx_environment :: "nat \<Rightarrow> 's \<Rightarrow> 's"
  cx_backoff :: "duration \<Rightarrow> 64 word \<Rightarrow> nat \<Rightarrow> duration option"
  cx_from_std :: "duration \<Rightarrow> int option"
  cx_instant :: "datetime serde"
  cx_string :: "string serde"
  cx_random_bytes :: "nat \<Rightarrow> 8 word list"
  cx_random :: "64 word serde"

record ('s, 'x) ctx_state =
  cs_store :: 's
  cs_world :: 'x
  cs_seq :: int
  cs_ticks :: nat
  cs_step_retries :: nat

type_synonym ('s, 'x, 'a) cop = "(('s, 'x) ctx_state, 'a) op"

text \<open>A provider call, a clock read, and a wait during which the environment acts.\<close>

definition prov :: "('s, 'a) op \<Rightarrow> ('s, 'x, 'a) cop" where
  "prov f s = (case f (cs_store s) of (r, st) \<Rightarrow> (r, s \<lparr> cs_store := st \<rparr>))"

definition with_now :: "'s ctx_env \<Rightarrow> (datetime \<Rightarrow> ('s, 'x, 'a) cop) \<Rightarrow> ('s, 'x, 'a) cop" where
  "with_now C k s = k (cx_clock C (cs_ticks s)) (s \<lparr> cs_ticks := Suc (cs_ticks s) \<rparr>)"

definition wait_env :: "'s ctx_env \<Rightarrow> ('s, 'x) ctx_state \<Rightarrow> ('s, 'x) ctx_state" where
  "wait_env C s =
     s \<lparr> cs_store := cx_environment C (cs_ticks s) (cs_store s), cs_ticks := Suc (cs_ticks s) \<rparr>"

definition next_seq :: "(int \<Rightarrow> ('s, 'x, 'a) cop) \<Rightarrow> ('s, 'x, 'a) cop" where
  "next_seq k s = k (cs_seq s) (s \<lparr> cs_seq := i32_wrap (cs_seq s + 1) \<rparr>)"

definition outcome_value :: "'a serde \<Rightarrow> step_outcome \<Rightarrow> 'a result" where
  "outcome_value d out =
     (case into_value_result out of Inl e \<Rightarrow> Inl e | Inr v \<Rightarrow> sd_from_value d v)"

definition replay_or_guard ::
    "'s ctx_env \<Rightarrow> (json \<Rightarrow> 'a result) \<Rightarrow> int \<Rightarrow> string \<Rightarrow> ('s, 'x, 'a option) cop" where
  "replay_or_guard C from_value seq expected =
     and_then (prov (pv_get_step_result (cx_provider C) (cx_workflow_id C) seq))
     (\<lambda>rec. case rec of
        Some r \<Rightarrow>
          if rs_name r \<noteq> expected
          then fail (unexpected_step (cx_workflow_id C) seq expected (rs_name r))
          else lift_result
            (case into_value_result (rs_outcome r) of
               Inl e \<Rightarrow> Inl e
             | Inr v \<Rightarrow> (case from_value v of Inl e \<Rightarrow> Inl e | Inr x \<Rightarrow> Inr (Some x)))
      | None \<Rightarrow>
          and_then (prov (pv_get_workflow_status (cx_provider C) (cx_workflow_id C)))
          (\<lambda>st. case st of
             Some w \<Rightarrow> if ws_status w = STATUS_CANCELLED then fail (Cancelled (cx_workflow_id C)) else ok None
           | None \<Rightarrow> ok None))"

definition record_step ::
    "'s ctx_env \<Rightarrow> int \<Rightarrow> string \<Rightarrow> json \<Rightarrow> string option \<Rightarrow> int option \<Rightarrow> ('s, 'x, step_outcome) cop" where
  "record_step C seq name v err started =
     with_now C (\<lambda>now. prov
       (pv_record_step_result (cx_provider C) (cx_workflow_id C) seq name v err started now))"

definition checkpoint ::
    "'s ctx_env \<Rightarrow> 'a serde \<Rightarrow> int \<Rightarrow> string \<Rightarrow> 'a \<Rightarrow> int option \<Rightarrow> ('s, 'x, 'a) cop" where
  "checkpoint C d seq name result started =
     (case sd_to_value d result of
        Inl e \<Rightarrow> fail e
      | Inr j \<Rightarrow>
          and_then (record_step C seq name j None started) (\<lambda>out. lift_result (outcome_value d out)))"

definition record_failure ::
    "'s ctx_env \<Rightarrow> 'a serde \<Rightarrow> int \<Rightarrow> string \<Rightarrow> error \<Rightarrow> int option \<Rightarrow> ('s, 'x, 'a) cop" where
  "record_failure C d seq name err started =
     and_then (record_step C seq name JNull
       (Some (encode_error (cx_codec C) (pv_serializer (cx_provider C)) err)) started)
     (\<lambda>out. case out of
        Failure _ _ \<Rightarrow> fail err
      | Output v \<Rightarrow> lift_result (sd_from_value d v))"

section \<open>Steps\<close>

datatype 'a body_result = Returned "'a result" | Panicked panic_payload

type_synonym ('x, 'a) body = "'x \<Rightarrow> 'a body_result \<times> 'x"

definition run_step_catching :: "string \<Rightarrow> ('x, 'a) body \<Rightarrow> ('s, 'x, 'a) cop" where
  "run_step_catching name f s =
     (case f (cs_world s) of
        (Returned r, x) \<Rightarrow> (r, s \<lparr> cs_world := x \<rparr>)
      | (Panicked p, x) \<Rightarrow>
          (Inl (app (''step `'' @ name @ ''` panicked: '' @ panic_message p)), s \<lparr> cs_world := x \<rparr>))"

definition record_result ::
    "'s ctx_env \<Rightarrow> 'a serde \<Rightarrow> int \<Rightarrow> string \<Rightarrow> int \<Rightarrow> 'a result \<times> ('s, 'x) ctx_state
       \<Rightarrow> 'a result \<times> ('s, 'x) ctx_state" where
  "record_result C d seq name started rs =
     (case rs of
        (Inr v, s) \<Rightarrow> checkpoint C d seq name v (Some started) s
      | (Inl e, s) \<Rightarrow> record_failure C d seq name e (Some started) s)"

definition step :: "'s ctx_env \<Rightarrow> 'a serde \<Rightarrow> string \<Rightarrow> ('x, 'a) body \<Rightarrow> ('s, 'x, 'a) cop" where
  "step C d name f =
     next_seq (\<lambda>seq.
       and_then (replay_or_guard C (sd_from_value d) seq name)
       (\<lambda>stored. case stored of
          Some v \<Rightarrow> ok v
        | None \<Rightarrow> with_now C (\<lambda>started s.
            record_result C d seq name (timestamp_millis started) (run_step_catching name f s))))"

text \<open>
  The retry loop. A backoff that is no duration panics outside the caught body and unwinds the
  workflow.
\<close>

function retry_loop ::
    "'s ctx_env \<Rightarrow> step_options \<Rightarrow> ('x, 'a) body \<Rightarrow> nat \<Rightarrow> ('s, 'x) ctx_state
       \<Rightarrow> 'a body_result \<times> ('s, 'x) ctx_state" where
  "retry_loop C opts f attempt s =
     (case run_step_catching (sto_name opts) f s of
        (Inr v, s1) \<Rightarrow> (Returned (Inr v), s1)
      | (Inl e, s1) \<Rightarrow>
          if \<not> is_none_or (\<lambda>p. p e) (sto_retry_if opts) \<or> attempt \<ge> sto_max_retries opts
          then (Returned (Inl e), s1)
          else
            (case cx_backoff C (sto_base_interval opts) (sto_backoff_factor opts) attempt of
               None \<Rightarrow> (Panicked (Panic_Text
                 ''cannot convert float seconds to Duration: value is either too big or NaN''), s1)
             | Some _ \<Rightarrow>
                 retry_loop C opts f (Suc attempt)
                   (wait_env C (s1 \<lparr> cs_step_retries := Suc (cs_step_retries s1) \<rparr>))))"
  by pat_completeness auto

termination
  by (relation "measure (\<lambda>(C, opts, f, attempt, s). sto_max_retries opts - attempt)") auto

declare retry_loop.simps [simp del]

definition run_with_retries ::
    "'s ctx_env \<Rightarrow> step_options \<Rightarrow> ('x, 'a) body \<Rightarrow> ('s, 'x) ctx_state
       \<Rightarrow> 'a body_result \<times> ('s, 'x) ctx_state" where
  "run_with_retries C opts f s = retry_loop C opts f 0 s"

definition step_with ::
    "'s ctx_env \<Rightarrow> 'a serde \<Rightarrow> step_options \<Rightarrow> ('x, 'a) body \<Rightarrow> ('s, 'x) ctx_state
       \<Rightarrow> 'a body_result \<times> ('s, 'x) ctx_state" where
  "step_with C d opts f s =
     (let seq = cs_seq s; s0 = s \<lparr> cs_seq := i32_wrap (cs_seq s + 1) \<rparr> in
      case replay_or_guard C (sd_from_value d) seq (sto_name opts) s0 of
        (Inl e, s1) \<Rightarrow> (Returned (Inl e), s1)
      | (Inr (Some v), s1) \<Rightarrow> (Returned (Inr v), s1)
      | (Inr None, s1) \<Rightarrow>
          let started = timestamp_millis (cx_clock C (cs_ticks s1));
              s2 = s1 \<lparr> cs_ticks := Suc (cs_ticks s1) \<rparr>
          in (case run_with_retries C opts f s2 of
                (Panicked p, s3) \<Rightarrow> (Panicked p, s3)
              | (Returned r, s3) \<Rightarrow>
                  (case record_result C d seq (sto_name opts) started (r, s3) of
                     (r', s4) \<Rightarrow> (Returned r', s4))))"

section \<open>Durable values and sleep\<close>

text \<open>The record-or-replay shape shared by timers and by clock, random and identifier reads.\<close>

definition replay_value ::
    "'s ctx_env \<Rightarrow> 'a serde \<Rightarrow> int \<Rightarrow> string \<Rightarrow> recorded_step \<Rightarrow> ('s, 'x, 'a) cop" where
  "replay_value C d seq name r =
     (if rs_name r \<noteq> name
      then fail (unexpected_step (cx_workflow_id C) seq name (rs_name r))
      else lift_result (outcome_value d (rs_outcome r)))"

definition durable_wake_at :: "'s ctx_env \<Rightarrow> int \<Rightarrow> duration \<Rightarrow> ('s, 'x, datetime) cop" where
  "durable_wake_at C seq dur =
     and_then (prov (pv_get_step_result (cx_provider C) (cx_workflow_id C) seq))
     (\<lambda>rec. case rec of
        Some r \<Rightarrow> replay_value C (cx_instant C) seq ''DBOS.sleep'' r
      | None \<Rightarrow> with_now C (\<lambda>now.
          checkpoint C (cx_instant C) seq ''DBOS.sleep'' (now + unwrap_or (cx_from_std C dur) 0) None))"

text \<open>A positive remaining time is slept through, while the environment acts.\<close>

definition sleep :: "'s ctx_env \<Rightarrow> duration \<Rightarrow> ('s, 'x, unit) cop" where
  "sleep C dur =
     next_seq (\<lambda>seq.
       and_then (durable_wake_at C seq dur)
       (\<lambda>wake_at. with_now C (\<lambda>now s.
          ok () (if wake_at > now then wait_env C s else s))))"

definition durable_value ::
    "'s ctx_env \<Rightarrow> 'a serde \<Rightarrow> string \<Rightarrow> (('s, 'x) ctx_state \<Rightarrow> 'a \<times> ('s, 'x) ctx_state) \<Rightarrow> ('s, 'x, 'a) cop" where
  "durable_value C d name produce =
     next_seq (\<lambda>seq.
       and_then (prov (pv_get_step_result (cx_provider C) (cx_workflow_id C) seq))
       (\<lambda>rec. case rec of
          Some r \<Rightarrow> replay_value C d seq name r
        | None \<Rightarrow> (\<lambda>s. case produce s of (v, s1) \<Rightarrow> checkpoint C d seq name v None s1)))"

text \<open>Fresh readings of the clock and of the identifier source.\<close>

definition draw :: "(nat \<Rightarrow> 'a) \<Rightarrow> ('s, 'x) ctx_state \<Rightarrow> 'a \<times> ('s, 'x) ctx_state" where
  "draw f s = (f (cs_ticks s), s \<lparr> cs_ticks := Suc (cs_ticks s) \<rparr>)"

definition now_op :: "'s ctx_env \<Rightarrow> ('s, 'x, datetime) cop" where
  "now_op C = durable_value C (cx_instant C) ''DBOS.now'' (draw (cx_clock C))"

definition uuid_op :: "'s ctx_env \<Rightarrow> ('s, 'x, string) cop" where
  "uuid_op C = durable_value C (cx_string C) ''DBOS.uuid'' (draw (cx_uuid C))"

definition random_bits :: "8 word list \<Rightarrow> 64 word" where
  "random_bits b = foldl (\<lambda>acc i. push_bit 8 acc OR ucast (b ! i)) 0 [0 ..< 6]"

definition random_op :: "'s ctx_env \<Rightarrow> ('s, 'x, 64 word) cop" where
  "random_op C =
     durable_value C (cx_random C) ''DBOS.random'' (draw (\<lambda>n. random_bits (cx_random_bytes C n)))"

section \<open>Messages, events and streams\<close>

text \<open>The effect of an operation whose recorded value is null.\<close>

definition record_null :: "'s ctx_env \<Rightarrow> int \<Rightarrow> string \<Rightarrow> ('s, 'x, unit) cop" where
  "record_null C seq name = and_then (record_step C seq name JNull None None) (\<lambda>_. ok ())"

definition send :: "'s ctx_env \<Rightarrow> string \<Rightarrow> json result \<Rightarrow> string \<Rightarrow> ('s, 'x, unit) cop" where
  "send C destination_id message topic =
     next_seq (\<lambda>seq.
       and_then (replay_or_guard C Inr seq ''DBOS.send'')
       (\<lambda>stored. case stored of
          Some _ \<Rightarrow> ok ()
        | None \<Rightarrow>
            (case message of
               Inl e \<Rightarrow> fail e
             | Inr m \<Rightarrow>
                 and_then (\<lambda>s. with_now C (\<lambda>now. prov (pv_insert_notification (cx_provider C)
                    destination_id topic m None (cx_uuid C (cs_ticks s)) now)) s)
                 (\<lambda>_. record_null C seq ''DBOS.send''))))"

definition set_event :: "'s ctx_env \<Rightarrow> string \<Rightarrow> json result \<Rightarrow> ('s, 'x, unit) cop" where
  "set_event C key v =
     next_seq (\<lambda>seq.
       and_then (replay_or_guard C Inr seq ''DBOS.setEvent'')
       (\<lambda>stored. case stored of
          Some _ \<Rightarrow> ok ()
        | None \<Rightarrow>
            (case v of
               Inl e \<Rightarrow> fail e
             | Inr j \<Rightarrow>
                 and_then (prov (pv_upsert_event (cx_provider C) (cx_workflow_id C) key j))
                 (\<lambda>_. record_null C seq ''DBOS.setEvent''))))"

definition ctx_write_stream :: "'s ctx_env \<Rightarrow> string \<Rightarrow> json result \<Rightarrow> ('s, 'x, unit) cop" where
  "ctx_write_stream C key v =
     next_seq (\<lambda>seq.
       and_then (replay_or_guard C Inr seq ''DBOS.writeStream'')
       (\<lambda>stored. case stored of
          Some _ \<Rightarrow> ok ()
        | None \<Rightarrow>
            (case v of
               Inl e \<Rightarrow> fail e
             | Inr j \<Rightarrow>
                 and_then (prov (pv_write_stream (cx_provider C) (cx_workflow_id C) key (Some j) seq))
                 (\<lambda>_. record_null C seq ''DBOS.writeStream''))))"

definition close_stream :: "'s ctx_env \<Rightarrow> string \<Rightarrow> ('s, 'x, unit) cop" where
  "close_stream C key =
     next_seq (\<lambda>seq.
       and_then (replay_or_guard C Inr seq ''DBOS.closeStream'')
       (\<lambda>stored. case stored of
          Some _ \<Rightarrow> ok ()
        | None \<Rightarrow>
            and_then (prov (pv_write_stream (cx_provider C) (cx_workflow_id C) key None seq))
            (\<lambda>_. record_null C seq ''DBOS.closeStream'')))"

text \<open>
  The waiting loops. \<open>try_take\<close> is the attempt at the head of the loop; the deadline is fixed on the
  first miss. A loop that is still waiting when the fuel runs out has no result.
\<close>

fun wait_loop ::
    "'s ctx_env \<Rightarrow> ('s, 'x, 'a option) cop \<Rightarrow> int \<Rightarrow> int \<Rightarrow> string \<Rightarrow> duration \<Rightarrow> nat
       \<Rightarrow> datetime option \<Rightarrow> ('s, 'x) ctx_state \<Rightarrow> ('a option result \<times> ('s, 'x) ctx_state) option" where
  "wait_loop C try_take seq dseq name timeout 0 dl s = None"
| "wait_loop C try_take seq dseq name timeout (Suc fuel) dl s =
     (case try_take s of
        (Inl e, s1) \<Rightarrow> Some (Inl e, s1)
      | (Inr (Some v), s1) \<Rightarrow> Some (Inr (Some v), s1)
      | (Inr None, s1) \<Rightarrow>
          (case (case dl of Some d \<Rightarrow> (Inr d, s1) | None \<Rightarrow> durable_wake_at C dseq timeout s1) of
             (Inl e, s2) \<Rightarrow> Some (Inl e, s2)
           | (Inr d, s2) \<Rightarrow>
               (let now = cx_clock C (cs_ticks s2); s3 = s2 \<lparr> cs_ticks := Suc (cs_ticks s2) \<rparr> in
                if now \<ge> d
                then Some (and_then (record_null C seq name) (\<lambda>_. ok None) s3)
                else wait_loop C try_take seq dseq name timeout fuel (Some d) (wait_env C s3))))"

declare wait_loop.simps(2) [simp del]

definition waiting_op ::
    "'s ctx_env \<Rightarrow> 'a serde \<Rightarrow> (int \<Rightarrow> ('s, 'x, 'a option) cop) \<Rightarrow> string \<Rightarrow> duration \<Rightarrow> nat
       \<Rightarrow> ('s, 'x) ctx_state \<Rightarrow> ('a option result \<times> ('s, 'x) ctx_state) option" where
  "waiting_op C d try_take name timeout fuel s =
     (let seq = cs_seq s; dseq = i32_wrap (cs_seq s + 1);
          s0 = s \<lparr> cs_seq := i32_wrap (i32_wrap (cs_seq s + 1) + 1) \<rparr>
      in case replay_or_guard C (option_from_value d) seq name s0 of
           (Inl e, s1) \<Rightarrow> Some (Inl e, s1)
         | (Inr (Some stored), s1) \<Rightarrow> Some (Inr stored, s1)
         | (Inr None, s1) \<Rightarrow> wait_loop C (try_take seq) seq dseq name timeout fuel None s1)"

definition take_message ::
    "'s ctx_env \<Rightarrow> 'a serde \<Rightarrow> string \<Rightarrow> int \<Rightarrow> ('s, 'x, 'a option) cop" where
  "take_message C d topic seq =
     and_then (prov (pv_consume_notification (cx_provider C) (cx_workflow_id C) topic seq ''DBOS.recv''))
     (\<lambda>m. case m of
        None \<Rightarrow> ok None
      | Some v \<Rightarrow> lift_result (case sd_from_value d v of Inl e \<Rightarrow> Inl e | Inr x \<Rightarrow> Inr (Some x)))"

definition recv ::
    "'s ctx_env \<Rightarrow> 'a serde \<Rightarrow> string \<Rightarrow> duration \<Rightarrow> nat \<Rightarrow> ('s, 'x) ctx_state
       \<Rightarrow> ('a option result \<times> ('s, 'x) ctx_state) option" where
  "recv C d topic timeout fuel = waiting_op C d (take_message C d topic) ''DBOS.recv'' timeout fuel"

definition observe_event ::
    "'s ctx_env \<Rightarrow> 'a serde \<Rightarrow> string \<Rightarrow> string \<Rightarrow> int \<Rightarrow> ('s, 'x, 'a option) cop" where
  "observe_event C d target key seq =
     and_then (prov (pv_get_event_value (cx_provider C) target key))
     (\<lambda>ev. case ev of
        None \<Rightarrow> ok None
      | Some v \<Rightarrow>
          and_then (record_step C seq ''DBOS.getEvent'' v None None)
          (\<lambda>out. lift_result (case outcome_value d out of Inl e \<Rightarrow> Inl e | Inr x \<Rightarrow> Inr (Some x))))"

definition get_event ::
    "'s ctx_env \<Rightarrow> 'a serde \<Rightarrow> string \<Rightarrow> string \<Rightarrow> duration \<Rightarrow> nat \<Rightarrow> ('s, 'x) ctx_state
       \<Rightarrow> ('a option result \<times> ('s, 'x) ctx_state) option" where
  "get_event C d target key timeout fuel =
     waiting_op C d (observe_event C d target key) ''DBOS.getEvent'' timeout fuel"

section \<open>Patches\<close>

definition PATCH_PREFIX :: string where
  "PATCH_PREFIX = ''DBOS.patch-''"

definition patch :: "'s ctx_env \<Rightarrow> string \<Rightarrow> ('s, 'x, bool) cop" where
  "patch C name s =
     (let seq = cs_seq s; marker = PATCH_PREFIX @ name;
          advance = (\<lambda>s. ok True (s \<lparr> cs_seq := i32_wrap (cs_seq s + 1) \<rparr>))
      in and_then (prov (pv_get_step_name (cx_provider C) (cx_workflow_id C) seq))
         (\<lambda>n. case n of
            None \<Rightarrow> and_then (prov (pv_record_patch (cx_provider C) (cx_workflow_id C) seq marker))
              (\<lambda>_. advance)
          | Some recorded \<Rightarrow> if recorded = marker then advance else ok False) s)"

definition deprecate_patch :: "'s ctx_env \<Rightarrow> string \<Rightarrow> ('s, 'x, unit) cop" where
  "deprecate_patch C name s =
     (let seq = cs_seq s in
      and_then (prov (pv_get_step_name (cx_provider C) (cx_workflow_id C) seq))
      (\<lambda>n. if n = Some (PATCH_PREFIX @ name)
           then (\<lambda>s. ok () (s \<lparr> cs_seq := i32_wrap (cs_seq s + 1) \<rparr>))
           else ok ()) s)"

end
