(* ===== verification/Replay.thy ===== *)
theory Replay
  imports Context
begin

text \<open>
  Replay after a crash. A workflow body is a program of durable operations; a crash loses everything
  but the store, and recovery runs the body again from the start. The contract of the storage
  interface that makes this work is the locale \<open>step_store\<close>: a checkpoint, once written, is what every
  later read and write at its position returns. From it follow what a step does at a fresh, a recorded
  and a diverging position, and that the second run fast-forwards to the point of the crash.
\<close>

section \<open>Workflow bodies\<close>

text \<open>
  The operations whose outcome is always checkpointed. \<open>Do_Value\<close> stands for the clock, identifier
  and random reads. A body is a tree: after each operation it goes on with the outcome.
\<close>

datatype 'x wf_op =
    Do_Step string "('x, json) body"
  | Do_Step_With step_options "('x, json) body"
  | Do_Value string "'x \<Rightarrow> json \<times> 'x"

datatype 'x wf_body =
    Finish "json result"
  | Await "'x wf_op" "json result \<Rightarrow> 'x wf_body"

fun op_name :: "'x wf_op \<Rightarrow> string" where
  "op_name (Do_Step name f) = name"
| "op_name (Do_Step_With opts f) = sto_name opts"
| "op_name (Do_Value name h) = name"

fun exec_op :: "'s ctx_env \<Rightarrow> 'x wf_op \<Rightarrow> ('s, 'x) ctx_state \<Rightarrow> json body_result \<times> ('s, 'x) ctx_state" where
  "exec_op C (Do_Step name f) s = map_prod Returned id (step C json_serde name f s)"
| "exec_op C (Do_Step_With opts f) s = step_with C json_serde opts f s"
| "exec_op C (Do_Value name h) s = map_prod Returned id (durable_value C json_serde name
     (\<lambda>s. map_prod id (\<lambda>x. s \<lparr> cs_world := x \<rparr>) (h (cs_world s))) s)"

primrec run_body ::
    "'s ctx_env \<Rightarrow> 'x wf_body \<Rightarrow> ('s, 'x) ctx_state \<Rightarrow> json body_result \<times> ('s, 'x) ctx_state" where
  "run_body C (Finish r) s = (Returned r, s)"
| "run_body C (Await a k) s =
     (case exec_op C a s of
        (Panicked p, s1) \<Rightarrow> (Panicked p, s1)
      | (Returned r, s1) \<Rightarrow> run_body C (k r) s1)"

text \<open>The body after its first \<open>n\<close> operations, with the state reached.\<close>

fun run_ops ::
    "'s ctx_env \<Rightarrow> nat \<Rightarrow> 'x wf_body \<Rightarrow> ('s, 'x) ctx_state \<Rightarrow> ('x wf_body \<times> ('s, 'x) ctx_state) option" where
  "run_ops C 0 p s = Some (p, s)"
| "run_ops C (Suc n) (Finish r) s = None"
| "run_ops C (Suc n) (Await a k) s =
     (case exec_op C a s of
        (Panicked p, s1) \<Rightarrow> None
      | (Returned r, s1) \<Rightarrow> run_ops C n (k r) s1)"

lemma run_ops_run_body: "run_ops C n p s = Some (p', s') \<Longrightarrow> run_body C p s = run_body C p' s'"
  by (induction C n p s rule: run_ops.induct) (auto split: prod.splits body_result.splits)

lemma cs_seq_same: "cs_seq t = q \<Longrightarrow> t \<lparr> cs_seq := q \<rparr> = t"
  by (cases t) simp

text \<open>What a caught body returns, and the bodies all of whose errors satisfy \<open>pl\<close>.\<close>

definition caught :: "string \<Rightarrow> 'a body_result \<Rightarrow> 'a result" where
  "caught name b =
     (case b of
        Returned r \<Rightarrow> r
      | Panicked p \<Rightarrow> Inl (app (''step `'' @ name @ ''` panicked: '' @ panic_message p)))"

lemma run_step_catching_eq:
  "run_step_catching name f s = (caught name (fst (f (cs_world s))), s \<lparr> cs_world := snd (f (cs_world s)) \<rparr>)"
  by (auto simp: run_step_catching_def caught_def split: prod.splits body_result.splits)

definition plain_body :: "(error \<Rightarrow> bool) \<Rightarrow> string \<Rightarrow> ('x, json) body \<Rightarrow> bool" where
  "plain_body pl name f \<longleftrightarrow> (\<forall>x e. caught name (fst (f x)) = Inl e \<longrightarrow> pl e)"

primrec plain_op :: "(error \<Rightarrow> bool) \<Rightarrow> 'x wf_op \<Rightarrow> bool" where
  "plain_op pl (Do_Step name f) = plain_body pl name f"
| "plain_op pl (Do_Step_With opts f) = plain_body pl (sto_name opts) f"
| "plain_op pl (Do_Value name h) = True"

primrec plain_wf :: "(error \<Rightarrow> bool) \<Rightarrow> 'x wf_body \<Rightarrow> bool" where
  "plain_wf pl (Finish r) = True"
| "plain_wf pl (Await a k) = (plain_op pl a \<and> (\<forall>r. plain_wf pl (k r)))"

lemma retry_loop_error:
  "plain_body pl (sto_name opts) f \<Longrightarrow> retry_loop C opts f n s = (Returned (Inl e), s') \<Longrightarrow> pl e"
proof (induction C opts f n s rule: retry_loop.induct)
  case (1 C opts f attempt s)
  then show ?case
    by (subst (asm) retry_loop.simps [of C opts f attempt s])
       (auto simp: run_step_catching_eq plain_body_def split: sum.splits if_splits option.splits)
qed

section \<open>The contract of the step store\<close>

text \<open>
  \<open>steps_of\<close> observes the checkpoints of one workflow, \<open>active\<close> that it is not cancelled; \<open>recorded\<close> is
  the outcome read back for a written value or error text.
\<close>

locale step_store =
  fixes P :: "'s provider" and wid :: string
    and steps_of :: "'s \<Rightarrow> int \<Rightarrow> recorded_step option"
    and active :: "'s \<Rightarrow> bool"
    and recorded :: "json \<Rightarrow> string option \<Rightarrow> step_outcome"
  assumes get_step: "pv_get_step_result P wid i st = (Inr (steps_of st i), st)"
    and get_status: "\<exists>w. pv_get_workflow_status P wid st = (Inr w, st) \<and>
      (active st \<longleftrightarrow> (\<forall>r. w = Some r \<longrightarrow> ws_status r \<noteq> STATUS_CANCELLED))"
    and record_fresh: "steps_of st i = None \<Longrightarrow>
      \<exists>st'. pv_record_step_result P wid i name v err t now st = (Inr (recorded v err), st') \<and>
        steps_of st' = (steps_of st)(i := Some \<lparr> rs_name = name, rs_outcome = recorded v err \<rparr>) \<and>
        active st' = active st"
    and record_kept: "steps_of st i = Some r \<Longrightarrow>
      pv_record_step_result P wid i name v err t now st = (Inr (rs_outcome r), st)"
    and recorded_output: "recorded v None = Output v"
    and recorded_failure: "\<exists>m info. recorded v (Some txt) = Failure m info"
begin

text \<open>The checkpoint of a result, and the errors a replay reconstructs exactly.\<close>

definition outcome_of :: "'s ctx_env \<Rightarrow> json result \<Rightarrow> step_outcome" where
  "outcome_of C r =
     (case r of
        Inr v \<Rightarrow> recorded v None
      | Inl e \<Rightarrow> recorded JNull (Some (encode_error (cx_codec C) (pv_serializer P) e)))"

definition stable :: "'s ctx_env \<Rightarrow> error \<Rightarrow> bool" where
  "stable C e \<longleftrightarrow> into_value_result (outcome_of C (Inl e)) = Inl e"

definition uses :: "'s ctx_env \<Rightarrow> bool" where
  "uses C \<longleftrightarrow> cx_provider C = P \<and> cx_workflow_id C = wid"

definition serves :: "'s ctx_env \<Rightarrow> bool" where
  "serves C \<longleftrightarrow> uses C \<and>
     (\<forall>n st. steps_of (cx_environment C n st) = steps_of st \<and> active (cx_environment C n st) = active st)"

lemma serves_uses: "serves C \<Longrightarrow> uses C"
  by (simp add: serves_def)

lemma uses_provider: "uses C \<Longrightarrow> cx_provider C = P \<and> cx_workflow_id C = wid"
  by (simp add: uses_def)

lemma guard_fresh:
  assumes "uses C" "steps_of (cs_store s) i = None"
  shows "replay_or_guard C fv i name s = (if active (cs_store s) then Inr None else Inl (Cancelled wid), s)"
proof -
  obtain w where w: "pv_get_workflow_status P wid (cs_store s) = (Inr w, cs_store s)"
    "active (cs_store s) \<longleftrightarrow> (\<forall>r. w = Some r \<longrightarrow> ws_status r \<noteq> STATUS_CANCELLED)"
    using get_status by blast
  show ?thesis
    using w(1) assms(2) uses_provider [OF assms(1)]
    by (cases w) (auto simp: w(2) replay_or_guard_def and_then_def prov_def get_step)
qed

lemma guard_recorded:
  assumes "uses C" "steps_of (cs_store s) i = Some r"
  shows "replay_or_guard C fv i name s =
    (if rs_name r \<noteq> name then Inl (unexpected_step wid i name (rs_name r))
     else (case into_value_result (rs_outcome r) of
             Inl e \<Rightarrow> Inl e | Inr v \<Rightarrow> (case fv v of Inl e \<Rightarrow> Inl e | Inr x \<Rightarrow> Inr (Some x))), s)"
  using assms(2) uses_provider [OF assms(1)]
  by (auto simp: replay_or_guard_def and_then_def prov_def get_step)

lemma record_step_fresh:
  assumes "uses C" "steps_of (cs_store s) i = None"
  shows "\<exists>s'. record_step C i name v err t s = (Inr (recorded v err), s') \<and>
    steps_of (cs_store s') = (steps_of (cs_store s))(i := Some \<lparr> rs_name = name, rs_outcome = recorded v err \<rparr>) \<and>
    active (cs_store s') = active (cs_store s) \<and> cs_world s' = cs_world s \<and> cs_seq s' = cs_seq s"
proof -
  obtain st' where st': "pv_record_step_result P wid i name v err t (cx_clock C (cs_ticks s)) (cs_store s) =
      (Inr (recorded v err), st')"
    "steps_of st' = (steps_of (cs_store s))(i := Some \<lparr> rs_name = name, rs_outcome = recorded v err \<rparr>)"
    "active st' = active (cs_store s)"
    using record_fresh [OF assms(2)] by blast
  then show ?thesis
    using uses_provider [OF assms(1)] by (simp add: record_step_def with_now_def prov_def)
qed

lemma record_result_fresh:
  assumes "uses C" "steps_of (cs_store s) i = None"
  shows "\<exists>s'. record_result C json_serde i name t (r, s) = (r, s') \<and>
    steps_of (cs_store s') = (steps_of (cs_store s))(i := Some \<lparr> rs_name = name, rs_outcome = outcome_of C r \<rparr>) \<and>
    active (cs_store s') = active (cs_store s) \<and> cs_world s' = cs_world s \<and> cs_seq s' = cs_seq s"
proof (cases r)
  case (Inl e)
  let ?txt = "encode_error (cx_codec C) (pv_serializer P) e"
  obtain m info where f: "recorded JNull (Some ?txt) = Failure m info" using recorded_failure by blast
  show ?thesis
    using record_step_fresh [OF assms, of name JNull "Some ?txt" "Some t"] uses_provider [OF assms(1)]
    by (auto simp: Inl record_result_def record_failure_def outcome_of_def and_then_def f)
next
  case (Inr v)
  show ?thesis
    using record_step_fresh [OF assms, of name v None "Some t"]
    by (auto simp: Inr record_result_def checkpoint_def outcome_of_def and_then_def json_serde_def
      outcome_value_def recorded_output)
qed

lemma retry_loop_keeps:
  "retry_loop C opts f n s = (b, s') \<Longrightarrow> serves C \<Longrightarrow>
     steps_of (cs_store s') = steps_of (cs_store s) \<and> active (cs_store s') = active (cs_store s) \<and>
     cs_seq s' = cs_seq s"
proof (induction C opts f n s rule: retry_loop.induct)
  case (1 C opts f attempt s)
  have "serves C \<Longrightarrow> steps_of (cx_environment C k st) = steps_of st \<and>
      active (cx_environment C k st) = active st" for k st
    by (simp add: serves_def)
  with 1 show ?case
    by (subst (asm) retry_loop.simps [of C opts f attempt s])
       (auto simp: run_step_catching_eq wait_env_def split: sum.splits if_splits option.splits)
qed

text \<open>An operation at a fresh position runs and checkpoints its result; at a recorded one it replays.\<close>

lemma exec_fresh:
  assumes "serves C" "steps_of (cs_store s) (cs_seq s) = None"
    and "active (cs_store s)" "exec_op C a s = (Returned r, s')"
  shows "\<exists>out. steps_of (cs_store s') =
      (steps_of (cs_store s))(cs_seq s := Some \<lparr> rs_name = op_name a, rs_outcome = out \<rparr>) \<and>
    (plain_op (stable C) a \<longrightarrow> into_value_result out = r) \<and> active (cs_store s') \<and> cs_seq s' = i32_wrap (cs_seq s + 1)"
proof -
  note u = serves_uses [OF assms(1)]
  let ?s0 = "s \<lparr> cs_seq := i32_wrap (cs_seq s + 1) \<rparr>"
  let ?s1 = "?s0 \<lparr> cs_ticks := Suc (cs_ticks s) \<rparr>"
  have g: "replay_or_guard C fv (cs_seq s) name ?s0 = (Inr None, ?s0)" for fv :: "json \<Rightarrow> json result" and name
    using guard_fresh [OF u, of ?s0] assms(2,3) by simp
  have stable_ok: "into_value_result (outcome_of C r) = r" if "\<And>e. r = Inl e \<Longrightarrow> stable C e"
    using that by (cases r) (auto simp: stable_def outcome_of_def recorded_output)
  show ?thesis
  proof (cases a)
    case (Do_Step name f)
    let ?s2 = "?s1 \<lparr> cs_world := snd (f (cs_world s)) \<rparr>"
    let ?r = "caught name (fst (f (cs_world s)))" and ?t = "timestamp_millis (cx_clock C (cs_ticks s))"
    obtain s2 where s2: "record_result C json_serde (cs_seq s) name ?t (?r, ?s2) = (?r, s2)"
        "steps_of (cs_store s2) =
           (steps_of (cs_store s))(cs_seq s := Some \<lparr> rs_name = name, rs_outcome = outcome_of C ?r \<rparr>)"
        "active (cs_store s2)" "cs_seq s2 = i32_wrap (cs_seq s + 1)"
      using record_result_fresh [OF u, of ?s2 "cs_seq s" name ?t ?r] assms(2,3) by auto
    have "step C json_serde name f s = (?r, s2)"
      by (simp add: step_def next_seq_def and_then_Inr [where m = "replay_or_guard _ _ _ _", OF g]
        with_now_def run_step_catching_eq s2(1))
    then have "r = ?r" "s' = s2" using assms(4) by (auto simp: Do_Step)
    moreover have "stable C e" if "plain_op (stable C) a" "?r = Inl e" for e
      using that by (auto simp: Do_Step plain_body_def)
    ultimately show ?thesis using s2 stable_ok by (auto simp: Do_Step)
  next
    case (Do_Step_With opts f)
    then obtain b s2 where b: "retry_loop C opts f 0 ?s1 = (b, s2)" by fastforce
    have k: "steps_of (cs_store s2) = steps_of (cs_store s)" "active (cs_store s2)"
        "cs_seq s2 = i32_wrap (cs_seq s + 1)"
      using retry_loop_keeps [OF b assms(1)] assms(3) by simp_all
    obtain r0 where r0: "b = Returned r0"
        "map_prod Returned id (record_result C json_serde (cs_seq s) (sto_name opts)
          (timestamp_millis (cx_clock C (cs_ticks s))) (r0, s2)) = (Returned r, s')"
      using assms(4) b by (cases b) (auto simp: Do_Step_With step_with_def g run_with_retries_def Let_def
        split: prod.splits)
    have "stable C e" if "plain_op (stable C) a" "r0 = Inl e" for e
      using retry_loop_error [of "stable C" opts f C 0 ?s1 e s2] b r0(1) that by (simp add: Do_Step_With)
    moreover obtain s3 where "record_result C json_serde (cs_seq s) (sto_name opts)
          (timestamp_millis (cx_clock C (cs_ticks s))) (r0, s2) = (r0, s3)"
        "steps_of (cs_store s3) = (steps_of (cs_store s))
           (cs_seq s := Some \<lparr> rs_name = sto_name opts, rs_outcome = outcome_of C r0 \<rparr>)"
        "active (cs_store s3)" "cs_seq s3 = i32_wrap (cs_seq s + 1)"
      using record_result_fresh [OF u, of s2 "cs_seq s" "sto_name opts" _ r0] assms(2) k by auto
    ultimately show ?thesis using r0(2) stable_ok by (auto simp: Do_Step_With)
  next
    case (Do_Value name h)
    let ?s2 = "?s0 \<lparr> cs_world := snd (h (cs_world s)) \<rparr>"
    show ?thesis
      using record_step_fresh [OF u, of ?s2 "cs_seq s" name "fst (h (cs_world s))" None None] assms(2-4)
        uses_provider [OF u]
      by (auto simp: Do_Value durable_value_def next_seq_def and_then_def prov_def get_step checkpoint_def
        json_serde_def outcome_value_def recorded_output map_prod_def split: prod.splits)
  qed
qed

lemma exec_recorded:
  assumes "serves C" "steps_of (cs_store s) (cs_seq s) = Some \<lparr> rs_name = op_name a, rs_outcome = out \<rparr>"
  shows "exec_op C a s = (Returned (into_value_result out), s \<lparr> cs_seq := i32_wrap (cs_seq s + 1) \<rparr>)"
proof -
  note u = serves_uses [OF assms(1)]
  let ?s0 = "s \<lparr> cs_seq := i32_wrap (cs_seq s + 1) \<rparr>"
  have g: "replay_or_guard C Inr (cs_seq s) (op_name a) ?s0 =
      (case into_value_result out of Inl e \<Rightarrow> Inl e | Inr v \<Rightarrow> Inr (Some (v :: json)), ?s0)"
    using guard_recorded [OF u, of ?s0 "cs_seq s" _ "Inr :: json \<Rightarrow> json result" "op_name a"] assms(2)
    by (simp split: sum.splits)
  show ?thesis
    using g assms(2) uses_provider [OF u]
    by (cases a) (auto simp: step_def step_with_def next_seq_def and_then_def json_serde_def
      durable_value_def prov_def get_step replay_value_def outcome_value_def split: sum.splits)
qed

lemma run_ops_records:
  assumes "serves C" "plain_wf (stable C) p" "run_ops C n p s = Some (p', s')" "active (cs_store s)"
    and "0 \<le> cs_seq s" "cs_seq s + int n \<le> i32_max" "\<forall>i \<ge> cs_seq s. steps_of (cs_store s) i = None"
  shows "cs_seq s' = cs_seq s + int n \<and> active (cs_store s') \<and>
    (\<forall>i < cs_seq s. steps_of (cs_store s') i = steps_of (cs_store s) i) \<and>
    (\<forall>i \<ge> cs_seq s + int n. steps_of (cs_store s') i = None) \<and>
    (\<forall>t. (\<forall>i. cs_seq s \<le> i \<longrightarrow> i < cs_seq s + int n \<longrightarrow> steps_of (cs_store t) i = steps_of (cs_store s') i) \<longrightarrow>
       cs_seq t = cs_seq s \<longrightarrow> run_body C p t = run_body C p' (t \<lparr> cs_seq := cs_seq s' \<rparr>))"
  using assms(2-)
proof (induction n arbitrary: p s)
  case 0
  then show ?case by (auto simp: cs_seq_same)
next
  case (Suc n)
  then obtain a k where p: "p = Await a k" by (cases p) auto
  obtain r s1 where e: "exec_op C a s = (Returned r, s1)" "run_ops C n (k r) s1 = Some (p', s')"
    using Suc.prems(2) by (auto simp: p split: prod.splits body_result.splits)
  obtain out where out: "steps_of (cs_store s1) =
      (steps_of (cs_store s))(cs_seq s := Some \<lparr> rs_name = op_name a, rs_outcome = out \<rparr>)"
      "into_value_result out = r" "active (cs_store s1)" "cs_seq s1 = i32_wrap (cs_seq s + 1)"
    using exec_fresh [OF assms(1) _ _ e(1)] Suc.prems(1,3,6) by (auto simp: p)
  have w: "i32_wrap (cs_seq s + 1) = cs_seq s + 1"
    using Suc.prems(4,5) by (intro i32_wrap_id) (auto simp: i32_min_def)
  have IH: "cs_seq s' = cs_seq s1 + int n" "active (cs_store s')"
      "\<forall>i < cs_seq s1. steps_of (cs_store s') i = steps_of (cs_store s1) i"
      "\<forall>i \<ge> cs_seq s1 + int n. steps_of (cs_store s') i = None"
      "\<And>t. \<forall>i. cs_seq s1 \<le> i \<longrightarrow> i < cs_seq s1 + int n \<longrightarrow> steps_of (cs_store t) i = steps_of (cs_store s') i \<Longrightarrow>
         cs_seq t = cs_seq s1 \<Longrightarrow> run_body C (k r) t = run_body C p' (t \<lparr> cs_seq := cs_seq s' \<rparr>)"
    using Suc.IH [of "k r" s1] e(2) out Suc.prems w by (auto simp: p)
  have "run_body C p t = run_body C p' (t \<lparr> cs_seq := cs_seq s' \<rparr>)"
    if t: "\<forall>i. cs_seq s \<le> i \<longrightarrow> i < cs_seq s + int (Suc n) \<longrightarrow> steps_of (cs_store t) i = steps_of (cs_store s') i"
      "cs_seq t = cs_seq s" for t
  proof -
    have "steps_of (cs_store t) (cs_seq t) = Some \<lparr> rs_name = op_name a, rs_outcome = out \<rparr>"
      using t IH(3) out w by simp
    from exec_recorded [OF assms(1) this] show ?thesis
      using IH(5) [of "t \<lparr> cs_seq := cs_seq s1 \<rparr>"] t out w by (simp add: p)
  qed
  then show ?case using IH(1-4) out w by auto
qed

end

section \<open>The in-memory store keeps the contract\<close>

definition mem_steps :: "string \<Rightarrow> inner \<Rightarrow> int \<Rightarrow> recorded_step option" where
  "mem_steps wid g i =
     map_option (\<lambda>r. \<lparr> rs_name = sr_name r, rs_outcome = step_row_outcome r \<rparr>) (hm_get (steps g) (wid, i))"

definition mem_active :: "string \<Rightarrow> inner \<Rightarrow> bool" where
  "mem_active wid g \<longleftrightarrow> is_none_or (\<lambda>w. ws_status w \<noteq> STATUS_CANCELLED) (hm_get (workflows g) wid)"

definition mem_recorded :: "json \<Rightarrow> string option \<Rightarrow> step_outcome" where
  "mem_recorded v err = (case err of Some e \<Rightarrow> Failure e None | None \<Rightarrow> Output v)"

interpretation mem: step_store "memory_provider from_ms" wid "mem_steps wid" "mem_active wid" mem_recorded
  for from_ms wid
proof
  fix i st name v err t now r
  show "pv_get_step_result (memory_provider from_ms) wid i st = (Inr (mem_steps wid st i), st)"
    by (simp add: memory_provider_def get_step_result_def mem_steps_def)
  show "\<exists>w. pv_get_workflow_status (memory_provider from_ms) wid st = (Inr w, st) \<and>
      mem_active wid st = (\<forall>r. w = Some r \<longrightarrow> ws_status r \<noteq> STATUS_CANCELLED)"
    by (auto simp: memory_provider_def get_workflow_status_def mem_active_def is_none_or_def split: option.splits)
  show "\<exists>st'. pv_record_step_result (memory_provider from_ms) wid i name v err t now st =
        (Inr (mem_recorded v err), st') \<and>
      mem_steps wid st' = (mem_steps wid st)(i := Some \<lparr> rs_name = name, rs_outcome = mem_recorded v err \<rparr>) \<and>
      mem_active wid st' = mem_active wid st" if "mem_steps wid st i = None"
    using that
    by (auto simp: memory_provider_def record_step_result_def step_or_insert_def mem_steps_def mem_active_def
      mem_recorded_def step_row_outcome_def fun_eq_iff split: option.splits)
  show "pv_record_step_result (memory_provider from_ms) wid i name v err t now st = (Inr (rs_outcome r), st)"
    if "mem_steps wid st i = Some r"
    using that
    by (auto simp: memory_provider_def record_step_result_def step_or_insert_def mem_steps_def
      hm_or_insert_def hm_contains_def split: option.splits)
qed (auto simp: mem_recorded_def)

text \<open>In this store exactly the application errors without a source are read back as themselves.\<close>

definition plain_error :: "error \<Rightarrow> bool" where
  "plain_error e \<longleftrightarrow> e = app (to_string e)"

lemma mem_stable: "mem.stable from_ms C e \<longleftrightarrow> plain_error e"
  unfolding mem.stable_def mem.outcome_of_def
  by (auto simp: mem_recorded_def plain_error_def encode_error_def memory_provider_def)

lemma mem_serves:
  "cx_provider C = memory_provider from_ms \<Longrightarrow> cx_workflow_id C = wid \<Longrightarrow>
   \<forall>n g. mem_steps wid (cx_environment C n g) = mem_steps wid g \<and>
         mem_active wid (cx_environment C n g) = mem_active wid g \<Longrightarrow> mem.serves from_ms wid C"
  unfolding mem.serves_def mem.uses_def by simp

section \<open>Properties\<close>

definition wit_ctx :: "inner ctx_env" where
  "wit_ctx = \<lparr> cx_provider = memory_provider wit_from_ms, cx_workflow_id = ''c'',
     cx_auth = \<lparr> ac_authenticated_user = None, ac_assumed_role = None, ac_authenticated_roles = [] \<rparr>,
     cx_codec = plain_env JNull, cx_clock = (\<lambda>n. 1000000 * int n), cx_uuid = (\<lambda>n. ''u''),
     cx_environment = (\<lambda>n g. g), cx_backoff = (\<lambda>b f n. if n < 68 then Some b else None),
     cx_from_std = (\<lambda>d. Some (int d)),
     cx_instant = \<lparr> sd_to_value = \<lambda>t. Inr (JInt t),
       sd_from_value = \<lambda>v. case v of JInt t \<Rightarrow> Inr t | _ \<Rightarrow> Inl (Serde ''not an instant'') \<rparr>,
     cx_string = \<lparr> sd_to_value = \<lambda>t. Inr (JString t),
       sd_from_value = \<lambda>v. case v of JString t \<Rightarrow> Inr t | _ \<Rightarrow> Inl (Serde ''not a string'') \<rparr>,
     cx_random_bytes = (\<lambda>n. replicate 16 0),
     cx_random = \<lparr> sd_to_value = \<lambda>n. Inr (JInt (uint n)), sd_from_value = \<lambda>v. Inl (Serde ''not a float'') \<rparr> \<rparr>"

lemma wit_ctx_simps [simp]:
  "cx_provider wit_ctx = memory_provider wit_from_ms" "cx_workflow_id wit_ctx = ''c''"
  "cx_environment wit_ctx = (\<lambda>n g. g)" "cx_clock wit_ctx = (\<lambda>n. 1000000 * int n)"
  "cx_from_std wit_ctx = (\<lambda>d. Some (int d))"
  by (simp_all add: wit_ctx_def)

definition wit_state :: "inner \<Rightarrow> (inner, nat) ctx_state" where
  "wit_state g = \<lparr> cs_store = g, cs_world = 0, cs_seq = 0, cs_ticks = 0, cs_step_retries = 0 \<rparr>"

lemma wit_store_fresh [simp]: "mem_steps ''c'' wit_store i = None" "mem_active ''c'' wit_store"
proof -
  have "steps wit_store = []" by code_simp
  then show "mem_steps ''c'' wit_store i = None" by (simp add: mem_steps_def)
  show "mem_active ''c'' wit_store" by code_simp
qed

text \<open>A body of two steps that count their executions; the first one fails.\<close>

definition wit_body :: "nat wf_body" where
  "wit_body =
     Await (Do_Step ''charge'' (\<lambda>x. (Returned (Inl (app ''declined'')), x + 1)))
       (\<lambda>r. Await (Do_Value ''DBOS.uuid'' (\<lambda>x. (JInt (int x), x + 1))) (\<lambda>v. Finish v))"

text \<open>
  C1. A workflow that crashed after any number of operations recovers exactly: running the body again
  from the start on the surviving store gives the result, the final world and the final store of the
  run that was never interrupted. More: from any state whose store still has the checkpoints, whatever
  happened to the world, the clock and the other workflows in between, the second run is the rest of
  the first one; no operation completed before the crash is executed again. The errors of the steps
  are application errors, which are the ones this store reads back unchanged; the rest of the system
  leaves the workflow's own checkpoints and status alone.
\<close>

theorem crash_recovery:
  assumes "cx_provider C = memory_provider from_ms"
    and "\<forall>n g. mem_steps (cx_workflow_id C) (cx_environment C n g) = mem_steps (cx_workflow_id C) g \<and>
               mem_active (cx_workflow_id C) (cx_environment C n g) = mem_active (cx_workflow_id C) g"
    and "plain_wf plain_error p" "mem_active (cx_workflow_id C) (cs_store s)"
    and "cs_seq s = 0" "\<forall>i. mem_steps (cx_workflow_id C) (cs_store s) i = None"
    and "run_ops C n p s = Some (p', s')" "int n \<le> i32_max"
  shows "run_body C p (s' \<lparr> cs_seq := 0 \<rparr>) = run_body C p s \<and>
    (\<forall>t. mem_steps (cx_workflow_id C) (cs_store t) = mem_steps (cx_workflow_id C) (cs_store s') \<longrightarrow> cs_seq t = 0 \<longrightarrow>
       run_body C p t = run_body C p' (t \<lparr> cs_seq := int n \<rparr>))"
proof -
  have sv: "mem.serves from_ms (cx_workflow_id C) C" by (rule mem_serves) (use assms in simp_all)
  have pl: "plain_wf (mem.stable from_ms C) p" using assms(3) by (simp add: mem_stable [abs_def] fun_eq_iff)
  note R = mem.run_ops_records [OF sv pl assms(7,4)]
  have seq: "cs_seq s' = int n" using R assms(5,6,8) by simp
  have ff: "run_body C p t = run_body C p' (t \<lparr> cs_seq := int n \<rparr>)"
    if "mem_steps (cx_workflow_id C) (cs_store t) = mem_steps (cx_workflow_id C) (cs_store s')" "cs_seq t = 0" for t
    using R that assms(5,6,8) seq by simp
  show ?thesis
    using ff ff [of "s' \<lparr> cs_seq := 0 \<rparr>"] run_ops_run_body [OF assms(7)] seq
    by (simp add: cs_seq_same)
qed

theorem crash_recovery_witness:
  "\<exists>p' s'. run_ops wit_ctx 1 wit_body (wit_state wit_store) = Some (p', s') \<and> cs_world s' = 1 \<and>
     run_body wit_ctx wit_body (s' \<lparr> cs_seq := 0 \<rparr>) = run_body wit_ctx wit_body (wit_state wit_store)"
proof -
  have "map_option (cs_world \<circ> snd) (run_ops wit_ctx 1 wit_body (wit_state wit_store)) = Some 1" by code_simp
  then obtain p' s' where r: "run_ops wit_ctx 1 wit_body (wit_state wit_store) = Some (p', s')" "cs_world s' = 1"
    by auto
  have "plain_wf plain_error wit_body"
    by (auto simp: wit_body_def plain_body_def plain_error_def caught_def app_def)
  then show ?thesis
    using crash_recovery [of wit_ctx wit_from_ms wit_body "wit_state wit_store" 1 p' s'] r
    by (auto simp: wit_ctx_def wit_state_def i32_max_def)
qed

end
