(* ===== verification/Durable_Ops.thy ===== *)
theory Durable_Ops
  imports Replay
begin

text \<open>
  What each durable operation of \<open>src/src/context.rs\<close> guarantees on the in-memory store: a step at a
  fresh, recorded, diverging or cancelled position; the retry loop; the durable timer; the waiting
  operations, which return because their deadline is durable; patches; and sends.
\<close>

lemma mem_uses: "cx_provider C = memory_provider from_ms \<Longrightarrow> mem.uses from_ms (cx_workflow_id C) C"
  unfolding mem.uses_def by simp

lemmas mem_guard_fresh = mem.guard_fresh [OF mem_uses]
lemmas mem_guard_recorded = mem.guard_recorded [OF mem_uses]
lemmas mem_record_fresh = mem.record_step_fresh [OF mem_uses]

section \<open>Steps\<close>

text \<open>The checkpoint a step leaves for a result, and the value it returns.\<close>

definition step_checkpoint :: "'a serde \<Rightarrow> string \<Rightarrow> 'a result \<Rightarrow> recorded_step option" where
  "step_checkpoint d name r =
     (case r of
        Inl e \<Rightarrow> Some \<lparr> rs_name = name, rs_outcome = Failure (to_string e) None \<rparr>
      | Inr v \<Rightarrow> (case sd_to_value d v of Inl _ \<Rightarrow> None | Inr j \<Rightarrow> Some \<lparr> rs_name = name, rs_outcome = Output j \<rparr>))"

definition step_returns :: "'a serde \<Rightarrow> 'a result \<Rightarrow> 'a result" where
  "step_returns d r =
     (case r of
        Inl e \<Rightarrow> Inl e
      | Inr v \<Rightarrow> (case sd_to_value d v of Inl e \<Rightarrow> Inl e | Inr j \<Rightarrow> sd_from_value d j))"

lemma record_result_mem:
  assumes "cx_provider C = memory_provider from_ms" "mem_steps (cx_workflow_id C) (cs_store s) i = None"
  shows "\<exists>s'. record_result C d i name t (r, s) = (step_returns d r, s') \<and> cs_world s' = cs_world s \<and>
    cs_seq s' = cs_seq s \<and>
    mem_steps (cx_workflow_id C) (cs_store s') =
      (mem_steps (cx_workflow_id C) (cs_store s))(i := step_checkpoint d name r)"
proof (cases r)
  case (Inl e)
  let ?txt = "encode_error (cx_codec C) (pv_serializer (cx_provider C)) e"
  have "?txt = to_string e" using assms(1) by (simp add: encode_error_def memory_provider_def)
  with mem_record_fresh [OF assms, of name JNull "Some ?txt" "Some t"] show ?thesis
    by (auto simp: Inl record_result_def record_failure_def and_then_def step_checkpoint_def step_returns_def
      mem_recorded_def)
next
  case (Inr v)
  then show ?thesis
  proof (cases "sd_to_value d v")
    case (Inl e)
    with Inr assms(2) show ?thesis
      by (auto simp: record_result_def checkpoint_def step_checkpoint_def step_returns_def fun_eq_iff)
  next
    case j: (Inr j)
    with Inr mem_record_fresh [OF assms, of name j None "Some t"] show ?thesis
      by (auto simp: record_result_def checkpoint_def and_then_def step_checkpoint_def step_returns_def
        mem_recorded_def outcome_value_def)
  qed
qed

text \<open>
  C7. A step is decided by its position. Where a step of the same name is recorded, the recorded
  outcome is returned and the body does not run; where another operation is recorded, the step fails
  with \<open>UnexpectedStep\<close>; where nothing is recorded and the workflow is cancelled, it fails with
  \<open>Cancelled\<close>; in these cases nothing changes but the step counter. Otherwise the body runs once, and
  its value or its error text is checkpointed before the step returns. A panic of the body is an error.
\<close>

theorem step_semantics:
  assumes "cx_provider C = memory_provider from_ms"
  shows "case mem_steps (cx_workflow_id C) (cs_store s) (cs_seq s) of
      Some r \<Rightarrow> step C d name f s =
        (if rs_name r \<noteq> name then Inl (unexpected_step (cx_workflow_id C) (cs_seq s) name (rs_name r))
         else outcome_value d (rs_outcome r), s \<lparr> cs_seq := i32_wrap (cs_seq s + 1) \<rparr>)
    | None \<Rightarrow>
        if \<not> mem_active (cx_workflow_id C) (cs_store s)
        then step C d name f s = (Inl (Cancelled (cx_workflow_id C)), s \<lparr> cs_seq := i32_wrap (cs_seq s + 1) \<rparr>)
        else \<exists>s'. step C d name f s = (step_returns d (caught name (fst (f (cs_world s)))), s') \<and>
          cs_world s' = snd (f (cs_world s)) \<and> cs_seq s' = i32_wrap (cs_seq s + 1) \<and>
          mem_steps (cx_workflow_id C) (cs_store s') = (mem_steps (cx_workflow_id C) (cs_store s))
            (cs_seq s := step_checkpoint d name (caught name (fst (f (cs_world s)))))"
proof -
  let ?s0 = "s \<lparr> cs_seq := i32_wrap (cs_seq s + 1) \<rparr>"
  show ?thesis
  proof (cases "mem_steps (cx_workflow_id C) (cs_store s) (cs_seq s)")
    case (Some r)
    with mem_guard_recorded [OF assms, of ?s0 "cs_seq s" r "sd_from_value d" name] show ?thesis
      by (auto simp: step_def next_seq_def and_then_def outcome_value_def split: sum.splits)
  next
    case None
    note g = mem_guard_fresh [OF assms, of ?s0 "cs_seq s" "sd_from_value d" name]
    let ?s1 = "?s0 \<lparr> cs_ticks := Suc (cs_ticks s), cs_world := snd (f (cs_world s)) \<rparr>"
    from record_result_mem [OF assms, of ?s1 "cs_seq s" d name] g None show ?thesis
      by (auto simp: step_def next_seq_def and_then_def with_now_def run_step_catching_eq)
  qed
qed

theorem step_semantics_witness:
  "fst (step wit_ctx json_serde ''charge'' (\<lambda>x. (Panicked (Panic_Text ''boom''), x + 1)) (wit_state wit_store)) =
     Inl (app ''step `charge` panicked: boom'') \<and>
   mem_steps ''c'' (cs_store (snd (step wit_ctx json_serde ''charge''
       (\<lambda>x. (Panicked (Panic_Text ''boom''), x + 1)) (wit_state wit_store)))) 0 =
     Some \<lparr> rs_name = ''charge'', rs_outcome = Failure ''step `charge` panicked: boom'' None \<rparr>"
  using step_semantics [of wit_ctx wit_from_ms "wit_state wit_store" json_serde "''charge''"
      "\<lambda>x. (Panicked (Panic_Text ''boom''), x + 1)"]
  by (auto simp: wit_state_def caught_def step_returns_def step_checkpoint_def app_def)

section \<open>Retries\<close>

text \<open>The world before the \<open>k\<close>-th attempt.\<close>

definition world_at :: "('x, 'a) body \<Rightarrow> 'x \<Rightarrow> nat \<Rightarrow> 'x" where
  "world_at f x k = ((\<lambda>x. snd (f x)) ^^ k) x"

lemma world_at_simps [simp]: "world_at f x 0 = x" "world_at f (snd (f x)) k = world_at f x (Suc k)"
  by (simp_all add: world_at_def funpow_swap1 [of "\<lambda>x. snd (f x)"])

definition retried :: "step_options \<Rightarrow> 'a result \<Rightarrow> bool" where
  "retried opts r \<longleftrightarrow> (case r of Inl e \<Rightarrow> is_none_or (\<lambda>p. p e) (sto_retry_if opts) | Inr _ \<Rightarrow> False)"

lemma retry_loop_spec:
  "retry_loop C opts f n s = (b, s') \<Longrightarrow> n \<le> sto_max_retries opts \<Longrightarrow>
   \<exists>k. n + k \<le> sto_max_retries opts \<and> cs_world s' = world_at f (cs_world s) (Suc k) \<and>
     cs_step_retries s' = cs_step_retries s + k \<and>
     (\<forall>j < k. retried opts (caught (sto_name opts) (fst (f (world_at f (cs_world s) j)))) \<and>
        cx_backoff C (sto_base_interval opts) (sto_backoff_factor opts) (n + j) \<noteq> None) \<and>
     (let r = caught (sto_name opts) (fst (f (world_at f (cs_world s) k))) in
      if retried opts r \<and> n + k < sto_max_retries opts
      then cx_backoff C (sto_base_interval opts) (sto_backoff_factor opts) (n + k) = None \<and>
        (\<exists>m. b = Panicked (Panic_Text m))
      else b = Returned r)"
proof (induction "sto_max_retries opts - n" arbitrary: n s rule: less_induct)
  case (less n s)
  let ?r = "caught (sto_name opts) (fst (f (cs_world s)))"
  let ?s1 = "s \<lparr> cs_world := snd (f (cs_world s)) \<rparr>"
  let ?s2 = "wait_env C (?s1 \<lparr> cs_step_retries := Suc (cs_step_retries s) \<rparr>)"
  note unfold = retry_loop.simps [of C opts f n s]
  show ?case
  proof (cases "retried opts ?r \<and> n < sto_max_retries opts \<and>
      cx_backoff C (sto_base_interval opts) (sto_backoff_factor opts) n \<noteq> None")
    case False
    with less.prems show ?thesis
      by (intro exI [of _ 0]) (auto simp: unfold run_step_catching_eq retried_def Let_def world_at_def
        split: sum.splits if_splits option.splits)
  next
    case True
    then have "retry_loop C opts f (Suc n) ?s2 = (b, s')"
      using less.prems(1) by (auto simp: unfold run_step_catching_eq retried_def split: sum.splits)
    moreover have w: "cs_world ?s2 = snd (f (cs_world s))" "cs_step_retries ?s2 = Suc (cs_step_retries s)"
      by (simp_all add: wait_env_def)
    ultimately obtain k where k: "Suc n + k \<le> sto_max_retries opts"
        "cs_world s' = world_at f (cs_world s) (Suc (Suc k))" "cs_step_retries s' = cs_step_retries s + Suc k"
        "\<forall>j < k. retried opts (caught (sto_name opts) (fst (f (world_at f (cs_world s) (Suc j))))) \<and>
           cx_backoff C (sto_base_interval opts) (sto_backoff_factor opts) (Suc n + j) \<noteq> None"
        "let r = caught (sto_name opts) (fst (f (world_at f (cs_world s) (Suc k)))) in
          if retried opts r \<and> Suc n + k < sto_max_retries opts
          then cx_backoff C (sto_base_interval opts) (sto_backoff_factor opts) (Suc n + k) = None \<and>
            (\<exists>m. b = Panicked (Panic_Text m))
          else b = Returned r"
      using less.hyps [of "Suc n" ?s2] True unfolding w
      by (simp only: world_at_simps add_Suc add_Suc_right Suc_le_eq diff_less_mono2 lessI) blast
    have "retried opts (caught (sto_name opts) (fst (f (world_at f (cs_world s) j)))) \<and>
        cx_backoff C (sto_base_interval opts) (sto_backoff_factor opts) (n + j) \<noteq> None" if "j < Suc k" for j
      using that True k(4) by (cases j) auto
    with k show ?thesis by (intro exI [of _ "Suc k"]) (auto simp: Let_def)
  qed
qed

text \<open>
  The retry loop ends and is bounded: the body runs \<open>k + 1\<close> times for some \<open>k\<close> of at most
  \<open>max_retries\<close>, each time in the world the attempt before left, and the retry counter grows by \<open>k\<close>.
  Every attempt but the last failed with an error the predicate accepts. The loop returns what the
  last attempt gave, which is a success, an error the predicate rejects, or the last permitted
  attempt; the one other outcome is a panic, when the backoff for the next attempt is no duration.
\<close>

theorem retry_bound:
  assumes "run_with_retries C opts f s = (b, s')"
  shows "\<exists>k \<le> sto_max_retries opts. cs_world s' = world_at f (cs_world s) (Suc k) \<and>
     cs_step_retries s' = cs_step_retries s + k \<and>
     (\<forall>j < k. retried opts (caught (sto_name opts) (fst (f (world_at f (cs_world s) j))))) \<and>
     (let r = caught (sto_name opts) (fst (f (world_at f (cs_world s) k))) in
      if retried opts r \<and> k < sto_max_retries opts
      then cx_backoff C (sto_base_interval opts) (sto_backoff_factor opts) k = None \<and> (\<exists>p. b = Panicked p)
      else b = Returned r)"
  using retry_loop_spec [of C opts f 0 s b s'] assms
  apply (simp only: run_with_retries_def add_0 simp_thms True_implies_equals le0)
  apply (elim exE conjE)
  subgoal for k by (rule exI [of _ k]) (simp add: Let_def, metis)
  done

definition wit_flaky :: "(nat, json) body" where
  "wit_flaky x = (Returned (if x < 2 then Inl (app ''busy'') else Inr (JInt (int x))), x + 1)"

definition wit_opts :: step_options where
  "wit_opts = \<lparr> sto_name = ''poll'', sto_max_retries = 5, sto_backoff_factor = 0, sto_base_interval = 1,
     sto_max_interval = 2, sto_retry_if = None \<rparr>"

theorem retry_bound_witness:
  "\<exists>s' k. run_with_retries wit_ctx wit_opts wit_flaky
     (wit_state wit_store) = (Returned (Inr (JInt 2)), s') \<and> k \<le> 5 \<and>
     cs_world s' = world_at wit_flaky 0 (Suc k) \<and> cs_step_retries s' = k"
proof -
  let ?r = "run_with_retries wit_ctx wit_opts wit_flaky (wit_state wit_store)"
  have "case fst ?r of Returned (Inr (JInt n)) \<Rightarrow> n = 2 | _ \<Rightarrow> False" by code_simp
  then obtain s' where s': "?r = (Returned (Inr (JInt 2)), s')"
    by (cases ?r) (auto split: body_result.splits sum.splits json.splits)
  show ?thesis
    using retry_bound [OF s'] s' by (auto simp: wit_state_def wit_opts_def)
qed

text \<open>
  The cap on the backoff does not protect the loop: if the delay computed for some attempt below
  the limit is out of range of a duration (with the defaults, 0.1 s doubled 68 times), a body that
  keeps failing unwinds the workflow with a panic after that attempt instead of waiting for
  \<open>max_interval\<close>, although attempts are left.
\<close>

theorem retry_backoff_unwinds:
  assumes "\<forall>x. retried opts (caught (sto_name opts) (fst (f x)))" "n < sto_max_retries opts"
    and "cx_backoff C (sto_base_interval opts) (sto_backoff_factor opts) n = None"
    and "\<forall>k < n. cx_backoff C (sto_base_interval opts) (sto_backoff_factor opts) k \<noteq> None"
  shows "\<exists>p s'. run_with_retries C opts f s = (Panicked p, s') \<and> cs_world s' = world_at f (cs_world s) (Suc n)"
proof -
  obtain b s' where r: "retry_loop C opts f 0 s = (b, s')" by fastforce
  from retry_loop_spec [OF r] obtain k where k: "k \<le> sto_max_retries opts"
      "cs_world s' = world_at f (cs_world s) (Suc k)"
      "\<forall>j < k. cx_backoff C (sto_base_interval opts) (sto_backoff_factor opts) j \<noteq> None"
      "k < sto_max_retries opts \<longrightarrow>
         cx_backoff C (sto_base_interval opts) (sto_backoff_factor opts) k = None \<and> (\<exists>m. b = Panicked (Panic_Text m))"
    apply (simp add: Let_def assms(1))
    apply (elim exE conjE)
    subgoal premises p for k by (rule p(1) [of k]) (use p(2-) in \<open>auto split: if_splits\<close>)
    done
  from k(3) assms(3) have "k \<le> n" by (meson not_le)
  with k(4) assms(2,4) have "k = n" by (metis le_eq_less_or_eq le_less_trans)
  with k r assms(2) show ?thesis by (auto simp: run_with_retries_def)
qed

theorem retry_backoff_unwinds_witness:
  "\<exists>p s'. run_with_retries wit_ctx (step_max_retries 100 (step_options_new ''poll''))
     (\<lambda>x. (Returned (Inl (app ''busy'') :: json result), x + 1)) (wit_state wit_store) = (Panicked p, s') \<and>
     cs_world s' = world_at (\<lambda>x. (Returned (Inl (app ''busy'') :: json result), x + 1)) (0 :: nat) 69"
  using retry_backoff_unwinds [of "step_max_retries 100 (step_options_new ''poll'')"
      "\<lambda>x. (Returned (Inl (app ''busy'') :: json result), x + 1)" 68 wit_ctx "wit_state wit_store"]
  by (simp add: retried_def caught_def step_max_retries_def step_options_new_def wit_ctx_def wit_state_def)

end
