(* ===== verification/Durable_Waits.thy ===== *)
theory Durable_Waits
  imports Durable_Ops
begin

text \<open>
  Timers and waiting operations of \<open>src/src/context.rs\<close>: the durable wake instant, \<open>recv\<close> and
  \<open>get_event\<close>. A waiting operation returns on every execution in which the clock passes its deadline,
  with any storage backend and whatever the rest of the system does; its outcome replays.
\<close>

named_theorems ticks "operations that never turn the clock back"

definition ticks_grow :: "('s, 'x, 'a) cop \<Rightarrow> bool" where
  "ticks_grow m \<longleftrightarrow> (\<forall>s. cs_ticks s \<le> cs_ticks (snd (m s)))"

lemma ticks_growD: "ticks_grow m \<Longrightarrow> m s = (r, s') \<Longrightarrow> cs_ticks s \<le> cs_ticks s'"
  by (metis snd_conv ticks_grow_def)

lemma ticks_prov [ticks]: "ticks_grow (prov f)"
  by (simp add: ticks_grow_def prov_def split: prod.splits)

lemma ticks_and_then [ticks]: "ticks_grow m \<Longrightarrow> (\<And>x. ticks_grow (k x)) \<Longrightarrow> ticks_grow (and_then m k)"
  unfolding ticks_grow_def and_then_def
  by (auto split: prod.splits sum.splits) (metis snd_conv le_trans)+

lemma ticks_pure [ticks]: "ticks_grow (ok x)" "ticks_grow (fail e)" "ticks_grow (lift_result r)"
  by (simp_all add: ticks_grow_def fail_def)

lemma ticks_with_now [ticks]: "(\<And>t. ticks_grow (k t)) \<Longrightarrow> ticks_grow (with_now C k)"
  unfolding ticks_grow_def with_now_def by (metis (no_types, lifting) Suc_leD ctx_state.select_convs(4)
    ctx_state.surjective ctx_state.update_convs(4))

lemma ticks_record_step [ticks]: "ticks_grow (record_step C i name v err t)"
  unfolding record_step_def by (intro ticks)

lemma ticks_checkpoint [ticks]: "ticks_grow (checkpoint C d i name v t)"
  unfolding checkpoint_def by (cases "sd_to_value d v") (auto intro!: ticks)

lemma ticks_wake [ticks]: "ticks_grow (durable_wake_at C i dur)"
  unfolding durable_wake_at_def replay_value_def
  by (intro ticks) (auto split: option.splits intro!: ticks)

lemma ticks_take_message [ticks]: "ticks_grow (take_message C d topic i)"
  unfolding take_message_def by (intro ticks) (auto split: option.splits intro!: ticks)

lemma ticks_observe_event [ticks]: "ticks_grow (observe_event C d target key i)"
  unfolding observe_event_def by (intro ticks) (auto split: option.splits intro!: ticks)

lemma ticks_guard [ticks]: "ticks_grow (replay_or_guard C fv i name)"
  unfolding replay_or_guard_def by (intro ticks) (auto split: option.splits if_splits intro!: ticks)

section \<open>Termination\<close>

text \<open>The clock passes every instant.\<close>

definition clock_unbounded :: "'s ctx_env \<Rightarrow> bool" where
  "clock_unbounded C \<longleftrightarrow> (\<forall>t. \<exists>n. \<forall>m \<ge> n. t \<le> cx_clock C m)"

lemma wait_loop_more:
  "wait_loop C try_take seq dseq name timeout fuel dl s = Some r \<Longrightarrow> fuel \<le> fuel' \<Longrightarrow>
   wait_loop C try_take seq dseq name timeout fuel' dl s = Some r"
proof (induction fuel arbitrary: fuel' dl s)
  case (Suc fuel)
  then obtain k where k: "fuel' = Suc k" "fuel \<le> k" by (cases fuel') auto
  with Suc show ?case
    by (auto simp: wait_loop.simps(2) k Let_def split: prod.splits sum.splits option.splits if_splits)
qed simp

lemma wait_loop_deadline_returns:
  assumes "ticks_grow try_take" "\<forall>m \<ge> n. d \<le> cx_clock C m"
  shows "\<exists>fuel r. wait_loop C try_take seq dseq name timeout fuel (Some d) s = Some r"
proof (induction "n - cs_ticks s" arbitrary: s rule: less_induct)
  case less
  obtain r s1 where t: "try_take s = (r, s1)" by fastforce
  have le: "cs_ticks s \<le> cs_ticks s1" by (rule ticks_growD [OF assms(1) t])
  show ?case
  proof (cases "r = Inr None \<and> cx_clock C (cs_ticks s1) < d")
    case False
    then show ?thesis
      by (intro exI [of _ 1]) (auto simp: wait_loop.simps(2) t Let_def split: sum.splits option.splits)
  next
    case True
    then have lt: "cs_ticks s1 < n" using assms(2) by (meson not_le)
    let ?s2 = "wait_env C (s1 \<lparr> cs_ticks := Suc (cs_ticks s1) \<rparr>)"
    have "n - cs_ticks ?s2 < n - cs_ticks s" using lt le by (simp add: wait_env_def)
    from less [OF this] obtain fuel r' where "wait_loop C try_take seq dseq name timeout fuel (Some d) ?s2 = Some r'"
      by blast
    then show ?thesis using True
      by (intro exI [of _ "Suc fuel"]) (auto simp: wait_loop.simps(2) t)
  qed
qed

lemma wait_loop_returns:
  assumes "clock_unbounded C" "ticks_grow try_take"
  shows "\<exists>fuel r. wait_loop C try_take seq dseq name timeout fuel None s = Some r"
proof -
  obtain r s1 where t: "try_take s = (r, s1)" by fastforce
  obtain w s2 where w: "durable_wake_at C dseq timeout s1 = (w, s2)" by fastforce
  show ?thesis
  proof (cases "r = Inr None \<and> (\<exists>d. w = Inr d \<and> cx_clock C (cs_ticks s2) < d)")
    case False
    then show ?thesis
      by (intro exI [of _ 1]) (auto simp: wait_loop.simps(2) t w Let_def split: sum.splits option.splits)
  next
    case True
    then obtain d where d: "w = Inr d" "cx_clock C (cs_ticks s2) < d" by auto
    obtain n where "\<forall>m \<ge> n. d \<le> cx_clock C m" using assms(1) clock_unbounded_def by blast
    from wait_loop_deadline_returns [OF assms(2) this]
    obtain fuel r' where "wait_loop C try_take seq dseq name timeout fuel (Some d)
        (wait_env C (s2 \<lparr> cs_ticks := Suc (cs_ticks s2) \<rparr>)) = Some r'" by blast
    then show ?thesis using True d
      by (intro exI [of _ "Suc fuel"]) (auto simp: wait_loop.simps(2) t w)
  qed
qed

lemma waiting_op_returns:
  assumes "clock_unbounded C" "\<And>i. ticks_grow (try_take i)"
  shows "\<exists>N r. \<forall>fuel \<ge> N. waiting_op C d try_take name timeout fuel s = Some r"
proof -
  let ?s0 = "s \<lparr> cs_seq := i32_wrap (i32_wrap (cs_seq s + 1) + 1) \<rparr>"
  obtain g s1 where g: "replay_or_guard C (option_from_value d) (cs_seq s) name ?s0 = (g, s1)" by fastforce
  obtain N r where "wait_loop C (try_take (cs_seq s)) (cs_seq s) (i32_wrap (cs_seq s + 1)) name timeout N None s1
      = Some r"
    using wait_loop_returns [OF assms] by blast
  then have "\<forall>fuel \<ge> N. wait_loop C (try_take (cs_seq s)) (cs_seq s) (i32_wrap (cs_seq s + 1)) name timeout fuel None s1
      = Some r"
    by (blast intro: wait_loop_more)
  moreover have "g = Inr None \<or> (\<exists>r. \<forall>fuel. waiting_op C d try_take name timeout fuel s = Some r)"
    by (cases g; cases "projr g") (auto simp: waiting_op_def Let_def g)
  moreover have "waiting_op C d try_take name timeout fuel s = wait_loop C (try_take (cs_seq s)) (cs_seq s)
      (i32_wrap (cs_seq s + 1)) name timeout fuel None s1" if "g = Inr None" for fuel
    using that by (simp add: waiting_op_def Let_def g)
  ultimately show ?thesis by metis
qed

text \<open>
  C24. Waiting ends: with a clock that passes every instant, \<open>recv\<close> and \<open>get_event\<close> return, on every
  storage backend, whatever other tasks do to the store in the meantime and whether or not a message
  or a value arrives; from some bound on, more passes of the loop change nothing.
\<close>

theorem waits_return:
  assumes "clock_unbounded C"
  shows "(\<exists>N r. \<forall>fuel \<ge> N. recv C d topic timeout fuel s = Some r) \<and>
         (\<exists>N r. \<forall>fuel \<ge> N. get_event C d target key timeout fuel s = Some r)"
  unfolding recv_def get_event_def by (intro conjI waiting_op_returns assms ticks)

lemma wit_clock: "clock_unbounded wit_ctx"
  unfolding clock_unbounded_def
proof
  fix t :: int
  show "\<exists>n. \<forall>m \<ge> n. t \<le> cx_clock wit_ctx m" by (intro exI [of _ "nat t"]) auto
qed

theorem waits_return_witness:
  "\<exists>N r. \<forall>fuel \<ge> N. recv wit_ctx json_serde ''topic'' 5 fuel (wit_state wit_store) = Some r"
  using waits_return [OF wit_clock] by blast

section \<open>Timers\<close>

text \<open>
  A timer does not drift: the first call fixes the wake instant at the clock reading plus the
  duration and records it; every later call at that position, at any time and for any duration,
  returns that instant and changes nothing. \<open>j\<close> is the stored form of the instant.
\<close>

theorem wake_at_stable:
  assumes "cx_provider C = memory_provider from_ms" "mem_steps (cx_workflow_id C) (cs_store s) i = None"
    and "cx_from_std C dur = Some k" "sd_to_value (cx_instant C) (cx_clock C (cs_ticks s) + k) = Inr j"
    and "sd_from_value (cx_instant C) j = Inr (cx_clock C (cs_ticks s) + k)"
  shows "\<exists>s'. durable_wake_at C i dur s = (Inr (cx_clock C (cs_ticks s) + k), s') \<and>
    (\<forall>u dur'. mem_steps (cx_workflow_id C) (cs_store u) i = mem_steps (cx_workflow_id C) (cs_store s') i \<longrightarrow>
       durable_wake_at C i dur' u = (Inr (cx_clock C (cs_ticks s) + k), u))"
proof -
  let ?s1 = "s \<lparr> cs_ticks := Suc (cs_ticks s) \<rparr>"
  obtain s' where s': "record_step C i ''DBOS.sleep'' j None None ?s1 = (Inr (Output j), s')"
      "mem_steps (cx_workflow_id C) (cs_store s') i = Some \<lparr> rs_name = ''DBOS.sleep'', rs_outcome = Output j \<rparr>"
    using mem_record_fresh [OF assms(1), of ?s1 i "''DBOS.sleep''" j None None] assms(2)
    by (auto simp: mem_recorded_def)
  have "durable_wake_at C i dur s = (Inr (cx_clock C (cs_ticks s) + k), s')"
    using assms s'(1)
    by (simp add: durable_wake_at_def and_then_def prov_def mem.get_step with_now_def checkpoint_def outcome_value_def)
  then show ?thesis
    using assms s'(2)
    by (auto simp: durable_wake_at_def and_then_def prov_def mem.get_step replay_value_def outcome_value_def)
qed

theorem wake_at_stable_witness:
  "\<exists>s'. durable_wake_at wit_ctx 0 7 (wit_state wit_store) = (Inr 7, s') \<and>
     durable_wake_at wit_ctx 0 9 (s' \<lparr> cs_ticks := 100 \<rparr>) = (Inr 7, s' \<lparr> cs_ticks := 100 \<rparr>)"
  using wake_at_stable [of wit_ctx wit_from_ms "wit_state wit_store" 0 7 7 "JInt 7"]
  by (auto simp: wit_state_def) (auto simp: wit_ctx_def)

section \<open>Waiting operations replay\<close>

text \<open>What an attempt of a waiting operation does to the checkpoint at its position \<open>i\<close>.\<close>

definition attempt_ok ::
    "'s ctx_env \<Rightarrow> (inner, 'x, 'a option) cop \<Rightarrow> 'a serde \<Rightarrow> string \<Rightarrow> int \<Rightarrow> bool" where
  "attempt_ok C try_take d name i \<longleftrightarrow>
     (\<forall>s s1 m. mem_steps (cx_workflow_id C) (cs_store s) i = None \<longrightarrow> try_take s = (Inr m, s1) \<longrightarrow>
        (case m of
           None \<Rightarrow> mem_steps (cx_workflow_id C) (cs_store s1) i = None
         | Some x \<Rightarrow> \<exists>v. mem_steps (cx_workflow_id C) (cs_store s1) i =
              Some \<lparr> rs_name = name, rs_outcome = Output v \<rparr> \<and> sd_from_value d v = Inr x))"

lemma take_message_ok:
  assumes "cx_provider C = memory_provider from_ms"
  shows "attempt_ok C (take_message C d topic i) d ''DBOS.recv'' i"
  using assms
  by (auto simp: attempt_ok_def take_message_def and_then_def prov_def memory_provider_def mem_steps_def
    consume_notification_def step_or_insert_def step_row_outcome_def step_row_default_def Let_def
    split: prod.splits sum.splits option.splits)

lemma observe_event_ok:
  assumes "cx_provider C = memory_provider from_ms"
  shows "attempt_ok C (observe_event C d target key i :: (inner, 'x, 'a option) cop) d ''DBOS.getEvent'' i"
  unfolding attempt_ok_def
proof (intro allI impI)
  fix s s1 :: "(inner, 'x) ctx_state" and m
  assume f: "mem_steps (cx_workflow_id C) (cs_store s) i = None"
    and e: "observe_event C d target key i s = (Inr m, s1)"
  have g: "prov (pv_get_event_value (cx_provider C) target key) s = (Inr (hm_get (events (cs_store s)) (target, key)), s)"
    using assms by (simp add: prov_def memory_provider_def get_event_value_def)
  show "case m of None \<Rightarrow> mem_steps (cx_workflow_id C) (cs_store s1) i = None
    | Some x \<Rightarrow> \<exists>v. mem_steps (cx_workflow_id C) (cs_store s1) i =
        Some \<lparr> rs_name = ''DBOS.getEvent'', rs_outcome = Output v \<rparr> \<and> sd_from_value d v = Inr x"
  proof (cases "hm_get (events (cs_store s)) (target, key)")
    case None
    with e f g show ?thesis by (auto simp: observe_event_def)
  next
    case (Some v)
    obtain s' where "record_step C i ''DBOS.getEvent'' v None None s = (Inr (Output v), s')"
        "mem_steps (cx_workflow_id C) (cs_store s') i = Some \<lparr> rs_name = ''DBOS.getEvent'', rs_outcome = Output v \<rparr>"
      using mem_record_fresh [OF assms f, of "''DBOS.getEvent''" v None None] by (auto simp: mem_recorded_def)
    with e g Some show ?thesis by (auto simp: observe_event_def outcome_value_def split: sum.splits)
  qed
qed

lemma wake_at_frame:
  assumes "cx_provider C = memory_provider from_ms" "durable_wake_at C j dur s = (r, s')" "i \<noteq> j"
  shows "mem_steps (cx_workflow_id C) (cs_store s') i = mem_steps (cx_workflow_id C) (cs_store s) i"
proof (cases "mem_steps (cx_workflow_id C) (cs_store s) j")
  case None
  let ?s1 = "s \<lparr> cs_ticks := Suc (cs_ticks s) \<rparr>"
  have "mem_steps (cx_workflow_id C) (cs_store (snd (record_step C j nm v e t ?s1))) i =
      mem_steps (cx_workflow_id C) (cs_store s) i" for nm v e t
    using mem_record_fresh [OF assms(1), of ?s1 j nm v e t] None assms(3) by auto
  then show ?thesis
    using None assms(1,2)
    by (auto simp: durable_wake_at_def and_then_def prov_def mem.get_step with_now_def checkpoint_def
      split: sum.splits prod.splits) (metis snd_conv)+
next
  case (Some r)
  then show ?thesis
    using assms(1,2)
    by (auto simp: durable_wake_at_def and_then_def prov_def mem.get_step replay_value_def split: if_splits)
qed

lemma wait_loop_records:
  assumes "cx_provider C = memory_provider from_ms" "attempt_ok C try_take d name seq" "seq \<noteq> dseq"
    and "\<forall>n g. mem_steps (cx_workflow_id C) (cx_environment C n g) = mem_steps (cx_workflow_id C) g"
    and "mem_steps (cx_workflow_id C) (cs_store s) seq = None"
    and "wait_loop C try_take seq dseq name timeout fuel dl s = Some (Inr m, s')"
  shows "\<exists>v. mem_steps (cx_workflow_id C) (cs_store s') seq = Some \<lparr> rs_name = name, rs_outcome = Output v \<rparr> \<and>
    (case m of None \<Rightarrow> v = JNull | Some x \<Rightarrow> sd_from_value d v = Inr x)"
  using assms(5,6)
proof (induction fuel arbitrary: dl s)
  case (Suc fuel)
  obtain r s1 where t: "try_take s = (r, s1)" by fastforce
  note att = assms(2) [unfolded attempt_ok_def, rule_format, OF Suc.prems(1)]
  show ?case
  proof (cases "r = Inr None")
    case False
    then show ?thesis
      using Suc.prems(2) att by (auto simp: wait_loop.simps(2) t split: sum.splits option.splits)
  next
    case True
    obtain w s2 where w: "(case dl of Some d \<Rightarrow> (Inr d, s1) | None \<Rightarrow> durable_wake_at C dseq timeout s1) = (w, s2)"
      by fastforce
    have f1: "mem_steps (cx_workflow_id C) (cs_store s1) seq = None" using att [of None s1] t True by simp
    have f2: "mem_steps (cx_workflow_id C) (cs_store s2) seq = None"
      using w f1 wake_at_frame [OF assms(1) _ assms(3), of timeout s1 w s2] by (auto split: option.splits)
    obtain d where d: "w = Inr d" using Suc.prems(2) True w by (auto simp: wait_loop.simps(2) t split: sum.splits)
    let ?s3 = "s2 \<lparr> cs_ticks := Suc (cs_ticks s2) \<rparr>"
    show ?thesis
    proof (cases "cx_clock C (cs_ticks s2) \<ge> d")
      case late: True
      from mem_record_fresh [OF assms(1), of ?s3 seq name JNull None None] f2 show ?thesis
        using Suc.prems(2) True w d late
        by (auto simp: wait_loop.simps(2) t record_null_def and_then_def mem_recorded_def)
    next
      case False
      have "mem_steps (cx_workflow_id C) (cs_store (wait_env C ?s3)) seq = None"
        using f2 assms(4) by (simp add: wait_env_def)
      then show ?thesis
        using Suc.IH [of "wait_env C ?s3" "Some d"] Suc.prems(2) True w d False
        by (auto simp: wait_loop.simps(2) t)
    qed
  qed
qed simp

lemma i32_wrap_next: "i32_wrap (i + 1) \<noteq> i"
proof
  assume "i32_wrap (i + 1) = i"
  then have "(word_of_int (i32_wrap (i + 1)) :: 32 word) = word_of_int i" by simp
  then have "(word_of_int (i + 1) :: 32 word) = word_of_int i" unfolding i32_wrap_def by simp
  then have "(1 :: 32 word) = 0" by simp
  then show False by simp
qed

lemma waiting_op_replays:
  assumes "cx_provider C = memory_provider from_ms" "attempt_ok C (try_take (cs_seq s)) d name (cs_seq s)"
    and "\<forall>n g. mem_steps (cx_workflow_id C) (cx_environment C n g) = mem_steps (cx_workflow_id C) g"
    and "\<forall>x. sd_from_value d JNull \<noteq> Inr x" "mem_steps (cx_workflow_id C) (cs_store s) (cs_seq s) = None"
    and "waiting_op C d try_take name timeout fuel s = Some (Inr m, s')" "cs_seq u = cs_seq s"
    and "mem_steps (cx_workflow_id C) (cs_store u) (cs_seq s) = mem_steps (cx_workflow_id C) (cs_store s') (cs_seq s)"
  shows "waiting_op C d try_take' name timeout' fuel' u =
    Some (Inr m, u \<lparr> cs_seq := i32_wrap (i32_wrap (cs_seq s + 1) + 1) \<rparr>)"
proof -
  let ?q = "i32_wrap (i32_wrap (cs_seq s + 1) + 1)"
  let ?s0 = "s \<lparr> cs_seq := ?q \<rparr>" and ?u0 = "u \<lparr> cs_seq := ?q \<rparr>"
  have g: "replay_or_guard C (option_from_value d) (cs_seq s) name ?s0 = (Inr None, ?s0)"
    using mem_guard_fresh [OF assms(1), of ?s0 "cs_seq s" "option_from_value d" name] assms(5,6)
    by (auto simp: waiting_op_def split: if_splits)
  from assms(6) have l: "wait_loop C (try_take (cs_seq s)) (cs_seq s) (i32_wrap (cs_seq s + 1)) name timeout fuel None ?s0
      = Some (Inr m, s')" by (simp add: waiting_op_def Let_def g)
  obtain v where v: "mem_steps (cx_workflow_id C) (cs_store s') (cs_seq s) =
      Some \<lparr> rs_name = name, rs_outcome = Output v \<rparr>"
      "case m of None \<Rightarrow> v = JNull | Some x \<Rightarrow> sd_from_value d v = Inr x"
    using wait_loop_records [OF assms(1,2) i32_wrap_next [symmetric] assms(3) _ l] assms(5) by auto
  have "option_from_value d v = Inr m"
    using v(2) assms(4) by (cases v) (auto simp: option_from_value_def split: option.splits)
  then have "replay_or_guard C (option_from_value d) (cs_seq s) name ?u0 = (Inr (Some m), ?u0)"
    using mem_guard_recorded [OF assms(1), of ?u0 "cs_seq s" _ "option_from_value d" name] v(1) assms(8) by simp
  then show ?thesis by (simp add: waiting_op_def Let_def assms(7))
qed

text \<open>
  C25. What was received stays received: if \<open>recv\<close> (or \<open>get_event\<close>) returned a message, a value or a
  timeout, then every later execution at the same position, with any timeout, returns the same without
  waiting, consumes nothing and changes nothing but the step counter. This holds for message types
  that do not read null; other tasks leave this workflow's checkpoints alone.
\<close>

theorem waits_replay:
  assumes "cx_provider C = memory_provider from_ms"
    and "\<forall>n g. mem_steps (cx_workflow_id C) (cx_environment C n g) = mem_steps (cx_workflow_id C) g"
    and "\<forall>x. sd_from_value d JNull \<noteq> Inr x" "mem_steps (cx_workflow_id C) (cs_store s) (cs_seq s) = None"
    and "cs_seq u = cs_seq s"
    and "mem_steps (cx_workflow_id C) (cs_store u) (cs_seq s) = mem_steps (cx_workflow_id C) (cs_store s') (cs_seq s)"
  shows "(recv C d topic timeout fuel s = Some (Inr m, s') \<longrightarrow>
      recv C d topic timeout' fuel' u = Some (Inr m, u \<lparr> cs_seq := i32_wrap (i32_wrap (cs_seq s + 1) + 1) \<rparr>)) \<and>
    (get_event C d target key timeout fuel s = Some (Inr m, s') \<longrightarrow>
      get_event C d target key timeout' fuel' u =
        Some (Inr m, u \<lparr> cs_seq := i32_wrap (i32_wrap (cs_seq s + 1) + 1) \<rparr>))"
  unfolding recv_def get_event_def
  using waiting_op_replays [where try_take = "take_message C d topic",
      OF assms(1) take_message_ok [OF assms(1)] assms(2-4) _ assms(5,6)]
    waiting_op_replays [where try_take = "observe_event C d target key",
      OF assms(1) observe_event_ok [OF assms(1)] assms(2-4) _ assms(5,6)]
  by blast

definition wit_mail :: inner where
  "wit_mail = snd (insert_notification ''c'' ''t'' (JString ''hi'') None ''u'' 0 wit_store)"

lemma wit_mail_fresh [simp]: "mem_steps ''c'' wit_mail i = None"
proof -
  have "steps wit_mail = []" by code_simp
  then show ?thesis by (simp add: mem_steps_def)
qed

theorem waits_replay_witness:
  "\<exists>s'. recv wit_ctx (cx_string wit_ctx) ''t'' 5 1 (wit_state wit_mail) = Some (Inr (Some ''hi''), s') \<and>
     recv wit_ctx (cx_string wit_ctx) ''t'' 9 0 (s' \<lparr> cs_seq := 0 \<rparr>) = Some (Inr (Some ''hi''), s' \<lparr> cs_seq := 2 \<rparr>)"
proof -
  let ?r = "recv wit_ctx (cx_string wit_ctx) ''t'' 5 1 (wit_state wit_mail)"
  have "map_option fst ?r = Some (Inr (Some ''hi''))" by code_simp
  then obtain s' where s': "?r = Some (Inr (Some ''hi''), s')" by auto
  have "i32_wrap (i32_wrap (0 + 1) + 1) = 2" by code_simp
  with waits_replay [of wit_ctx wit_from_ms "cx_string wit_ctx" "wit_state wit_mail" "s' \<lparr> cs_seq := 0 \<rparr>" s'] s'
  show ?thesis by (auto simp: wit_state_def) (auto simp: wit_ctx_def)
qed

text \<open>
  A null message is not replayed: a workflow that receives JSON null as a dynamic value gets
  \<open>Some(null)\<close> the first time, but every replay reads the recorded null as a timeout and returns
  \<open>None\<close>, so the workflow takes another branch.
\<close>

theorem recv_null_lost:
  assumes "cx_provider C = memory_provider from_ms" "mem_steps (cx_workflow_id C) (cs_store s) (cs_seq s) = None"
    and "mem_active (cx_workflow_id C) (cs_store s)"
    and "mailbox (cx_workflow_id C) topic (cs_store s) = JNull # ms"
  shows "\<exists>s'. recv C json_serde topic timeout (Suc fuel) s = Some (Inr (Some JNull), s') \<and>
    (\<forall>u. cs_seq u = cs_seq s \<longrightarrow> mem_steps (cx_workflow_id C) (cs_store u) (cs_seq s) =
        mem_steps (cx_workflow_id C) (cs_store s') (cs_seq s) \<longrightarrow>
       (\<exists>u'. recv C json_serde topic timeout fuel u = Some (Inr None, u')))"
proof -
  let ?w = "cx_workflow_id C" and ?s0 = "s \<lparr> cs_seq := i32_wrap (i32_wrap (cs_seq s + 1) + 1) \<rparr>"
  obtain g' r where c: "consume_notification ?w topic (cs_seq s) ''DBOS.recv'' (cs_store s) = (Inr (Some JNull), g')"
      "hm_get (steps g') (?w, cs_seq s) = Some r" "sr_name r = ''DBOS.recv''" "sr_output r = Some JNull"
      "sr_error r = None"
    using consume_head [OF assms(4), of "cs_seq s" "''DBOS.recv''"] assms(2) by (auto simp: mem_steps_def)
  have g: "replay_or_guard C (option_from_value json_serde) (cs_seq s) ''DBOS.recv'' ?s0 = (Inr None, ?s0)"
    using mem_guard_fresh [OF assms(1), of ?s0] assms(2,3) by simp
  have n: "mem_steps ?w g' (cs_seq s) = Some \<lparr> rs_name = ''DBOS.recv'', rs_outcome = Output JNull \<rparr>"
    using c by (simp add: mem_steps_def step_row_outcome_def)
  have t: "take_message C json_serde topic (cs_seq s) ?s0 = (Inr (Some JNull), ?s0 \<lparr> cs_store := g' \<rparr>)"
    using c(1) assms(1) by (simp add: take_message_def and_then_def prov_def memory_provider_def json_serde_def)
  have "recv C json_serde topic timeout (Suc fuel) s = Some (Inr (Some JNull), ?s0 \<lparr> cs_store := g' \<rparr>)"
    by (simp add: recv_def waiting_op_def g wait_loop.simps(2) t)
  moreover have "\<exists>u'. recv C json_serde topic timeout fuel u = Some (Inr None, u')"
    if "cs_seq u = cs_seq s" "mem_steps ?w (cs_store u) (cs_seq s) = mem_steps ?w g' (cs_seq s)" for u
    using that n mem_guard_recorded [OF assms(1), of "u \<lparr> cs_seq := i32_wrap (i32_wrap (cs_seq s + 1) + 1) \<rparr>" "cs_seq s"
      _ "option_from_value json_serde" "''DBOS.recv''"]
    by (simp add: recv_def waiting_op_def option_from_value_def Let_def)
  ultimately show ?thesis by auto
qed

text \<open>
  A timeout out of range of the calendar library expires at once: if the timeout has no
  \<open>chrono\<close> duration (such as \<open>Duration::MAX\<close>), \<open>recv\<close> on an empty mailbox records a timeout and
  returns \<open>None\<close> in its first pass, without waiting.
\<close>

theorem unrepresentable_timeout_expires:
  assumes "cx_provider C = memory_provider from_ms" "mem_active (cx_workflow_id C) (cs_store s)"
    and "mem_steps (cx_workflow_id C) (cs_store s) = (\<lambda>i. None)"
    and "mailbox (cx_workflow_id C) topic (cs_store s) = []" "cx_from_std C timeout = None" "mono (cx_clock C)"
    and "sd_to_value (cx_instant C) (cx_clock C (cs_ticks s)) = Inr j"
    and "sd_from_value (cx_instant C) j = Inr (cx_clock C (cs_ticks s))"
  shows "\<exists>s'. recv C d topic timeout (Suc fuel) s = Some (Inr None, s')"
proof -
  let ?w = "cx_workflow_id C" and ?s0 = "s \<lparr> cs_seq := i32_wrap (i32_wrap (cs_seq s + 1) + 1) \<rparr>"
  let ?s1 = "?s0 \<lparr> cs_ticks := Suc (cs_ticks s) \<rparr>" and ?dq = "i32_wrap (cs_seq s + 1)"
  have g: "replay_or_guard C (option_from_value d) (cs_seq s) ''DBOS.recv'' ?s0 = (Inr None, ?s0)"
    using mem_guard_fresh [OF assms(1), of ?s0] assms(2,3) by simp
  have t: "take_message C d topic (cs_seq s) ?s0 = (Inr None, ?s0)"
    using consume_empty [OF assms(4)] assms(1) by (simp add: take_message_def and_then_def prov_def memory_provider_def)
  obtain s2 where r: "record_step C ?dq ''DBOS.sleep'' j None None ?s1 = (Inr (Output j), s2)"
    using mem_record_fresh [OF assms(1), of ?s1 ?dq "''DBOS.sleep''" j None None] assms(3)
    by (auto simp: mem_recorded_def)
  have w: "durable_wake_at C ?dq timeout ?s0 = (Inr (cx_clock C (cs_ticks s)), s2)"
    using assms(1,3,5,7,8) r
    by (simp add: durable_wake_at_def and_then_def prov_def mem.get_step with_now_def checkpoint_def outcome_value_def)
  have "cs_ticks s \<le> cs_ticks s2" using ticks_growD [OF ticks_wake w] by simp
  then have "cx_clock C (cs_ticks s) \<le> cx_clock C (cs_ticks s2)" using assms(6) by (simp add: mono_def)
  moreover obtain s4 where "record_null C (cs_seq s) ''DBOS.recv'' (s2 \<lparr> cs_ticks := Suc (cs_ticks s2) \<rparr>) = (Inr (), s4)"
    using assms(1) by (auto simp: record_null_def and_then_def record_step_def with_now_def prov_def memory_provider_def
      record_step_result_def step_or_insert_def Let_def split: prod.splits)
  ultimately show ?thesis
    by (auto simp: recv_def waiting_op_def g wait_loop.simps(2) t w and_then_def split: prod.splits)
qed

theorem recv_null_lost_witness:
  "\<exists>s'. recv wit_ctx json_serde ''n'' 5 1
       (wit_state (snd (insert_notification ''c'' ''n'' JNull None ''u'' 0 wit_store))) = Some (Inr (Some JNull), s') \<and>
     (\<exists>u'. recv wit_ctx json_serde ''n'' 5 0 (s' \<lparr> cs_seq := 0 \<rparr>) = Some (Inr None, u'))"
proof -
  let ?g = "snd (insert_notification ''c'' ''n'' JNull None ''u'' 0 wit_store)"
  have m: "mailbox ''c'' ''n'' ?g = JNull # []" "mem_active ''c'' ?g" "steps ?g = []" by code_simp+
  then show ?thesis
    using recv_null_lost [of wit_ctx wit_from_ms "wit_state ?g" "''n''" "[]" 5 0]
    by (auto simp: wit_state_def mem_steps_def [of _ ?g] dest: spec [of _ "_ \<lparr> cs_seq := 0 \<rparr>"])
qed

definition wit_ctx_no_std :: "inner ctx_env" where
  "wit_ctx_no_std = wit_ctx \<lparr> cx_from_std := (\<lambda>d. None) \<rparr>"

theorem unrepresentable_timeout_expires_witness:
  "\<exists>s'. recv wit_ctx_no_std json_serde ''t'' (10 ^ 28) 1 (wit_state wit_store) = Some (Inr None, s')"
proof -
  have "mailbox ''c'' ''t'' wit_store = []" by code_simp
  moreover have "mono (\<lambda>n. 1000000 * int n)" by (simp add: mono_def)
  ultimately show ?thesis
    using unrepresentable_timeout_expires [of wit_ctx_no_std wit_from_ms "wit_state wit_store" "''t''" "10 ^ 28"
        "JInt 0" json_serde 0]
    by (simp add: wit_ctx_no_std_def wit_state_def fun_eq_iff) (simp add: wit_ctx_def)
qed

section \<open>Patches\<close>

text \<open>
  A patch decision is stable: the new path is taken exactly when the position is free or holds
  this patch's marker, and only then a position is consumed. Every later execution at the position
  decides the same way without writing, and \<open>deprecate_patch\<close> in place of \<open>patch\<close> leaves the counter
  where \<open>patch\<close> did, so that the checkpoints that follow stay aligned.
\<close>

theorem patch_stable:
  fixes s :: "(inner, 'x) ctx_state"
  assumes "cx_provider C = memory_provider from_ms"
  shows "\<exists>b s'. patch C name s = (Inr b, s') \<and>
    (b \<longleftrightarrow> is_none_or (\<lambda>r. rs_name r = PATCH_PREFIX @ name) (mem_steps (cx_workflow_id C) (cs_store s) (cs_seq s))) \<and>
    cs_seq s' = (if b then i32_wrap (cs_seq s + 1) else cs_seq s) \<and>
    (\<forall>u :: (inner, 'x) ctx_state. cs_seq u = cs_seq s \<longrightarrow>
       mem_steps (cx_workflow_id C) (cs_store u) (cs_seq s) = mem_steps (cx_workflow_id C) (cs_store s') (cs_seq s) \<longrightarrow>
       patch C name u = (Inr b, u \<lparr> cs_seq := cs_seq s' \<rparr>) \<and>
       deprecate_patch C name u = (Inr (), u \<lparr> cs_seq := cs_seq s' \<rparr>))"
proof -
  have n: "prov (pv_get_step_name (cx_provider C) (cx_workflow_id C) i) u =
      (Inr (map_option rs_name (mem_steps (cx_workflow_id C) (cs_store u) i)), u)" for i and u :: "(inner, 'x) ctx_state"
    using assms by (simp add: prov_def memory_provider_def get_step_name_def mem_steps_def option.map_comp comp_def)
  obtain st where r: "pv_record_patch (cx_provider C) (cx_workflow_id C) (cs_seq s) (PATCH_PREFIX @ name) (cs_store s) =
      (Inr (), st)"
      "mem_steps (cx_workflow_id C) (cs_store s) (cs_seq s) = None \<Longrightarrow>
         map_option rs_name (mem_steps (cx_workflow_id C) st (cs_seq s)) = Some (PATCH_PREFIX @ name)"
    using assms by (simp add: memory_provider_def record_patch_def step_or_insert_def mem_steps_def split: option.splits)
  show ?thesis
  proof (cases "mem_steps (cx_workflow_id C) (cs_store s) (cs_seq s)")
    case None
    let ?s' = "s \<lparr> cs_store := st, cs_seq := i32_wrap (cs_seq s + 1) \<rparr>"
    have "patch C name s = (Inr True, ?s')"
      using None r(1) by (simp add: patch_def Let_def and_then_def n) (simp add: prov_def)
    with None r(2) show ?thesis
      by (intro exI [of _ True] exI [of _ ?s']) (auto simp: patch_def deprecate_patch_def Let_def and_then_def n)
  next
    case (Some x)
    then show ?thesis
      by (intro exI [of _ "rs_name x = PATCH_PREFIX @ name"]
          exI [of _ "if rs_name x = PATCH_PREFIX @ name then s \<lparr> cs_seq := i32_wrap (cs_seq s + 1) \<rparr> else s"])
         (auto simp: patch_def deprecate_patch_def Let_def and_then_def n cs_seq_same)
  qed
qed

theorem patch_stable_witness:
  "\<exists>b s'. patch wit_ctx ''v2'' (wit_state wit_store) = (Inr b, s') \<and> b \<and>
     patch wit_ctx ''v2'' (s' \<lparr> cs_seq := 0 \<rparr>) = (Inr True, s')"
  using patch_stable [of wit_ctx wit_from_ms "''v2''" "wit_state wit_store"]
  by (auto simp: wit_state_def cs_seq_same dest: spec [of _ "_ \<lparr> cs_seq := 0 \<rparr>"])

section \<open>Sends\<close>

text \<open>
  A failed send is not checkpointed: sending to a workflow that does not exist returns
  \<open>NonExistentWorkflow\<close> and leaves the store as it is, so a replay at the same position after the
  destination came into being sends the message and succeeds, where the first run saw the error.
\<close>

theorem send_failure_not_recorded:
  assumes "cx_provider C = memory_provider from_ms" "mem_steps (cx_workflow_id C) (cs_store s) (cs_seq s) = None"
    and "mem_active (cx_workflow_id C) (cs_store s)" "\<not> hm_contains (workflows (cs_store s)) dest"
    and "cs_seq u = cs_seq s" "mem_steps (cx_workflow_id C) (cs_store u) = mem_steps (cx_workflow_id C) (cs_store s)"
    and "mem_active (cx_workflow_id C) (cs_store u)" "hm_contains (workflows (cs_store u)) dest"
  shows "(\<exists>s'. send C dest (Inr m) topic s = (Inl (nonexistent_workflow dest), s') \<and> cs_store s' = cs_store s) \<and>
    fst (send C dest (Inr m) topic u) = Inr () \<and>
    length (notifications (cs_store (snd (send C dest (Inr m) topic u)))) = Suc (length (notifications (cs_store u)))"
proof -
  let ?q = "i32_wrap (cs_seq s + 1)"
  have g: "replay_or_guard C Inr (cs_seq s) ''DBOS.send'' (s \<lparr> cs_seq := ?q \<rparr>) = (Inr (None :: json option), s \<lparr> cs_seq := ?q \<rparr>)"
      "replay_or_guard C Inr (cs_seq s) ''DBOS.send'' (u \<lparr> cs_seq := ?q \<rparr>) = (Inr (None :: json option), u \<lparr> cs_seq := ?q \<rparr>)"
    using mem_guard_fresh [OF assms(1), of "s \<lparr> cs_seq := ?q \<rparr>" "cs_seq s" "Inr :: json \<Rightarrow> json result" "''DBOS.send''"]
      mem_guard_fresh [OF assms(1), of "u \<lparr> cs_seq := ?q \<rparr>" "cs_seq s" "Inr :: json \<Rightarrow> json result" "''DBOS.send''"]
      assms(2,3,6,7) by simp_all
  have "\<exists>s'. send C dest (Inr m) topic s = (Inl (nonexistent_workflow dest), s') \<and> cs_store s' = cs_store s"
    using assms(1,4)
    by (simp add: send_def next_seq_def and_then_def g) (simp add: with_now_def prov_def memory_provider_def insert_notification_def)
  moreover have "fst (send C dest (Inr m) topic u) = Inr () \<and>
      length (notifications (cs_store (snd (send C dest (Inr m) topic u)))) = Suc (length (notifications (cs_store u)))"
    using assms(1,8)
    by (simp add: send_def next_seq_def and_then_def assms(5) g)
       (simp add: with_now_def prov_def memory_provider_def insert_notification_def record_null_def and_then_def
         record_step_def record_step_result_def step_or_insert_def Let_def)
  ultimately show ?thesis by blast
qed

theorem send_failure_not_recorded_witness:
  "fst (send wit_ctx ''z'' (Inr JNull) ''t'' (wit_state wit_store)) = Inl (nonexistent_workflow ''z'') \<and>
   fst (send wit_ctx ''z'' (Inr JNull) ''t''
     (wit_state (snd (insert_workflow_status (wit_row ''z'') wit_store)))) = Inr ()"
proof -
  let ?g = "snd (insert_workflow_status (wit_row ''z'') wit_store)"
  have "steps ?g = []" "mem_active ''c'' ?g" "hm_contains (workflows ?g) ''z''"
      "\<not> hm_contains (workflows wit_store) ''z''" by code_simp+
  then show ?thesis
    using send_failure_not_recorded [of wit_ctx wit_from_ms "wit_state wit_store" "''z''" "wit_state ?g" JNull "''t''"]
    by (auto simp: wit_state_def mem_steps_def [of _ ?g] fun_eq_iff)
qed

end
