(* ===== verification/Engine.thy ===== *)
theory Engine
  imports Durable_Waits
begin

text \<open>
  The execution core of \<open>src/src/engine.rs\<close>: options and registration, the creation of a run, starting
  workflows and child workflows, running a handler to its terminal status, and recovery. A handler is
  a function of the workflow id, its identity and its input on the state of a run; a spawned task is a
  value that names the run, executed by \<open>run_to_completion\<close>. Clock readings are arguments.
\<close>

section \<open>Options and configuration\<close>

datatype deduplication_policy = Reject | ReturnExisting

record workflow_options =
  wo_workflow_id :: "string option"
  wo_dedup_id :: "string option"
  wo_dedup_policy :: deduplication_policy
  wo_app_version :: "string option"
  wo_queue :: "string option"
  wo_priority :: int
  wo_partition_key :: "string option"
  wo_timeout :: "duration option"
  wo_delay :: "duration option"
  wo_authenticated_user :: "string option"
  wo_assumed_role :: "string option"
  wo_authenticated_roles :: "string list"
  wo_config_name :: "string option"
  wo_class_name :: "string option"

definition workflow_options_default :: workflow_options where
  "workflow_options_default =
     \<lparr> wo_workflow_id = None, wo_dedup_id = None, wo_dedup_policy = Reject, wo_app_version = None,
       wo_queue = None, wo_priority = 0, wo_partition_key = None, wo_timeout = None, wo_delay = None,
       wo_authenticated_user = None, wo_assumed_role = None, wo_authenticated_roles = [],
       wo_config_name = None, wo_class_name = None \<rparr>"

definition with_id :: "string \<Rightarrow> workflow_options" where
  "with_id wid = workflow_options_default \<lparr> wo_workflow_id := Some wid \<rparr>"

record engine_config =
  ec_app_version :: "string option"
  ec_executor_id :: "string option"
  ec_recover_on_launch :: "bool option"

text \<open>
  The environment variables \<open>DBOS__APPVERSION\<close> and \<open>DBOS__VMID\<close> win over the configuration when set and
  not empty; the default version is the hash of the executable.
\<close>

definition resolve_app_version :: "string option \<Rightarrow> string \<Rightarrow> engine_config \<Rightarrow> string" where
  "resolve_app_version env binary_version c =
     (case env of
        Some v \<Rightarrow> if v \<noteq> [] then v else unwrap_or (ec_app_version c) binary_version
      | None \<Rightarrow> unwrap_or (ec_app_version c) binary_version)"

definition resolve_executor_id :: "string option \<Rightarrow> engine_config \<Rightarrow> string" where
  "resolve_executor_id env c =
     (case env of
        Some v \<Rightarrow> if v \<noteq> [] then v else unwrap_or (ec_executor_id c) ''local''
      | None \<Rightarrow> unwrap_or (ec_executor_id c) ''local'')"

definition resolve_recover_on_launch :: "engine_config \<Rightarrow> bool" where
  "resolve_recover_on_launch c = unwrap_or (ec_recover_on_launch c) False"

definition INTERNAL_QUEUE :: string where
  "INTERNAL_QUEUE = ''_dbos_internal_queue''"

definition DEBOUNCER_WF :: string where
  "DEBOUNCER_WF = ''_dbos_debouncer''"

definition internal_queue :: workflow_queue where
  "internal_queue = base_polling_interval (from_millis 100) (workflow_queue_new INTERNAL_QUEUE)"

definition registry_key :: "string \<Rightarrow> string option \<Rightarrow> string" where
  "registry_key name config_name =
     (case config_name of Some c \<Rightarrow> if c \<noteq> [] then name @ ''/'' @ c else name | None \<Rightarrow> name)"

section \<open>The builder\<close>

text \<open>An annotated workflow of the binary: its name, handler and cron spec.\<close>

record 'h workflow_registration =
  wr_name :: string
  wr_handler :: 'h
  wr_schedule :: "string option"

text \<open>Strict insertion: the first repeated key is an error.\<close>

fun insert_strict :: "('v \<Rightarrow> string) \<Rightarrow> ('v \<Rightarrow> 'w) \<Rightarrow> 'v list \<Rightarrow> (string, 'w) hashmap \<Rightarrow> (string, 'w) hashmap result" where
  "insert_strict key val [] m = Inr m"
| "insert_strict key val (v # vs) m =
     (if hm_contains m (key v) then Inl (conflicting_registration (key v))
      else insert_strict key val vs (hm_insert (key v) (val v) m))"

record 'h registry =
  rg_workflows :: "(string, 'h) hashmap"
  rg_queues :: "(string, workflow_queue) hashmap"
  rg_scheduled :: "(string \<times> string) list"

definition build ::
    "'h \<Rightarrow> 'h workflow_registration list \<Rightarrow> (string \<times> 'h) list \<Rightarrow> workflow_queue list \<Rightarrow> 'h registry result" where
  "build debouncer auto_regs explicit qs =
     (case insert_strict wr_name wr_handler auto_regs (hm_insert DEBOUNCER_WF debouncer []) of
        Inl e \<Rightarrow> Inl e
      | Inr m1 \<Rightarrow>
          (case insert_strict fst snd explicit m1 of
             Inl e \<Rightarrow> Inl e
           | Inr m2 \<Rightarrow>
               (case insert_strict q_name id qs (hm_insert INTERNAL_QUEUE internal_queue []) of
                  Inl e \<Rightarrow> Inl e
                | Inr q \<Rightarrow> Inr
                    \<lparr> rg_workflows = m2, rg_queues = q,
                      rg_scheduled = List.map_filter
                        (\<lambda>r. map_option (Pair (wr_name r)) (wr_schedule r)) auto_regs \<rparr>)))"

section \<open>Creating a run\<close>

record ('s, 'h) runtime =
  rt_provider :: "'s provider"
  rt_workflows :: "(string, 'h) hashmap"
  rt_queues :: "(string, workflow_queue) hashmap"
  rt_executor_id :: string
  rt_app_version :: string

definition run_status :: "workflow_options \<Rightarrow> string" where
  "run_status opts =
     (if wo_queue opts = None then STATUS_PENDING
      else if wo_delay opts = None then STATUS_ENQUEUED else STATUS_DELAYED)"

definition run_row ::
    "('s, 'h) runtime \<Rightarrow> string \<Rightarrow> string \<Rightarrow> json \<Rightarrow> workflow_options \<Rightarrow> string option \<Rightarrow> auth_context
       \<Rightarrow> datetime \<Rightarrow> datetime \<Rightarrow> workflow_status" where
  "run_row R wid name input opts parent auth now created =
     (let queued = (wo_queue opts \<noteq> None);
          executor = (if queued then [] else rt_executor_id R);
          row = (workflow_status_new wid name input (run_status opts) executor
                   (unwrap_or (wo_app_version opts) (rt_app_version R)) created)
            \<lparr> ws_queue_name := wo_queue opts, ws_priority := wo_priority opts,
              ws_queue_partition_key := wo_partition_key opts, ws_dedup_id := wo_dedup_id opts,
              ws_parent_workflow_id := parent,
              ws_authenticated_user := ac_authenticated_user auth,
              ws_assumed_role := ac_assumed_role auth,
              ws_authenticated_roles := ac_authenticated_roles auth,
              ws_class_name := wo_class_name opts, ws_config_name := wo_config_name opts,
              ws_timeout_ms := map_option as_millis_i64 (wo_timeout opts),
              ws_delay_until_ms := map_option
                (\<lambda>d. i64_wrap (timestamp_millis now + as_millis_i64 d)) (wo_delay opts) \<rparr>
      in if queued then row
         else row
           \<lparr> ws_started_at_ms := Some (timestamp_millis created),
             ws_deadline_ms := map_option (\<lambda>t. i64_wrap (timestamp_millis created + t)) (ws_timeout_ms row) \<rparr>)"

definition insert_run ::
    "('s, 'h) runtime \<Rightarrow> string \<Rightarrow> string \<Rightarrow> json \<Rightarrow> workflow_options \<Rightarrow> string option \<Rightarrow> auth_context
       \<Rightarrow> datetime \<Rightarrow> datetime \<Rightarrow> ('s, workflow_status \<times> bool \<times> bool) op" where
  "insert_run R wid name input opts parent auth now created =
     (case wo_queue opts of
        Some q \<Rightarrow>
          if \<not> hm_contains (rt_queues R) q then fail (UnknownQueue q)
          else and_then (pv_insert_workflow_status (rt_provider R)
                 (run_row R wid name input opts parent auth now created))
               (\<lambda>(canonical, fresh). ok (canonical, True, fresh))
      | None \<Rightarrow>
          if wo_delay opts \<noteq> None
          then fail (app ''WorkflowOptions.delay requires a queue; direct runs start immediately'')
          else and_then (pv_insert_workflow_status (rt_provider R)
                 (run_row R wid name input opts parent auth now created))
               (\<lambda>(canonical, fresh). ok (canonical, False, fresh)))"

text \<open>A spawned run: what \<open>spawn_owned\<close> and \<open>spawn_detached\<close> hand to the task tracker.\<close>

record 'h spawned_run =
  sp_id :: string
  sp_name :: string
  sp_handler :: 'h
  sp_input :: json
  sp_deadline_ms :: "int option"
  sp_auth :: auth_context

definition spawn_owned ::
    "string \<Rightarrow> string \<Rightarrow> 'h \<Rightarrow> json \<Rightarrow> int option \<Rightarrow> auth_context \<Rightarrow> 'h spawned_run" where
  "spawn_owned wid name handler input deadline_ms auth =
     \<lparr> sp_id = wid, sp_name = name, sp_handler = handler, sp_input = input,
       sp_deadline_ms = deadline_ms, sp_auth = auth \<rparr>"

text \<open>A handle: over a task this process owns, or by polling the row.\<close>

datatype 'h handle = Local string "'h spawned_run" | Polling string

fun handle_id :: "'h handle \<Rightarrow> string" where
  "handle_id (Local wid t) = wid"
| "handle_id (Polling wid) = wid"

section \<open>Starting workflows\<close>

text \<open>
  The insertion loop of \<open>start\<close>: on a deduplication collision under \<open>ReturnExisting\<close> the holder of the
  slot is looked up, and the insertion is tried again if the slot was freed in between. \<open>env n\<close> is what
  other tasks do between the \<open>n\<close>-th insertion and the lookup.
\<close>

fun start_loop ::
    "('s, 'h) runtime \<Rightarrow> (nat \<Rightarrow> 's \<Rightarrow> 's) \<Rightarrow> (nat \<Rightarrow> datetime) \<Rightarrow> string \<Rightarrow> string \<Rightarrow> json \<Rightarrow> workflow_options
       \<Rightarrow> auth_context \<Rightarrow> nat \<Rightarrow> nat \<Rightarrow> 's
       \<Rightarrow> (((workflow_status \<times> bool \<times> bool) + string) result \<times> 's) option" where
  "start_loop R env clk wid name input opts auth 0 n s = None"
| "start_loop R env clk wid name input opts auth (Suc fuel) n s =
     (case insert_run R wid name input opts None auth (clk (2 * n)) (clk (2 * n + 1)) s of
        (Inr v, s1) \<Rightarrow> Some (Inr (Inl v), s1)
      | (Inl e, s1) \<Rightarrow>
          if wo_dedup_policy opts = ReturnExisting \<and> code e = ErrorCode_QueueDeduplicated
          then
            (case (wo_queue opts, wo_dedup_id opts) of
               (Some q, Some d) \<Rightarrow>
                 (case pv_get_deduplicated_workflow (rt_provider R) q d (env n s1) of
                    (Inl e', s2) \<Rightarrow> Some (Inl e', s2)
                  | (Inr (Some existing), s2) \<Rightarrow> Some (Inr (Inr existing), s2)
                  | (Inr None, s2) \<Rightarrow> start_loop R env clk wid name input opts auth fuel (Suc n) s2)
             | _ \<Rightarrow> start_loop R env clk wid name input opts auth fuel (Suc n) s1)
          else Some (Inl e, s1))"

declare start_loop.simps(2) [simp del]

definition resolve_id :: "workflow_options \<Rightarrow> string \<Rightarrow> string" where
  "resolve_id opts fresh =
     (case wo_workflow_id opts of Some i \<Rightarrow> if i \<noteq> [] then i else fresh | None \<Rightarrow> fresh)"

definition opts_auth :: "workflow_options \<Rightarrow> auth_context" where
  "opts_auth opts =
     \<lparr> ac_authenticated_user = wo_authenticated_user opts, ac_assumed_role = wo_assumed_role opts,
       ac_authenticated_roles = wo_authenticated_roles opts \<rparr>"

definition start ::
    "('s, 'h) runtime \<Rightarrow> (nat \<Rightarrow> 's \<Rightarrow> 's) \<Rightarrow> (nat \<Rightarrow> datetime) \<Rightarrow> string \<Rightarrow> string \<Rightarrow> json result
       \<Rightarrow> workflow_options \<Rightarrow> nat \<Rightarrow> 's \<Rightarrow> ('h handle result \<times> 's) option" where
  "start R env clk fresh name input opts fuel s =
     (let wid = resolve_id opts fresh; auth = opts_auth opts in
      case input of
        Inl e \<Rightarrow> Some (Inl e, s)
      | Inr j \<Rightarrow>
          if wo_dedup_policy opts \<noteq> Reject \<and> wo_dedup_id opts = None
          then Some (Inl (app ''a deduplication policy requires a deduplication id''), s)
          else
            (case hm_get (rt_workflows R) (registry_key name (wo_config_name opts)) of
               None \<Rightarrow> Some (Inl (UnknownWorkflow name), s)
             | Some handler \<Rightarrow>
                 (case start_loop R env clk wid name j opts auth fuel 0 s of
                    None \<Rightarrow> None
                  | Some (Inl e, s1) \<Rightarrow> Some (Inl e, s1)
                  | Some (Inr (Inr existing), s1) \<Rightarrow> Some (Inr (Polling existing), s1)
                  | Some (Inr (Inl (canonical, queued, _)), s1) \<Rightarrow>
                      if queued \<or> is_terminal (ws_status canonical)
                      then Some (Inr (Polling wid), s1)
                      else Some (Inr (Local wid (spawn_owned wid name handler (ws_input canonical)
                             (ws_deadline_ms canonical) auth)), s1))))"

text \<open>A child is spawned unless it is queued or already terminal.\<close>

definition spawn_child ::
    "('s, 'h) runtime \<Rightarrow> string \<Rightarrow> string \<Rightarrow> json \<Rightarrow> workflow_options \<Rightarrow> string \<Rightarrow> auth_context
       \<Rightarrow> datetime \<Rightarrow> datetime \<Rightarrow> ('s, 'h spawned_run option) op" where
  "spawn_child R child_id name input opts parent_id auth now created =
     (case hm_get (rt_workflows R) (registry_key name (wo_config_name opts)) of
        None \<Rightarrow> fail (UnknownWorkflow name)
      | Some handler \<Rightarrow>
          and_then (insert_run R child_id name input opts (Some parent_id) auth now created)
          (\<lambda>(canonical, queued, _).
             ok (if \<not> queued \<and> \<not> is_terminal (ws_status canonical)
                 then Some (spawn_owned child_id name handler (ws_input canonical) (ws_deadline_ms canonical) auth)
                 else None)))"

definition child_auth :: "auth_context \<Rightarrow> workflow_options \<Rightarrow> auth_context" where
  "child_auth parent opts =
     \<lparr> ac_authenticated_user =
         (case wo_authenticated_user opts of None \<Rightarrow> ac_authenticated_user parent | u \<Rightarrow> u),
       ac_assumed_role = (case wo_assumed_role opts of None \<Rightarrow> ac_assumed_role parent | r \<Rightarrow> r),
       ac_authenticated_roles =
         (if wo_authenticated_roles opts = [] then ac_authenticated_roles parent
          else wo_authenticated_roles opts) \<rparr>"

text \<open>\<open>DurableContext::start_workflow\<close>: the child's id and the run spawned for it, if any.\<close>

definition start_workflow ::
    "('s, 'h) runtime \<Rightarrow> 's ctx_env \<Rightarrow> string \<Rightarrow> json result \<Rightarrow> workflow_options
       \<Rightarrow> ('s, 'x, string \<times> 'h spawned_run option) cop" where
  "start_workflow R C name input opts =
     next_seq (\<lambda>seq.
       and_then (prov (pv_check_child_workflow (cx_provider C) (cx_workflow_id C) seq))
       (\<lambda>rec. case rec of
          Some (child_id, recorded) \<Rightarrow>
            if recorded \<noteq> name
            then fail (unexpected_step (cx_workflow_id C) seq name recorded)
            else ok (child_id, None)
        | None \<Rightarrow>
            let child_id = resolve_id opts (cx_workflow_id C @ ''-'' @ int_to_string seq) in
            (case input of
               Inl e \<Rightarrow> fail e
             | Inr j \<Rightarrow>
                 and_then (with_now C (\<lambda>now. with_now C (\<lambda>created. prov
                   (spawn_child R child_id name j (opts \<lparr> wo_workflow_id := Some child_id \<rparr>)
                      (cx_workflow_id C) (child_auth (cx_auth C) opts) now created))))
                 (\<lambda>task. and_then (prov (pv_record_child_workflow (cx_provider C) (cx_workflow_id C) seq name child_id))
                   (\<lambda>_. ok (child_id, task))))))"

section \<open>Running to completion\<close>

text \<open>
  A handler runs on the state of its workflow, which starts at step 0. \<open>timed ms run\<close> is
  \<open>tokio::time::timeout\<close>: it gives nothing when the deadline elapses first and the run is dropped
  where it was.
\<close>

type_synonym ('s, 'x) wf_fn =
  "string \<Rightarrow> auth_context \<Rightarrow> json \<Rightarrow> ('s, 'x) ctx_state \<Rightarrow> json body_result \<times> ('s, 'x) ctx_state"

type_synonym ('s, 'x) timed =
  "nat \<Rightarrow> (('s, 'x) ctx_state \<Rightarrow> json body_result \<times> ('s, 'x) ctx_state)
     \<Rightarrow> ('s, 'x) ctx_state \<Rightarrow> json body_result option \<times> ('s, 'x) ctx_state"

text \<open>The JSON-in, JSON-out handler of a typed workflow function; the run builds its context.\<close>

definition erase ::
    "'s ctx_env \<Rightarrow> 'i serde \<Rightarrow> 'o serde
       \<Rightarrow> ('s ctx_env \<Rightarrow> 'i \<Rightarrow> ('s, 'x) ctx_state \<Rightarrow> 'o body_result \<times> ('s, 'x) ctx_state) \<Rightarrow> ('s, 'x) wf_fn" where
  "erase C di do f wid auth input s =
     (case sd_from_value di input of
        Inl e \<Rightarrow> (Returned (Inl e), s)
      | Inr i \<Rightarrow>
          (case f (C \<lparr> cx_workflow_id := wid, cx_auth := auth \<rparr>) i s of
             (Panicked p, s1) \<Rightarrow> (Panicked p, s1)
           | (Returned (Inl e), s1) \<Rightarrow> (Returned (Inl e), s1)
           | (Returned (Inr v), s1) \<Rightarrow> (Returned (sd_to_value do v), s1)))"

definition set_status ::
    "'s ctx_env \<Rightarrow> string \<Rightarrow> string \<Rightarrow> json option \<Rightarrow> string option \<Rightarrow> ('s, 'x, unit) cop" where
  "set_status C wid status output err =
     with_now C (\<lambda>now. prov (pv_set_workflow_status (cx_provider C) wid status output err now))"

definition run_caught ::
    "'s ctx_env \<Rightarrow> ('s, 'x) timed \<Rightarrow> (('s, 'x) ctx_state \<Rightarrow> json body_result \<times> ('s, 'x) ctx_state)
       \<Rightarrow> int option \<Rightarrow> ('s, 'x) ctx_state \<Rightarrow> json body_result option \<times> ('s, 'x) ctx_state" where
  "run_caught C timed run deadline_ms s =
     (case deadline_ms of
        Some dl \<Rightarrow>
          timed (nat (max 0 (i64_wrap (dl - timestamp_millis (cx_clock C (cs_ticks s)))))) run
            (s \<lparr> cs_ticks := Suc (cs_ticks s) \<rparr>)
      | None \<Rightarrow> map_prod Some id (run s))"

definition run_to_completion ::
    "'s ctx_env \<Rightarrow> ('s, 'x) timed \<Rightarrow> ('s, 'x) wf_fn \<Rightarrow> string \<Rightarrow> json \<Rightarrow> int option \<Rightarrow> auth_context
       \<Rightarrow> ('s, 'x, json) cop" where
  "run_to_completion C timed handler wid input deadline_ms auth s =
     (case run_caught C timed (handler wid auth input) deadline_ms (s \<lparr> cs_seq := 0 \<rparr>) of
        (None, s1) \<Rightarrow>
          and_then (set_status C wid STATUS_CANCELLED None (Some ''deadline exceeded'')) (\<lambda>_. fail Timeout) s1
      | (Some (Panicked p), s1) \<Rightarrow> fail (app (''workflow panicked: '' @ panic_message p)) s1
      | (Some (Returned (Inr output)), s1) \<Rightarrow>
          and_then (set_status C wid STATUS_SUCCESS (Some output) None) (\<lambda>_. ok output) s1
      | (Some (Returned (Inl e)), s1) \<Rightarrow>
          (case e of
             Cancelled _ \<Rightarrow>
               and_then (set_status C wid STATUS_CANCELLED None (Some ''cancelled'')) (\<lambda>_. fail (Cancelled wid)) s1
           | _ \<Rightarrow>
               and_then (set_status C wid STATUS_ERROR None
                 (Some (encode_error (cx_codec C) (pv_serializer (cx_provider C)) e))) (\<lambda>_. fail e) s1))"

section \<open>Recovery\<close>

definition pending_filter :: "('s, 'h) runtime \<Rightarrow> string list \<Rightarrow> list_filter" where
  "pending_filter R executor_ids =
     list_filter_default \<lparr> lf_status := [STATUS_PENDING], lf_app_version := [rt_app_version R],
       lf_executor_ids := executor_ids \<rparr>"

definition list_pending_workflows :: "('s, 'h) runtime \<Rightarrow> string list \<Rightarrow> ('s, workflow_status list) op" where
  "list_pending_workflows R executor_ids = pv_list_workflows (rt_provider R) (pending_filter R executor_ids)"

record engine_counters =
  ct_workflows_recovered :: nat
  ct_dead_lettered :: nat
  ct_dequeue_errors :: nat

text \<open>
  The dispatch of a recovery snapshot. \<open>stop n\<close> is whether shutdown is observed before the \<open>n\<close>-th
  record. A direct run is executed in place and its own result is ignored.
\<close>

fun dispatch_pending_workflows ::
    "('s, ('s, 'x) wf_fn) runtime \<Rightarrow> 's ctx_env \<Rightarrow> ('s, 'x) timed \<Rightarrow> int \<Rightarrow> (nat \<Rightarrow> bool) \<Rightarrow> nat
       \<Rightarrow> workflow_status list \<Rightarrow> engine_counters \<Rightarrow> ('s, 'x) ctx_state
       \<Rightarrow> string list result \<times> engine_counters \<times> ('s, 'x) ctx_state" where
  "dispatch_pending_workflows R C timed mx stop n [] ct s = (Inr [], ct, s)"
| "dispatch_pending_workflows R C timed mx stop n (record # pending) ct s =
     (if stop n then (Inr [], ct, s)
      else
        (case with_now C (\<lambda>now. prov (pv_bump_recovery_attempts (rt_provider R) (ws_id record) mx now)) s of
           (Inl e, s1) \<Rightarrow> (Inl e, ct, s1)
         | (Inr attempts, s1) \<Rightarrow>
             if attempts > mx
             then dispatch_pending_workflows R C timed mx stop (Suc n) pending
                    (ct \<lparr> ct_dead_lettered := Suc (ct_dead_lettered ct) \<rparr>) s1
             else if ws_queue_name record \<noteq> None
             then
               (case set_status C (ws_id record) STATUS_ENQUEUED None None s1 of
                  (Inl e, s2) \<Rightarrow> (Inl e, ct, s2)
                | (Inr _, s2) \<Rightarrow>
                    apfst (map_sum id (Cons (ws_id record)))
                      (dispatch_pending_workflows R C timed mx stop (Suc n) pending
                         (ct \<lparr> ct_workflows_recovered := Suc (ct_workflows_recovered ct) \<rparr>) s2))
             else
               (case hm_get (rt_workflows R) (registry_key (ws_name record) (ws_config_name record)) of
                  Some handler \<Rightarrow>
                    (case run_to_completion C timed handler (ws_id record) (ws_input record) (ws_deadline_ms record)
                            (auth_from_status record) s1 of
                       (_, s2) \<Rightarrow>
                         apfst (map_sum id (Cons (ws_id record)))
                           (dispatch_pending_workflows R C timed mx stop (Suc n) pending
                              (ct \<lparr> ct_workflows_recovered := Suc (ct_workflows_recovered ct) \<rparr>) s2))
                | None \<Rightarrow> dispatch_pending_workflows R C timed mx stop (Suc n) pending ct s1)))"

declare dispatch_pending_workflows.simps(2) [simp del]

definition recover_pending_workflows ::
    "('s, ('s, 'x) wf_fn) runtime \<Rightarrow> 's ctx_env \<Rightarrow> ('s, 'x) timed \<Rightarrow> int \<Rightarrow> string list \<Rightarrow> (nat \<Rightarrow> bool)
       \<Rightarrow> engine_counters \<Rightarrow> ('s, 'x) ctx_state \<Rightarrow> string list result \<times> engine_counters \<times> ('s, 'x) ctx_state" where
  "recover_pending_workflows R C timed mx executor_ids stop ct s =
     (case prov (list_pending_workflows R executor_ids) s of
        (Inl e, s1) \<Rightarrow> (Inl e, ct, s1)
      | (Inr pending, s1) \<Rightarrow> dispatch_pending_workflows R C timed mx stop 0 pending ct s1)"

end
