(* ===== verification/Direct.thy ===== *)
theory Direct
  imports Replay
begin

text \<open>
  The specification of durable execution: the same body run directly, with no storage at all. The
  durable run of a body on a fresh store returns what the direct run returns and leaves the world as
  the direct run leaves it; after a crash, so does the second run for the part that is left.
\<close>

section \<open>Direct execution\<close>

function direct_retry :: "'s ctx_env \<Rightarrow> step_options \<Rightarrow> ('x, 'a) body \<Rightarrow> nat \<Rightarrow> 'x \<Rightarrow> 'a body_result \<times> 'x" where
  "direct_retry C opts f attempt x =
     (case caught (sto_name opts) (fst (f x)) of
        Inr v \<Rightarrow> (Returned (Inr v), snd (f x))
      | Inl e \<Rightarrow>
          if \<not> is_none_or (\<lambda>p. p e) (sto_retry_if opts) \<or> attempt \<ge> sto_max_retries opts
          then (Returned (Inl e), snd (f x))
          else
            (case cx_backoff C (sto_base_interval opts) (sto_backoff_factor opts) attempt of
               None \<Rightarrow> (Panicked (Panic_Text
                 ''cannot convert float seconds to Duration: value is either too big or NaN''), snd (f x))
             | Some _ \<Rightarrow> direct_retry C opts f (Suc attempt) (snd (f x))))"
  by pat_completeness auto

termination
  by (relation "measure (\<lambda>(C, opts, f, attempt, x). sto_max_retries opts - attempt)") auto

declare direct_retry.simps [simp del]

primrec direct_op :: "'s ctx_env \<Rightarrow> 'x wf_op \<Rightarrow> 'x \<Rightarrow> json body_result \<times> 'x" where
  "direct_op C (Do_Step name f) = (\<lambda>x. (Returned (caught name (fst (f x))), snd (f x)))"
| "direct_op C (Do_Step_With opts f) = direct_retry C opts f 0"
| "direct_op C (Do_Value name h) = (\<lambda>x. (Returned (Inr (fst (h x))), snd (h x)))"

primrec direct_run :: "'s ctx_env \<Rightarrow> 'x wf_body \<Rightarrow> 'x \<Rightarrow> json body_result \<times> 'x" where
  "direct_run C (Finish r) = Pair (Returned r)"
| "direct_run C (Await a k) = (\<lambda>x.
     case direct_op C a x of
       (Panicked p, y) \<Rightarrow> (Panicked p, y)
     | (Returned r, y) \<Rightarrow> direct_run C (k r) y)"

text \<open>The number of operations a direct run performs.\<close>

primrec direct_len :: "'s ctx_env \<Rightarrow> 'x wf_body \<Rightarrow> 'x \<Rightarrow> nat" where
  "direct_len C (Finish r) = (\<lambda>x. 0)"
| "direct_len C (Await a k) = (\<lambda>x.
     case direct_op C a x of
       (Panicked p, y) \<Rightarrow> 1
     | (Returned r, y) \<Rightarrow> Suc (direct_len C (k r) y))"

lemma retry_loop_direct:
  "fst (retry_loop C opts f n s) = fst (direct_retry C opts f n (cs_world s)) \<and>
   cs_world (snd (retry_loop C opts f n s)) = snd (direct_retry C opts f n (cs_world s))"
proof (induction "sto_max_retries opts - n" arbitrary: n s rule: less_induct)
  case (less n s)
  let ?s1 = "wait_env C (s \<lparr> cs_world := snd (f (cs_world s)), cs_step_retries := Suc (cs_step_retries s) \<rparr>)"
  have w: "cs_world ?s1 = snd (f (cs_world s))" by (simp add: wait_env_def)
  show ?case
    using less [of "Suc n" ?s1] unfolding retry_loop.simps [of C opts f n s] direct_retry.simps [of C opts f n]
    by (auto simp: run_step_catching_eq w diff_less_mono2 split: sum.splits option.splits)
qed

context step_store
begin

lemma record_result_returns:
  assumes "uses C" "steps_of (cs_store s) i = None"
  shows "fst (record_result C json_serde i name t (r, s)) = r"
    "cs_world (snd (record_result C json_serde i name t (r, s))) = cs_world s"
  using record_result_fresh [OF assms, of name t r] by auto

lemma exec_direct:
  assumes "serves C" "steps_of (cs_store s) (cs_seq s) = None" "active (cs_store s)"
  shows "fst (exec_op C a s) = fst (direct_op C a (cs_world s)) \<and>
         cs_world (snd (exec_op C a s)) = snd (direct_op C a (cs_world s))"
proof -
  note u = serves_uses [OF assms(1)]
  let ?s0 = "s \<lparr> cs_seq := i32_wrap (cs_seq s + 1) \<rparr>"
  let ?s1 = "?s0 \<lparr> cs_ticks := Suc (cs_ticks s) \<rparr>"
  have g: "replay_or_guard C fv (cs_seq s) name ?s0 = (Inr None, ?s0)" for fv :: "json \<Rightarrow> json result" and name
    using guard_fresh [OF u, of ?s0] assms(2,3) by simp
  show ?thesis
  proof (cases a)
    case (Do_Step name f)
    let ?s2 = "?s1 \<lparr> cs_world := snd (f (cs_world s)) \<rparr>"
    show ?thesis
      using record_result_returns [OF u, of ?s2 "cs_seq s" name] assms(2)
      by (simp add: Do_Step step_def next_seq_def and_then_def g with_now_def run_step_catching_eq)
  next
    case (Do_Step_With opts f)
    obtain b s2 where b: "retry_loop C opts f 0 ?s1 = (b, s2)" by fastforce
    have k: "steps_of (cs_store s2) (cs_seq s) = None"
      using retry_loop_keeps [OF b assms(1)] assms(2) by simp
    have d: "direct_retry C opts f 0 (cs_world s) = (b, cs_world s2)"
      using retry_loop_direct [of C opts f 0 ?s1] b by (simp add: prod_eq_iff)
    show ?thesis
      by (cases b) (simp_all add: Do_Step_With step_with_def g run_with_retries_def Let_def b d case_prod_beta
        record_result_returns [OF u k])
  next
    case (Do_Value name h)
    let ?s2 = "?s0 \<lparr> cs_world := snd (h (cs_world s)) \<rparr>"
    show ?thesis
      using record_step_fresh [OF u, of ?s2 "cs_seq s" name "fst (h (cs_world s))" None None] assms(2)
        uses_provider [OF u]
      by (auto simp: Do_Value durable_value_def next_seq_def and_then_def prov_def get_step checkpoint_def
        json_serde_def outcome_value_def recorded_output map_prod_def case_prod_beta)
  qed
qed

text \<open>Whatever the operation does, it records at most its own position and leaves the workflow active.\<close>

lemma exec_frame:
  assumes "serves C" "steps_of (cs_store s) (cs_seq s) = None" "active (cs_store s)"
    and "exec_op C a s = (Returned r, s')"
  shows "\<exists>x. steps_of (cs_store s') = (steps_of (cs_store s))(cs_seq s := x) \<and> active (cs_store s') \<and>
    cs_seq s' = i32_wrap (cs_seq s + 1)"
  using exec_fresh [OF assms] by blast

lemma run_body_direct:
  assumes "serves C" "active (cs_store s)" "0 \<le> cs_seq s"
    and "cs_seq s + int (direct_len C p (cs_world s)) \<le> i32_max"
    and "\<forall>i \<ge> cs_seq s. steps_of (cs_store s) i = None"
  shows "fst (run_body C p s) = fst (direct_run C p (cs_world s)) \<and>
         cs_world (snd (run_body C p s)) = snd (direct_run C p (cs_world s))"
  using assms(2-)
proof (induction p arbitrary: s)
  case (Await a k)
  obtain b s1 where e: "exec_op C a s = (b, s1)" by fastforce
  have d: "direct_op C a (cs_world s) = (b, cs_world s1)"
    using exec_direct [OF assms(1) _ Await.prems(1), of a] Await.prems(4) e by (simp add: prod_eq_iff)
  show ?case
  proof (cases b)
    case (Returned r)
    obtain x where x: "steps_of (cs_store s1) = (steps_of (cs_store s))(cs_seq s := x)" "active (cs_store s1)"
        "cs_seq s1 = i32_wrap (cs_seq s + 1)"
      using exec_frame [OF assms(1) _ Await.prems(1)] e Await.prems(4) Returned by blast
    have w: "i32_wrap (cs_seq s + 1) = cs_seq s + 1"
      using Await.prems(2,3) by (intro i32_wrap_id) (auto simp: i32_min_def d Returned)
    have "fst (run_body C (k r) s1) = fst (direct_run C (k r) (cs_world s1)) \<and>
        cs_world (snd (run_body C (k r) s1)) = snd (direct_run C (k r) (cs_world s1))"
      using Await.prems x w by (intro Await.IH) (auto simp: d Returned)
    then show ?thesis by (simp add: e d Returned)
  next
    case (Panicked p)
    then show ?thesis by (simp add: e d)
  qed
qed simp

end

section \<open>Refinement\<close>

text \<open>
  C2. Durable execution refines direct execution: on a store with no checkpoints of the workflow, the
  run through the storage returns exactly what the body returns when it is run directly, retries and
  panics included, and leaves the world exactly as the direct run does. The step counter has room for
  the operations performed.
\<close>

theorem durable_refines_direct:
  assumes "cx_provider C = memory_provider from_ms"
    and "\<forall>n g. mem_steps (cx_workflow_id C) (cx_environment C n g) = mem_steps (cx_workflow_id C) g \<and>
               mem_active (cx_workflow_id C) (cx_environment C n g) = mem_active (cx_workflow_id C) g"
    and "mem_active (cx_workflow_id C) (cs_store s)" "cs_seq s = 0"
    and "\<forall>i. mem_steps (cx_workflow_id C) (cs_store s) i = None"
    and "int (direct_len C p (cs_world s)) \<le> i32_max"
  shows "fst (run_body C p s) = fst (direct_run C p (cs_world s)) \<and>
         cs_world (snd (run_body C p s)) = snd (direct_run C p (cs_world s))"
proof -
  have "mem.serves from_ms (cx_workflow_id C) C" by (rule mem_serves) (use assms in simp_all)
  from mem.run_body_direct [OF this assms(3)] assms(4-) show ?thesis by simp
qed

theorem durable_refines_direct_witness:
  "fst (run_body wit_ctx wit_body (wit_state wit_store)) = fst (direct_run wit_ctx wit_body 0) \<and>
   cs_world (snd (run_body wit_ctx wit_body (wit_state wit_store))) = 2"
proof -
  have "direct_len wit_ctx wit_body 0 = 2" "snd (direct_run wit_ctx wit_body 0) = 2" by (simp_all add: wit_body_def)
  then show ?thesis
    using durable_refines_direct [of wit_ctx wit_from_ms "wit_state wit_store" wit_body]
    by (simp add: wit_state_def i32_max_def)
qed

text \<open>The run after a crash is the direct run of what is left of the body.\<close>

lemma recovered_run_direct:
  assumes "mem.serves from_ms wid C" "plain_wf plain_error p"
    and "mem_active wid (cs_store s)" "cs_seq s = 0" "\<forall>i. mem_steps wid (cs_store s) i = None"
    and "run_ops C n p s = Some (p', s')" "int n + int (direct_len C p' (cs_world t)) \<le> i32_max"
    and "mem_steps wid (cs_store t) = mem_steps wid (cs_store s')" "mem_active wid (cs_store t)" "cs_seq t = 0"
  shows "fst (run_body C p t) = fst (direct_run C p' (cs_world t)) \<and>
         cs_world (snd (run_body C p t)) = snd (direct_run C p' (cs_world t))"
proof -
  have pl: "plain_wf (mem.stable from_ms C) p" using assms(2) by (simp add: mem_stable [abs_def] fun_eq_iff)
  note R = mem.run_ops_records [OF assms(1) pl assms(6,3)]
  have r: "cs_seq s' = int n" "\<forall>i \<ge> int n. mem_steps wid (cs_store s') i = None"
      "run_body C p t = run_body C p' (t \<lparr> cs_seq := cs_seq s' \<rparr>)"
    using R assms(4,5,7,8,10) by simp_all
  show ?thesis
    unfolding r(3)
    using mem.run_body_direct [OF assms(1), of "t \<lparr> cs_seq := cs_seq s' \<rparr>" p'] assms(7-9) r(1,2) by simp
qed

text \<open>A prefix of the durable run is a prefix of the direct run.\<close>

lemma run_ops_direct:
  assumes "mem.serves from_ms wid C" "mem_active wid (cs_store s)" "0 \<le> cs_seq s"
    and "cs_seq s + int (direct_len C p (cs_world s)) \<le> i32_max"
    and "\<forall>i \<ge> cs_seq s. mem_steps wid (cs_store s) i = None" "run_ops C n p s = Some (p', s')"
  shows "direct_run C p (cs_world s) = direct_run C p' (cs_world s') \<and>
    direct_len C p (cs_world s) = n + direct_len C p' (cs_world s')"
  using assms(2-)
proof (induction n arbitrary: p s)
  case (Suc n)
  then obtain a k where p: "p = Await a k" by (cases p) auto
  obtain r s1 where e: "exec_op C a s = (Returned r, s1)" "run_ops C n (k r) s1 = Some (p', s')"
    using Suc.prems(5) by (auto simp: p split: prod.splits body_result.splits)
  have d: "direct_op C a (cs_world s) = (Returned r, cs_world s1)"
    using mem.exec_direct [OF assms(1) _ Suc.prems(1), of a] Suc.prems(4) e(1) by (simp add: prod_eq_iff)
  obtain x where x: "mem_steps wid (cs_store s1) = (mem_steps wid (cs_store s))(cs_seq s := x)"
      "mem_active wid (cs_store s1)" "cs_seq s1 = i32_wrap (cs_seq s + 1)"
    using mem.exec_frame [OF assms(1) _ Suc.prems(1) e(1)] Suc.prems(4) by auto
  have "i32_wrap (cs_seq s + 1) = cs_seq s + 1"
    using Suc.prems(2,3) by (intro i32_wrap_id) (auto simp: i32_min_def p d)
  with Suc.IH [of s1 "k r"] Suc.prems x e(2) show ?case by (simp add: p d)
qed simp

end
