(* ===== verification/Recovery.thy ===== *)
theory Recovery
  imports Engine Direct
begin

text \<open>
  Running a workflow to its terminal status and recovering it after a crash (\<open>run_to_completion\<close>,
  \<open>dispatch_pending_workflows\<close> of \<open>src/src/engine.rs\<close>): what is recorded for each way a run can end,
  that starting an existing id does not create a second workflow, and that recovery completes a crashed
  workflow with the outcome of the direct run.
\<close>

section \<open>Terminal statuses\<close>

lemma set_status_mem:
  assumes "cx_provider C = memory_provider from_ms" "hm_get (workflows (cs_store s)) wid = Some row"
  shows "set_status C wid status out err s =
    (if (status = STATUS_SUCCESS \<or> status = STATUS_ERROR) \<and> ws_status row = STATUS_CANCELLED
     then (Inl (Cancelled wid), s \<lparr> cs_ticks := Suc (cs_ticks s) \<rparr>)
     else (Inr (), s \<lparr> cs_ticks := Suc (cs_ticks s), cs_store := update_row wid
       (status_transition status out err (cx_clock C (cs_ticks s))) (cs_store s) \<rparr>))"
  using assms
  by (auto simp: set_status_def with_now_def prov_def memory_provider_def set_workflow_status_def Let_def)

lemma update_row_get: "hm_get (workflows (update_row wid f g)) wid = map_option f (hm_get (workflows g) wid)"
  by (simp add: update_row_def)

lemma status_transition_attempts [simp]:
  "ws_recovery_attempts (status_transition st out err now row) = ws_recovery_attempts row"
  by (auto simp: status_transition_def Let_def split: option.splits)

lemma run_to_completion_error:
  "run_caught C timed (h wid auth input) dl (s \<lparr> cs_seq := 0 \<rparr>) = (Some (Returned (Inl e)), s1) \<Longrightarrow>
   \<nexists>i. e = Cancelled i \<Longrightarrow>
   run_to_completion C timed h wid input dl auth s =
     and_then (set_status C wid STATUS_ERROR None
       (Some (encode_error (cx_codec C) (pv_serializer (cx_provider C)) e))) (\<lambda>_. fail e) s1"
  by (auto simp: run_to_completion_def split: error.splits)

text \<open>The row of the workflow after a run.\<close>

definition row_in :: "string \<Rightarrow> (inner, 'x) ctx_state \<Rightarrow> (workflow_status \<Rightarrow> bool) \<Rightarrow> bool" where
  "row_in wid s P \<longleftrightarrow> (case hm_get (workflows (cs_store s)) wid of None \<Rightarrow> False | Some row \<Rightarrow> P row)"

text \<open>
  C4. Every way a run can end is recorded as it should be. A returned value is stored with SUCCESS and
  a returned error with ERROR and its text, unless the workflow was cancelled meanwhile, in which case
  the cancelled row stays as it is and the caller sees \<open>Cancelled\<close>. A run that overran its deadline is
  CANCELLED and reported as \<open>Timeout\<close>; a body that stopped with \<open>Cancelled\<close> is CANCELLED. A panic
  writes nothing, so that the workflow stays recoverable.
\<close>

theorem run_records_outcome:
  assumes "cx_provider C = memory_provider from_ms"
    and "run_caught C timed (h wid auth input) dl (s \<lparr> cs_seq := 0 \<rparr>) = (out, s1)"
    and "hm_get (workflows (cs_store s1)) wid = Some row"
  shows "\<exists>r s2. run_to_completion C timed h wid input dl auth s = (r, s2) \<and>
    (case out of
       None \<Rightarrow> r = Inl Timeout \<and> row_in wid s2 (\<lambda>w. ws_status w = STATUS_CANCELLED)
     | Some (Panicked p) \<Rightarrow> (\<exists>m. r = Inl (app m)) \<and> cs_store s2 = cs_store s1
     | Some (Returned (Inr v)) \<Rightarrow>
         if ws_status row = STATUS_CANCELLED then r = Inl (Cancelled wid) \<and> cs_store s2 = cs_store s1
         else r = Inr v \<and> row_in wid s2 (\<lambda>w. ws_status w = STATUS_SUCCESS \<and> ws_output w = Some v)
     | Some (Returned (Inl e)) \<Rightarrow>
         if \<exists>i. e = Cancelled i then r = Inl (Cancelled wid) \<and> row_in wid s2 (\<lambda>w. ws_status w = STATUS_CANCELLED)
         else if ws_status row = STATUS_CANCELLED then r = Inl (Cancelled wid) \<and> cs_store s2 = cs_store s1
         else r = Inl e \<and> row_in wid s2 (\<lambda>w. ws_status w = STATUS_ERROR \<and> ws_error w = Some (to_string e)))"
proof -
  note st = set_status_mem [OF assms(1,3)]
  have en: "encode_error (cx_codec C) (pv_serializer (cx_provider C)) e = to_string e" for e
    using assms(1) by (simp add: encode_error_def memory_provider_def)
  show ?thesis
  proof (cases out)
    case None
    with assms(3) show ?thesis
      by (simp add: run_to_completion_def assms(2) st row_in_def update_row_get and_then_def)
  next
    case (Some b)
    then show ?thesis
    proof (cases b)
      case (Returned r)
      show ?thesis
      proof (cases r)
        case (Inl e)
        show ?thesis
        proof (cases "\<exists>i. e = Cancelled i")
          case True
          with assms(3) show ?thesis
            by (auto simp: run_to_completion_def assms(2) Some Returned Inl st row_in_def update_row_get and_then_def)
        next
          case False
          with assms(3) run_to_completion_error
              [of C timed h wid auth input, OF assms(2) [unfolded Some Returned Inl] False] show ?thesis
            by (cases "ws_status row = STATUS_CANCELLED")
               (simp_all add: Some Returned Inl st row_in_def update_row_get and_then_def en)
        qed
      next
        case (Inr v)
        with assms(3) show ?thesis
          by (cases "ws_status row = STATUS_CANCELLED")
             (simp_all add: run_to_completion_def assms(2) Some Returned st row_in_def update_row_get and_then_def)
      qed
    next
      case (Panicked p)
      with Some show ?thesis by (auto simp: run_to_completion_def assms(2) fail_def)
    qed
  qed
qed

definition wit_timed :: "(inner, nat) timed" where
  "wit_timed ms run s = (if ms = 0 then (None, s) else map_prod Some id (run s))"

definition wit_handler :: "(inner, nat) wf_fn" where
  "wit_handler wid auth input s = (Returned (Inr input), s \<lparr> cs_world := Suc (cs_world s) \<rparr>)"

theorem run_records_outcome_witness:
  "\<exists>r s2. run_to_completion wit_ctx wit_timed wit_handler ''c'' (JInt 3) (Some 0) (opts_auth (with_id ''c''))
       (wit_state wit_store) = (r, s2) \<and> r = Inl Timeout \<and> row_in ''c'' s2 (\<lambda>w. ws_status w = STATUS_CANCELLED)"
proof -
  let ?a = "opts_auth (with_id ''c'')" and ?s1 = "wit_state wit_store \<lparr> cs_seq := 0, cs_ticks := 1 \<rparr>"
  have "i64_wrap 0 = 0" by code_simp
  then have c: "run_caught wit_ctx wit_timed (wit_handler ''c'' ?a (JInt 3)) (Some 0)
      (wit_state wit_store \<lparr> cs_seq := 0 \<rparr>) = (None, ?s1)"
    by (simp add: run_caught_def wit_timed_def wit_state_def timestamp_millis_def)
  have "hm_contains (workflows wit_store) ''c''" by code_simp
  then obtain row where "hm_get (workflows (cs_store ?s1)) ''c'' = Some row"
    by (auto simp: hm_contains_def wit_state_def split: option.splits)
  from run_records_outcome [of wit_ctx wit_from_ms wit_timed wit_handler "''c''", OF _ c this] show ?thesis by simp
qed

section \<open>Starting an existing workflow\<close>

text \<open>
  C23. A workflow id is an idempotency key: starting a workflow under an id that exists creates nothing
  and changes nothing in the store, whatever the name, input and options of the second call, and
  returns a handle to the existing workflow. If the call names a queue or the workflow is terminal the
  handle only observes; otherwise it owns a new task on the stored input and deadline, also when the
  workflow is already running.
\<close>

theorem start_existing:
  assumes "rt_provider R = memory_provider from_ms" "hm_get (workflows s) wid = Some row"
    and "wo_workflow_id opts = Some wid" "wid \<noteq> []" "wo_dedup_id opts = None" "wo_dedup_policy opts = Reject"
    and "hm_get (rt_workflows R) (registry_key name (wo_config_name opts)) = Some handler"
    and "case wo_queue opts of Some q \<Rightarrow> hm_contains (rt_queues R) q | None \<Rightarrow> wo_delay opts = None"
  shows "start R env clk fresh name (Inr j) opts (Suc fuel) s =
    Some (Inr (if wo_queue opts \<noteq> None \<or> is_terminal (ws_status row) then Polling wid
               else Local wid (spawn_owned wid name handler (ws_input row) (ws_deadline_ms row) (opts_auth opts))), s)"
proof -
  have id: "resolve_id opts fresh = wid" using assms(3,4) by (simp add: resolve_id_def)
  let ?row = "run_row R wid name j opts None (opts_auth opts) (clk 0) (clk 1)"
  have "ws_id ?row = wid" "ws_dedup_id ?row = None"
    using assms(5) by (simp_all add: run_row_def Let_def workflow_status_new_def)
  then have "insert_workflow_status ?row s = (Inr (row, False), s)"
    using assms(2) by (simp add: insert_workflow_status_def dedup_conflict_def hm_contains_def hm_or_insert_def
      split: option.splits)
  then have "insert_run R wid name j opts None (opts_auth opts) (clk 0) (clk 1) s =
      (Inr (row, wo_queue opts \<noteq> None, False), s)"
    using assms(1,8) by (auto simp: insert_run_def and_then_def memory_provider_def split: option.splits)
  then show ?thesis
    using assms(5-7) by (auto simp: start_def Let_def id start_loop.simps(2))
qed

definition wit_runtime :: "(inner, (inner, nat) wf_fn) runtime" where
  "wit_runtime = \<lparr> rt_provider = memory_provider wit_from_ms, rt_workflows = [(''wf'', wit_handler)],
     rt_queues = [(INTERNAL_QUEUE, internal_queue)], rt_executor_id = ''local'', rt_app_version = ''v1'' \<rparr>"

theorem start_existing_witness:
  "\<exists>t. start wit_runtime (\<lambda>n g. g) (\<lambda>n. 0) ''u'' ''wf'' (Inr JNull) (with_id ''c'') 1 wit_store =
     Some (Inr (Local ''c'' t), wit_store)"
proof -
  have "map_option ws_status (hm_get (workflows wit_store) ''c'') = Some ''PENDING''" by code_simp
  then obtain row where "hm_get (workflows wit_store) ''c'' = Some row" "ws_status row = ''PENDING''" by auto
  then show ?thesis
    using start_existing [of wit_runtime wit_from_ms wit_store "''c''" row "with_id ''c''" "''wf''" wit_handler
        "\<lambda>n g. g" "\<lambda>n. 0" "''u''" JNull 0]
    by (auto simp: wit_runtime_def with_id_def workflow_options_default_def registry_key_def is_terminal_def hm_get_def
      status_defs)
qed

section \<open>Frames\<close>

text \<open>Operations that leave what \<open>obs\<close> sees of the store as it is.\<close>

named_theorems keeps_intros

definition keeps :: "('s \<Rightarrow> 'o) \<Rightarrow> (('s, 'x) ctx_state \<Rightarrow> 'r \<times> ('s, 'x) ctx_state) \<Rightarrow> bool" where
  "keeps obs m \<longleftrightarrow> (\<forall>s. obs (cs_store (snd (m s))) = obs (cs_store s))"

lemma keepsD: "keeps obs m \<Longrightarrow> m s = (r, s') \<Longrightarrow> obs (cs_store s') = obs (cs_store s)"
  unfolding keeps_def by (metis snd_conv)

lemma keeps_store: "keeps obs m \<Longrightarrow> obs (cs_store (snd (m s))) = obs (cs_store s)"
  by (simp add: keeps_def)

lemma keeps_basic [keeps_intros]:
  "keeps obs (ok v)" "keeps obs (fail e)" "keeps obs (lift_result r)"
  by (auto simp: keeps_def ok_def fail_def lift_result_def)

lemma keeps_and_then [keeps_intros]:
  "keeps obs m \<Longrightarrow> (\<And>v. keeps obs (k v)) \<Longrightarrow> keeps obs (and_then m k)"
  by (auto simp: keeps_def and_then_def split: prod.splits sum.splits) (metis snd_conv)+

lemma keeps_with_now [keeps_intros]: "(\<And>now. keeps obs (k now)) \<Longrightarrow> keeps obs (with_now C k)"
  by (simp add: keeps_def with_now_def)

lemma keeps_next_seq [keeps_intros]: "(\<And>i. keeps obs (k i)) \<Longrightarrow> keeps obs (next_seq k)"
  by (simp add: keeps_def next_seq_def)

lemma keeps_prov: "(\<And>g. obs (snd (f g)) = obs g) \<Longrightarrow> keeps obs (prov f)"
  by (simp add: keeps_def prov_def case_prod_beta)

text \<open>The row of a workflow is not touched by its own durable operations.\<close>

abbreviation row_of :: "string \<Rightarrow> inner \<Rightarrow> workflow_status option" where
  "row_of wid g \<equiv> hm_get (workflows g) wid"

lemma keeps_row:
  assumes "cx_provider C = memory_provider from_ms"
  shows "keeps (row_of wid) (prov (pv_get_step_result (cx_provider C) i seq))"
    "keeps (row_of wid) (prov (pv_get_workflow_status (cx_provider C) i))"
    "keeps (row_of wid) (record_step C seq name v err t)"
    "keeps (row_of wid) (checkpoint C d seq name y t)"
    "keeps (row_of wid) (record_failure C d seq name e t)"
    "keeps (row_of wid) (replay_or_guard C fv seq name)"
proof -
  show 1: "keeps (row_of wid) (prov (pv_get_step_result (cx_provider C) i seq))" for i seq
    by (rule keeps_prov) (simp add: assms memory_provider_def get_step_result_def)
  show 2: "keeps (row_of wid) (prov (pv_get_workflow_status (cx_provider C) i))" for i
    by (rule keeps_prov) (simp add: assms memory_provider_def get_workflow_status_def)
  show 3: "keeps (row_of wid) (record_step C seq name v err t)" for v err
    unfolding record_step_def
    by (intro keeps_with_now keeps_prov)
       (simp add: assms memory_provider_def record_step_result_def step_or_insert_def Let_def split: option.splits)
  show "keeps (row_of wid) (checkpoint C d seq name y t)"
    by (auto simp: checkpoint_def split: sum.splits intro!: keeps_intros 3)
  show "keeps (row_of wid) (record_failure C d seq name e t)"
    by (auto simp: record_failure_def split: step_outcome.splits intro!: keeps_intros 3)
  show "keeps (row_of wid) (replay_or_guard C fv seq name)"
    by (auto simp: replay_or_guard_def split: option.splits intro!: keeps_intros 1 2)
qed

lemma keeps_record_result:
  "cx_provider C = memory_provider from_ms \<Longrightarrow>
   row_of wid (cs_store (snd (record_result C d seq name t (r, s)))) = row_of wid (cs_store s)"
  by (cases r) (simp_all add: record_result_def keeps_store [OF keeps_row(4)] keeps_store [OF keeps_row(5)])

lemma retry_loop_row:
  "\<forall>n g. row_of wid (cx_environment C n g) = row_of wid g \<Longrightarrow>
   row_of wid (cs_store (snd (retry_loop C opts f n s))) = row_of wid (cs_store s)"
proof (induction "sto_max_retries opts - n" arbitrary: n s rule: less_induct)
  case (less n s)
  let ?s1 = "wait_env C (s \<lparr> cs_world := snd (f (cs_world s)), cs_step_retries := Suc (cs_step_retries s) \<rparr>)"
  show ?case
    using less(1) [of "Suc n" ?s1] less(2) unfolding retry_loop.simps [of C opts f n s]
    by (auto simp: run_step_catching_eq wait_env_def diff_less_mono2 split: sum.splits option.splits)
qed

lemma exec_op_row:
  assumes "cx_provider C = memory_provider from_ms" "\<forall>n g. row_of wid (cx_environment C n g) = row_of wid g"
  shows "keeps (row_of wid) (exec_op C a)"
proof (cases a)
  case (Do_Step name f)
  have "keeps (row_of wid) (\<lambda>s. record_result C json_serde i name t (run_step_catching name f s))" for i t
    by (simp add: keeps_def run_step_catching_eq keeps_record_result [OF assms(1)])
  then have "keeps (row_of wid) (step C json_serde name f)"
    unfolding step_def by (auto split: option.splits intro!: keeps_intros keeps_row [OF assms(1)])
  then show ?thesis by (simp add: Do_Step keeps_def)
next
  case (Do_Step_With opts f)
  have "row_of wid (cs_store (snd (step_with C json_serde opts f s))) = row_of wid (cs_store s)" for s
  proof -
    let ?s0 = "s \<lparr> cs_seq := i32_wrap (cs_seq s + 1) \<rparr>"
    obtain q s1 where q: "replay_or_guard C (sd_from_value json_serde) (cs_seq s) (sto_name opts) ?s0 = (q, s1)"
      by fastforce
    have s1: "row_of wid (cs_store s1) = row_of wid (cs_store s)"
      using keepsD [OF keeps_row(6) [OF assms(1)] q] by simp
    let ?s2 = "s1 \<lparr> cs_ticks := Suc (cs_ticks s1) \<rparr>"
    obtain b s3 where b: "retry_loop C opts f 0 ?s2 = (b, s3)" by fastforce
    have "row_of wid (cs_store s3) = row_of wid (cs_store s)"
      using retry_loop_row [OF assms(2), of opts f 0 ?s2] b s1 by simp
    then show ?thesis
      using s1
      by (auto simp: keeps_record_result [OF assms(1)] step_with_def Let_def run_with_retries_def q b case_prod_beta
        split: sum.splits option.splits body_result.splits)
  qed
  then show ?thesis by (simp add: Do_Step_With keeps_def)
next
  case (Do_Value name h)
  let ?pr = "\<lambda>s. map_prod id (\<lambda>x. s \<lparr> cs_world := x \<rparr>) (h (cs_world s))"
  have "keeps (row_of wid) (\<lambda>s. case ?pr s of (v, s1) \<Rightarrow> checkpoint C json_serde i name v None s1)" for i
    by (simp add: keeps_def case_prod_beta keeps_store [OF keeps_row(4) [OF assms(1)]])
  then have "keeps (row_of wid) (durable_value C json_serde name ?pr)"
    unfolding durable_value_def
    by (auto simp: replay_value_def split: option.splits intro!: keeps_intros keeps_row [OF assms(1)])
  then show ?thesis by (simp add: Do_Value keeps_def)
qed

lemma run_body_row:
  assumes "cx_provider C = memory_provider from_ms" "\<forall>n g. row_of wid (cx_environment C n g) = row_of wid g"
  shows "row_of wid (cs_store (snd (run_body C p s))) = row_of wid (cs_store s)"
proof (induction p arbitrary: s)
  case (Await a k)
  show ?case
    using Await keeps_store [OF exec_op_row [OF assms], of a s]
    by (cases "exec_op C a s") (auto split: body_result.splits)
qed simp

section \<open>Recovery ends as if nothing had happened\<close>

lemma bump_mem:
  assumes "rt_provider R = memory_provider from_ms" "row_of wid (cs_store s) = Some row"
    and "0 \<le> ws_recovery_attempts row" "ws_recovery_attempts row < mx" "mx \<le> i32_max"
  shows "with_now C (\<lambda>now. prov (pv_bump_recovery_attempts (rt_provider R) wid mx now)) s =
    (Inr (ws_recovery_attempts row + 1), s \<lparr> cs_ticks := Suc (cs_ticks s),
      cs_store := update_row wid (bump_row mx (cx_clock C (cs_ticks s))) (cs_store s) \<rparr>)"
    "ws_status (bump_row mx now row) = ws_status row"
proof -
  have "i32_wrap (ws_recovery_attempts row + 1) = ws_recovery_attempts row + 1"
    using assms(3-5) by (intro i32_wrap_id) (simp_all add: i32_min_def)
  then show "with_now C (\<lambda>now. prov (pv_bump_recovery_attempts (rt_provider R) wid mx now)) s =
      (Inr (ws_recovery_attempts row + 1), s \<lparr> cs_ticks := Suc (cs_ticks s),
        cs_store := update_row wid (bump_row mx (cx_clock C (cs_ticks s))) (cs_store s) \<rparr>)"
    "ws_status (bump_row mx now row) = ws_status row"
    using assms(1,2,4)
    by (simp_all add: with_now_def prov_def memory_provider_def bump_recovery_attempts_def bump_row_def Let_def)
qed

lemma steps_update_row [simp]: "mem_steps wid (update_row i f g) = mem_steps wid g"
  by (simp add: mem_steps_def fun_eq_iff update_row_def)

text \<open>The context a run gets: the workflow's id and identity.\<close>

definition for_run :: "'s ctx_env \<Rightarrow> workflow_status \<Rightarrow> 's ctx_env" where
  "for_run C record = C \<lparr> cx_workflow_id := ws_id record, cx_auth := auth_from_status record \<rparr>"

text \<open>
  C3. Recovery finishes what a crash interrupted, exactly as if there had been no crash: a PENDING
  workflow that had performed any number of its operations when the process died is run again by
  recovery, ends SUCCESS with the output of the uninterrupted direct run of its body, and leaves the
  world as that run does, every operation having taken effect once. It is reported as recovered and
  one attempt is counted. Here nothing but the workflow acted on the world between the crash and the
  recovery, and its attempts were not used up.
\<close>

theorem recovery_completes:
  assumes "rt_provider R = memory_provider from_ms" "cx_provider C = memory_provider from_ms"
    and "\<forall>n g. mem_steps (ws_id w) (cx_environment C n g) = mem_steps (ws_id w) g \<and>
               row_of (ws_id w) (cx_environment C n g) = row_of (ws_id w) g"
    and "hm_get (rt_workflows R) (registry_key (ws_name w) (ws_config_name w)) =
           Some (erase C json_serde json_serde (\<lambda>D i. run_body D (body i)))"
    and "ws_queue_name w = None" "ws_deadline_ms w = None" "ws_status w = STATUS_PENDING"
    and "0 \<le> ws_recovery_attempts w" "ws_recovery_attempts w < mx" "mx \<le> i32_max"
    and "plain_wf plain_error (body (ws_input w))" "row_of (ws_id w) (cs_store s) = Some w" "cs_seq s = 0"
    and "\<forall>i. mem_steps (ws_id w) (cs_store s) i = None"
    and "run_ops (for_run C w) n (body (ws_input w)) s = Some (p', s')"
    and "int (direct_len (for_run C w) (body (ws_input w)) (cs_world s)) \<le> i32_max"
    and "direct_run (for_run C w) (body (ws_input w)) (cs_world s) = (Returned (Inr v), x)"
    and "mem_steps (ws_id w) (cs_store t) = mem_steps (ws_id w) (cs_store s')"
    and "row_of (ws_id w) (cs_store t) = Some w" "cs_world t = cs_world s'" "\<not> stop k"
  shows "\<exists>t'. dispatch_pending_workflows R C timed mx stop k [w] ct t =
      (Inr [ws_id w], ct \<lparr> ct_workflows_recovered := Suc (ct_workflows_recovered ct) \<rparr>, t') \<and>
    cs_world t' = x \<and>
    row_in (ws_id w) t' (\<lambda>r. ws_status r = STATUS_SUCCESS \<and> ws_output r = Some v \<and>
      ws_recovery_attempts r = ws_recovery_attempts w + 1)"
proof -
  let ?D = "for_run C w" and ?B = "body (ws_input w)" and ?i = "ws_id w"
  let ?t1 = "t \<lparr> cs_ticks := Suc (cs_ticks t), cs_store := update_row ?i (bump_row mx (cx_clock C (cs_ticks t)))
    (cs_store t) \<rparr>"
  let ?t2 = "?t1 \<lparr> cs_seq := 0 \<rparr>" and ?w = "bump_row mx (cx_clock C (cs_ticks t)) w"
  note bump = bump_mem [OF assms(1,19,8-10)]
  have D: "cx_provider ?D = memory_provider from_ms" "cx_environment ?D = cx_environment C"
    by (simp_all add: for_run_def assms(2))
  have sv: "mem.serves from_ms ?i ?D"
    by (rule mem_serves) (use assms(3) D in \<open>simp_all add: for_run_def mem_active_def\<close>)
  have ac: "mem_active ?i (cs_store s)" "mem_active ?i (cs_store ?t2)"
    using assms(7,12,19) bump(2) by (simp_all add: mem_active_def update_row_get status_defs)
  have d: "direct_run ?D ?B (cs_world s) = direct_run ?D p' (cs_world s')"
      "direct_len ?D ?B (cs_world s) = n + direct_len ?D p' (cs_world s')"
    using run_ops_direct [OF sv ac(1) _ _ _ assms(15)] assms(13,14,16) by simp_all
  have r: "fst (run_body ?D ?B ?t2) = Returned (Inr v)" "cs_world (snd (run_body ?D ?B ?t2)) = x"
    using recovered_run_direct [OF sv assms(11) ac(1) assms(13,14,15), of ?t2] assms(16-18,20) ac(2) d by simp_all
  obtain s1 where s1: "run_body ?D ?B ?t2 = (Returned (Inr v), s1)" "cs_world s1 = x"
    using r by (cases "run_body ?D ?B ?t2") simp
  have row1: "row_of ?i (cs_store s1) = Some ?w"
    using run_body_row [OF D(1), of ?i ?B ?t2] D(2) assms(3,19) s1(1) by (simp add: update_row_get)
  have "ws_status ?w \<noteq> STATUS_CANCELLED" using bump(2) assms(7) by (simp add: status_defs)
  moreover have "ws_recovery_attempts ?w = ws_recovery_attempts w + 1"
    using bump(1) assms(1,19) by (simp add: with_now_def prov_def memory_provider_def bump_recovery_attempts_def)
  moreover have "erase C json_serde json_serde (\<lambda>D i. run_body D (body i)) ?i (auth_from_status w) (ws_input w) ?t2 =
      (Returned (Inr v), s1)"
    using s1(1) by (simp add: erase_def json_serde_def for_run_def)
  ultimately show ?thesis
    using assms(4-7,9,21) s1(2) row1 bump(1) set_status_mem [OF assms(2) row1]
    by (simp add: dispatch_pending_workflows.simps(2) run_to_completion_def run_caught_def and_then_def row_in_def
      update_row_get)
qed

definition wit_pending :: workflow_status where
  "wit_pending = workflow_status_new ''c'' ''wf'' JNull STATUS_PENDING ''local'' ''v1'' 0"

definition wit_crashable :: inner where
  "wit_crashable = snd (insert_workflow_status wit_pending inner_default)"

definition wit_recovering :: "(inner, (inner, nat) wf_fn) runtime" where
  "wit_recovering = wit_runtime
     \<lparr> rt_workflows := [(''wf'', erase wit_ctx json_serde json_serde (\<lambda>D i. run_body D wit_body))] \<rparr>"

theorem recovery_completes_witness:
  "\<exists>p' s' t'. run_ops (for_run wit_ctx wit_pending) 1 wit_body (wit_state wit_crashable) = Some (p', s') \<and>
     cs_world s' = 1 \<and>
     dispatch_pending_workflows wit_recovering wit_ctx wit_timed 100 (\<lambda>n. False) 0 [wit_pending]
       \<lparr> ct_workflows_recovered = 0, ct_dead_lettered = 0, ct_dequeue_errors = 0 \<rparr> s' =
       (Inr [''c''], \<lparr> ct_workflows_recovered = 1, ct_dead_lettered = 0, ct_dequeue_errors = 0 \<rparr>, t') \<and>
     cs_world t' = 2 \<and> row_in ''c'' t' (\<lambda>r. ws_output r = Some (JInt 1))"
proof -
  let ?D = "for_run wit_ctx wit_pending" and ?s = "wit_state wit_crashable"
  let ?ct = "\<lparr> ct_workflows_recovered = 0, ct_dead_lettered = 0, ct_dequeue_errors = 0 \<rparr>"
  let ?P = "\<lambda>(p', s'). cs_world s' = (1 :: nat) \<and> row_of ''c'' (cs_store s') = Some wit_pending"
  have "case run_ops ?D 1 wit_body ?s of None \<Rightarrow> False | Some x \<Rightarrow> ?P x" by code_simp
  then obtain p' s' where r: "run_ops ?D 1 wit_body ?s = Some (p', s')" "cs_world s' = 1"
      "row_of ''c'' (cs_store s') = Some wit_pending"
    by (auto split: option.splits)
  have st: "row_of ''c'' wit_crashable = Some wit_pending" "steps wit_crashable = []" by code_simp+
  have w: "ws_id wit_pending = ''c''" "ws_name wit_pending = ''wf''" "ws_config_name wit_pending = None"
      "ws_queue_name wit_pending = None" "ws_deadline_ms wit_pending = None" "ws_input wit_pending = JNull"
      "ws_status wit_pending = STATUS_PENDING" "ws_recovery_attempts wit_pending = 0"
    by (simp_all add: wit_pending_def workflow_status_new_def)
  have "direct_len ?D wit_body 0 = 2" "direct_run ?D wit_body 0 = (Returned (Inr (JInt 1)), 2)"
    by (simp_all add: wit_body_def)
  moreover have "plain_wf plain_error wit_body"
    by (auto simp: wit_body_def plain_body_def plain_error_def caught_def app_def)
  moreover have "hm_get (rt_workflows wit_recovering) ''wf'' =
      Some (erase wit_ctx json_serde json_serde (\<lambda>D i. run_body D wit_body))"
    by (simp add: wit_recovering_def hm_get_def)
  ultimately obtain t' where "dispatch_pending_workflows wit_recovering wit_ctx wit_timed 100 (\<lambda>n. False) 0
      [wit_pending] ?ct s' = (Inr [''c''], ?ct \<lparr> ct_workflows_recovered := Suc 0 \<rparr>, t')" "cs_world t' = 2"
      "row_in ''c'' t' (\<lambda>r. ws_status r = STATUS_SUCCESS \<and> ws_output r = Some (JInt 1) \<and> ws_recovery_attempts r = 1)"
    using recovery_completes [of wit_recovering wit_from_ms wit_ctx wit_pending "\<lambda>i. wit_body" 100 ?s 1 p' s'
        "JInt 1" 2 s' "\<lambda>n. False" 0 wit_timed ?ct] r w st
    by (auto simp: registry_key_def wit_recovering_def wit_runtime_def wit_state_def i32_max_def mem_steps_def)
  with r show ?thesis by (auto simp: row_in_def split: option.splits)
qed

end
