(* ===== verification/Dispatch.thy ===== *)
theory Dispatch
  imports Recovery
begin

text \<open>
  The dispatcher of one queue, \<open>queue_dispatch_loop\<close> of \<open>src/src/engine.rs\<close>. It is a task that runs
  beside the runs it has started and beside the rest of the system, so it is a step relation: the
  control point of the loop is part of the state, and between any two of its steps a run may finish
  (dropping its \<open>RunningGuard\<close>) and the store may change.
\<close>

section \<open>The loop\<close>

text \<open>
  The control points: at the top, with the partitions left to visit and whether an error was seen, and
  between reading the counter of a partition and claiming for it.
\<close>

datatype dispatch_pc =
    At_Top
  | At_Keys "string option list" bool
  | At_Claim "string option" nat "string option list" bool
  | Exited

text \<open>\<open>d_tasks\<close> are the live runs, each with the key of the counter its guard holds.\<close>

record ('s, 'h) dispatcher =
  d_store :: 's
  d_running :: "(string, nat) hashmap"
  d_tasks :: "(string \<times> 'h spawned_run) list"
  d_interval :: duration
  d_dequeue_errors :: nat
  d_pc :: dispatch_pc

definition dispatcher_init :: "workflow_queue \<Rightarrow> 's \<Rightarrow> ('s, 'h) dispatcher" where
  "dispatcher_init q s =
     \<lparr> d_store = s, d_running = [], d_tasks = [], d_interval = q_base_polling_interval q,
       d_dequeue_errors = 0, d_pc = At_Top \<rparr>"

definition poll_top ::
    "('s, 'h) runtime \<Rightarrow> workflow_queue \<Rightarrow> datetime \<Rightarrow> (string \<Rightarrow> datetime) \<Rightarrow> ('s, 'h) dispatcher
       \<Rightarrow> ('s, 'h) dispatcher" where
  "poll_top R q now upd d =
     (case pv_transition_delayed_workflows (rt_provider R) (timestamp_millis now) upd (d_store d) of
        (_, s1) \<Rightarrow>
          if q_partitioned q
          then
            (case pv_queue_partitions (rt_provider R) (q_name q) s1 of
               (Inr keys, s2) \<Rightarrow> d \<lparr> d_store := s2, d_pc := At_Keys (map Some keys) False \<rparr>
             | (Inl e, s2) \<Rightarrow> d \<lparr> d_store := s2, d_pc := At_Keys [] True \<rparr>)
          else d \<lparr> d_store := s1, d_pc := At_Keys [None] False \<rparr>)"

definition poll_max_tasks :: "workflow_queue \<Rightarrow> nat \<Rightarrow> int" where
  "poll_max_tasks q local =
     i64_wrap (int (min
       (case q_worker_concurrency q of Some wc \<Rightarrow> wc - local | None \<Rightarrow> q_max_tasks_per_iteration q)
       (q_max_tasks_per_iteration q)))"

definition poll_load ::
    "workflow_queue \<Rightarrow> string option \<Rightarrow> string option list \<Rightarrow> bool \<Rightarrow> ('s, 'h) dispatcher \<Rightarrow> ('s, 'h) dispatcher" where
  "poll_load q pkey rest had_error d =
     (let key = unwrap_or pkey [];
          running' = hm_or_insert key 0 (d_running d);
          local = unwrap_or (hm_get running' key) 0
      in if poll_max_tasks q local \<le> 0
         then d \<lparr> d_running := running', d_pc := At_Keys rest had_error \<rparr>
         else d \<lparr> d_running := running', d_pc := At_Claim pkey local rest had_error \<rparr>)"

definition poll_request ::
    "('s, 'h) runtime \<Rightarrow> workflow_queue \<Rightarrow> string option \<Rightarrow> int \<Rightarrow> dequeue_request" where
  "poll_request R q pkey max_tasks =
     \<lparr> dr_queue_name = q_name q, dr_executor_id = rt_executor_id R, dr_app_version = rt_app_version R,
       dr_partition_key = pkey, dr_max_tasks = max_tasks, dr_global_concurrency = q_global_concurrency q,
       dr_rate_limit_max = map_option rl_limit (q_rate_limit q),
       dr_rate_limit_period_ms = map_option (\<lambda>r. as_millis_i64 (rl_period r)) (q_rate_limit q) \<rparr>"

text \<open>A claimed workflow is started, or its claim released if this process has no handler for it.\<close>

definition take_claimed ::
    "('s, 'h) runtime \<Rightarrow> string \<Rightarrow> (string \<Rightarrow> datetime) \<Rightarrow> workflow_status \<Rightarrow> ('s, 'h) dispatcher
       \<Rightarrow> ('s, 'h) dispatcher" where
  "take_claimed R key clk w d =
     (case hm_get (rt_workflows R) (registry_key (ws_name w) (ws_config_name w)) of
        None \<Rightarrow>
          d \<lparr> d_store := snd (pv_set_workflow_status (rt_provider R) (ws_id w) STATUS_ENQUEUED None None
                (clk (ws_id w)) (d_store d)) \<rparr>
      | Some handler \<Rightarrow>
          d \<lparr> d_running := hm_modify key Suc (d_running d),
              d_tasks := d_tasks d @ [(key, spawn_owned (ws_id w) (ws_name w) handler (ws_input w)
                (ws_deadline_ms w) (auth_from_status w))] \<rparr>)"

definition poll_claim ::
    "('s, 'h) runtime \<Rightarrow> workflow_queue \<Rightarrow> datetime \<Rightarrow> (nat \<Rightarrow> datetime) \<Rightarrow> (string \<Rightarrow> datetime)
       \<Rightarrow> string option \<Rightarrow> nat \<Rightarrow> string option list \<Rightarrow> bool \<Rightarrow> ('s, 'h) dispatcher \<Rightarrow> ('s, 'h) dispatcher" where
  "poll_claim R q now upd clk pkey local rest had_error d =
     (case pv_dequeue_workflows (rt_provider R) (poll_request R q pkey (poll_max_tasks q local)) now upd
             (d_store d) of
        None \<Rightarrow> d \<lparr> d_pc := Exited \<rparr>
      | Some (Inr claimed, s1) \<Rightarrow>
          fold (take_claimed R (unwrap_or pkey []) clk) claimed
            (d \<lparr> d_store := s1, d_pc := At_Keys rest had_error \<rparr>)
      | Some (Inl e, s1) \<Rightarrow>
          d \<lparr> d_store := s1, d_dequeue_errors := Suc (d_dequeue_errors d), d_pc := At_Keys rest True \<rparr>)"

text \<open>
  The next polling interval; doubling a duration beyond the largest one panics. \<open>scale\<close> is
  \<open>mul_f64(0.9)\<close>.
\<close>

definition DURATION_MAX :: duration where
  "DURATION_MAX = 2 ^ 64 * 10 ^ 9 - 1"

definition next_interval :: "(duration \<Rightarrow> duration) \<Rightarrow> workflow_queue \<Rightarrow> bool \<Rightarrow> duration \<Rightarrow> duration option" where
  "next_interval scale q had_error interval =
     (if had_error
      then if interval * 2 > DURATION_MAX then None else Some (min (interval * 2) (q_max_polling_interval q))
      else Some (max (scale interval) (q_base_polling_interval q)))"

definition poll_wait ::
    "(duration \<Rightarrow> duration) \<Rightarrow> workflow_queue \<Rightarrow> bool \<Rightarrow> ('s, 'h) dispatcher \<Rightarrow> ('s, 'h) dispatcher" where
  "poll_wait scale q had_error d =
     (case next_interval scale q had_error (d_interval d) of
        None \<Rightarrow> d \<lparr> d_pc := Exited \<rparr>
      | Some i \<Rightarrow> d \<lparr> d_interval := i, d_pc := At_Top \<rparr>)"

text \<open>A run ends: its guard gives the slot back, wrapping below zero.\<close>

definition run_done :: "nat \<Rightarrow> ('s, 'h) dispatcher \<Rightarrow> ('s, 'h) dispatcher" where
  "run_done i d =
     d \<lparr> d_running := hm_modify (fst (d_tasks d ! i)) (\<lambda>c. if c = 0 then 2 ^ 64 - 1 else c - 1) (d_running d),
         d_tasks := take i (d_tasks d) @ drop (Suc i) (d_tasks d) \<rparr>"

inductive dispatch_step ::
    "('s, 'h) runtime \<Rightarrow> workflow_queue \<Rightarrow> (duration \<Rightarrow> duration) \<Rightarrow> ('s, 'h) dispatcher \<Rightarrow> ('s, 'h) dispatcher \<Rightarrow> bool"
  for R q scale where
  cancelled: "d_pc d = At_Top \<Longrightarrow> dispatch_step R q scale d (d \<lparr> d_pc := Exited \<rparr>)"
| top: "d_pc d = At_Top \<Longrightarrow> dispatch_step R q scale d (poll_top R q now upd d)"
| load: "d_pc d = At_Keys (pkey # rest) had_error \<Longrightarrow> dispatch_step R q scale d (poll_load q pkey rest had_error d)"
| claim: "d_pc d = At_Claim pkey local rest had_error \<Longrightarrow>
    dispatch_step R q scale d (poll_claim R q now upd' clk pkey local rest had_error d)"
| wait: "d_pc d = At_Keys [] had_error \<Longrightarrow> dispatch_step R q scale d (poll_wait scale q had_error d)"
| run_ends: "i < length (d_tasks d) \<Longrightarrow> dispatch_step R q scale d (run_done i d)"
| others: "dispatch_step R q scale d (d \<lparr> d_store := s \<rparr>)"

section \<open>The bound on concurrent runs\<close>

text \<open>The number of live runs holding a slot of a key, and what the loop keeps about it.\<close>

definition live :: "string \<Rightarrow> ('s, 'h) dispatcher \<Rightarrow> nat" where
  "live key d = length (filter (\<lambda>t. fst t = key) (d_tasks d))"

definition counted :: "workflow_queue \<Rightarrow> ('s, 'h) dispatcher \<Rightarrow> bool" where
  "counted q d \<longleftrightarrow>
     (\<forall>key. unwrap_or (hm_get (d_running d) key) 0 = live key d) \<and>
     (\<forall>wc key. q_worker_concurrency q = Some wc \<longrightarrow> live key d \<le> wc) \<and>
     (case d_pc d of
        At_Claim pkey local rest had_error \<Rightarrow>
          poll_max_tasks q local > 0 \<and> hm_contains (d_running d) (unwrap_or pkey []) \<and>
          live (unwrap_or pkey []) d \<le> local
      | _ \<Rightarrow> True)"

definition paced :: "workflow_queue \<Rightarrow> ('s, 'h) dispatcher \<Rightarrow> bool" where
  "paced q d \<longleftrightarrow>
     min (q_base_polling_interval q) (q_max_polling_interval q) \<le> d_interval d \<and>
     d_interval d \<le> max (q_base_polling_interval q) (q_max_polling_interval q)"

lemma i64_wrap_le: "0 \<le> x \<Longrightarrow> i64_wrap x \<le> x"
proof (cases "x \<le> i64_max")
  case True
  then show "0 \<le> x \<Longrightarrow> i64_wrap x \<le> x" by (simp add: i64_wrap_id i64_min_def)
next
  case False
  then show ?thesis using i64_wrap_range [of x] by simp
qed

lemma poll_max_tasks_le: "q_worker_concurrency q = Some wc \<Longrightarrow> 0 < poll_max_tasks q local \<Longrightarrow>
  poll_max_tasks q local \<le> int wc - int local"
  using i64_wrap_le [of "int (min (wc - local) (q_max_tasks_per_iteration q))"]
  by (simp add: poll_max_tasks_def)

lemma take_claimed_fold:
  "hm_contains (d_running d) key \<Longrightarrow>
   \<forall>k. unwrap_or (hm_get (d_running d) k) 0 = live k d \<Longrightarrow>
   (\<forall>k. unwrap_or (hm_get (d_running (fold (take_claimed R key clk) ws d)) k) 0 =
      live k (fold (take_claimed R key clk) ws d)) \<and>
   (\<forall>k. live k (fold (take_claimed R key clk) ws d) \<le> (if k = key then live k d + length ws else live k d)) \<and>
   d_pc (fold (take_claimed R key clk) ws d) = d_pc d \<and> d_interval (fold (take_claimed R key clk) ws d) = d_interval d"
proof (induction ws arbitrary: d)
  case (Cons w ws)
  let ?d = "take_claimed R key clk w d"
  have t: "hm_contains (d_running ?d) key" "\<forall>k. unwrap_or (hm_get (d_running ?d) k) 0 = live k ?d"
      "live k ?d \<le> (if k = key then Suc (live k d) else live k d)" "d_pc ?d = d_pc d" "d_interval ?d = d_interval d" for k
    using Cons.prems
    by (auto simp: take_claimed_def live_def hm_contains_def unwrap_or_def split: option.splits)
  let ?e = "fold (take_claimed R key clk) ws ?d"
  have "live k ?e \<le> (if k = key then live k d + length (w # ws) else live k d)" for k
    using Cons.IH [OF t(1,2)] t(3) [of k] by (auto intro: order_trans split: if_splits dest!: spec [of _ k])
  with Cons.IH [OF t(1,2)] t(4,5) show ?case by simp
qed simp

lemma counted_run_done:
  assumes "counted q d" "i < length (d_tasks d)"
  shows "counted q (run_done i d)"
proof -
  have l: "live k d = live k (run_done i d) + (if k = fst (d_tasks d ! i) then 1 else 0)" for k
    by (simp add: live_def run_done_def arg_cong [where f = "\<lambda>xs. length (filter (\<lambda>t. fst t = k) xs)",
      OF id_take_nth_drop [OF assms(2)]])
  have c: "unwrap_or (hm_get (d_running d) k) 0 = live k d" for k using assms(1) by (simp add: counted_def)
  let ?k = "fst (d_tasks d ! i)"
  have g: "hm_get (d_running d) ?k = Some (live ?k d)"
    using c [of ?k] l [of ?k] by (cases "hm_get (d_running d) ?k") (simp_all add: unwrap_or_def)
  have "unwrap_or (hm_get (d_running (run_done i d)) k) 0 = live k (run_done i d)" for k
    using c [of k] l [of k] g by (auto simp: run_done_def)
  moreover have "live k (run_done i d) \<le> live k d" for k using l [of k] by simp
  moreover have "hm_contains (d_running (run_done i d)) k = hm_contains (d_running d) k" "d_pc (run_done i d) = d_pc d" for k
    by (auto simp: run_done_def hm_contains_def split: option.splits)
  ultimately show ?thesis
    using assms(1) unfolding counted_def by (auto split: dispatch_pc.splits intro: order_trans) (meson order_trans)+
qed

text \<open>
  What the dispatcher needs of the storage: a claim hands out at most the number of workflows asked
  for.
\<close>

locale claim_source =
  fixes P :: "'s provider"
  assumes claims_at_most: "pv_dequeue_workflows P req now upd s = Some (Inr claimed, s') \<Longrightarrow> 0 < dr_max_tasks req \<Longrightarrow>
    int (length claimed) \<le> dr_max_tasks req"
begin

lemma counted_claim:
  assumes "rt_provider R = P" "counted q d" "d_pc d = At_Claim pkey local rest had_error"
  shows "counted q (poll_claim R q now upd clk pkey local rest had_error d)"
proof -
  let ?key = "unwrap_or pkey []" and ?req = "poll_request R q pkey (poll_max_tasks q local)"
  have c: "\<forall>k. unwrap_or (hm_get (d_running d) k) 0 = live k d" "poll_max_tasks q local > 0"
      "hm_contains (d_running d) ?key" "live ?key d \<le> local"
      "\<And>wc k. q_worker_concurrency q = Some wc \<Longrightarrow> live k d \<le> wc"
    using assms(2,3) by (auto simp: counted_def)
  show ?thesis
  proof (cases "\<exists>claimed s1. pv_dequeue_workflows P ?req now upd (d_store d) = Some (Inr claimed, s1)")
    case True
    then obtain claimed s1 where q: "pv_dequeue_workflows P ?req now upd (d_store d) = Some (Inr claimed, s1)" by blast
    let ?d = "d \<lparr> d_store := s1, d_pc := At_Keys rest had_error \<rparr>"
    have l: "live k ?d = live k d" for k by (simp add: live_def)
    let ?e = "fold (take_claimed R ?key clk) claimed ?d"
    have f: "\<forall>k. unwrap_or (hm_get (d_running ?e) k) 0 = live k ?e" "d_pc ?e = At_Keys rest had_error"
        "live k ?e \<le> (if k = ?key then live k d + length claimed else live k d)" for k
      using take_claimed_fold [of ?d ?key R clk claimed] c(1,3) unfolding l by simp_all
    have n: "int (length claimed) \<le> poll_max_tasks q local"
      using claims_at_most [OF q] c(2) by (simp add: poll_request_def)
    have "live k ?e \<le> wc" if "q_worker_concurrency q = Some wc" for k wc
      using f(3) [of k] c(4) c(5) [OF that, of k] n poll_max_tasks_le [OF that c(2)] by (cases "k = ?key") auto
    then show ?thesis using f(1,2) by (simp add: counted_def poll_claim_def assms(1) q)
  next
    case False
    then show ?thesis
      using c by (auto simp: counted_def poll_claim_def assms(1) live_def split: option.splits sum.splits)
  qed
qed

lemma counted_step:
  assumes "dispatch_step R q scale d d'" "rt_provider R = P" "counted q d"
  shows "counted q d'"
  using assms(1)
proof cases
  case (claim pkey local rest had_error now upd' clk)
  then show ?thesis using counted_claim [OF assms(2,3)] by simp
next
  case (run_ends i)
  then show ?thesis using counted_run_done [OF assms(3)] by simp
qed (use assms(3) in \<open>auto simp: counted_def live_def poll_top_def poll_load_def poll_wait_def Let_def
  hm_contains_def unwrap_or_def split: prod.splits sum.splits option.splits dispatch_pc.splits\<close>)

end

interpretation mem_claims: claim_source "memory_provider from_ms" for from_ms
proof
  fix req now upd s claimed s'
  assume q: "pv_dequeue_workflows (memory_provider from_ms) req now upd s = Some (Inr claimed, s')" "0 < dr_max_tasks req"
  have len: "claim_loop req t upd i ids g = Some (cs, g') \<Longrightarrow> length cs = length ids" for t i ids g cs g'
    by (induction req t upd i ids g arbitrary: cs g' rule: claim_loop.induct)
       (auto simp: Let_def split: option.splits)
  have "claim_budget req (timestamp_millis now) s \<le> dr_max_tasks req"
    by (auto simp: claim_budget_def Let_def split: option.splits)
  then show "int (length claimed) \<le> dr_max_tasks req"
    using q by (auto simp: memory_provider_def dequeue_workflows_def Let_def dest!: len split: if_splits option.splits)
qed

lemma paced_step:
  assumes "dispatch_step R q scale d d'" "\<forall>i. scale i \<le> i" "paced q d"
  shows "paced q d'"
  using assms(1)
proof cases
  case (claim pkey local rest had_error now upd' clk)
  have "d_interval (fold (take_claimed R key clk) ws e) = d_interval e" for key ws e
    by (induction ws arbitrary: e) (simp_all add: take_claimed_def split: option.splits)
  with claim assms(3) show ?thesis
    by (auto simp: paced_def poll_claim_def split: option.splits sum.splits)
next
  case (wait had_error)
  have "scale (d_interval d) \<le> d_interval d" using assms(2) by blast
  with wait assms(3) show ?thesis
    by (auto simp: paced_def poll_wait_def next_interval_def split: option.splits if_splits)
qed (use assms(3) in \<open>auto simp: paced_def poll_top_def poll_load_def run_done_def Let_def split: prod.splits sum.splits\<close>)

text \<open>
  C8. A queue never runs more workflows at once in this process than its worker concurrency allows, in
  each partition: in every state the dispatcher can reach, with runs finishing and the store changing
  at any moment, also between reading the counter and claiming, the counter of a partition is the
  number of its live runs and is at most the limit. The polling interval stays between the base and
  the maximum interval (\<open>scale\<close>, the multiplication by 0.9, does not increase a duration).
\<close>

theorem worker_concurrency_respected:
  assumes "(dispatch_step R q scale)\<^sup>*\<^sup>* (dispatcher_init q s) d" "rt_provider R = memory_provider from_ms"
    and "\<forall>i. scale i \<le> i"
  shows "unwrap_or (hm_get (d_running d) key) 0 = live key d \<and>
    (\<forall>wc. q_worker_concurrency q = Some wc \<longrightarrow> live key d \<le> wc) \<and>
    min (q_base_polling_interval q) (q_max_polling_interval q) \<le> d_interval d \<and>
    d_interval d \<le> max (q_base_polling_interval q) (q_max_polling_interval q)"
proof -
  have "counted q d \<and> paced q d"
    using assms(1)
  proof (induction rule: rtranclp_induct)
    case base
    show ?case by (simp add: counted_def paced_def dispatcher_init_def live_def unwrap_or_def)
  next
    case (step d d')
    then show ?case using mem_claims.counted_step [OF _ assms(2)] paced_step [OF _ assms(3)] by blast
  qed
  then show ?thesis by (simp add: counted_def paced_def)
qed

definition wit_queue :: workflow_queue where
  "wit_queue =
     \<lparr> q_name = ''q'', q_worker_concurrency = Some 1, q_global_concurrency = None, q_priority_enabled = False,
       q_rate_limit = None, q_max_tasks_per_iteration = 3, q_partitioned = False, q_base_polling_interval = 1,
       q_max_polling_interval = 4 \<rparr>"

definition wit_worker :: "(inner, (inner, nat) wf_fn) runtime" where
  "wit_worker = \<lparr> rt_provider = memory_provider wit_from_ms, rt_workflows = [(''job'', wit_handler)],
     rt_queues = [(''q'', wit_queue)], rt_executor_id = ''local'', rt_app_version = ''1'' \<rparr>"

definition wit_poll :: dequeue_request where
  "wit_poll =
     \<lparr> dr_queue_name = ''q'', dr_executor_id = ''local'', dr_app_version = ''1'', dr_partition_key = None,
       dr_max_tasks = 1, dr_global_concurrency = None, dr_rate_limit_max = None, dr_rate_limit_period_ms = None \<rparr>"

lemma wit_poll_request: "poll_request wit_worker wit_queue None 1 = wit_poll"
  by (simp add: poll_request_def wit_worker_def wit_queue_def wit_poll_def)

text \<open>The single workflow a claim returned, from its name.\<close>

lemma single_claim:
  assumes "map_option (\<lambda>(r, _). case r of Inr cs \<Rightarrow> map f cs | Inl _ \<Rightarrow> []) c = Some [x]"
  obtains w g where "c = Some (Inr [w], g)" "f w = x"
proof -
  from assms obtain r g where "c = Some (r, g)" "(case r of Inr cs \<Rightarrow> map f cs | Inl _ \<Rightarrow> []) = [x]" by auto
  with that show thesis by (cases r) auto
qed

theorem worker_concurrency_respected_witness:
  "\<exists>d. (dispatch_step wit_worker wit_queue id)\<^sup>*\<^sup>* (dispatcher_init wit_queue wit_store) d \<and> live [] d = 1 \<and>
     hm_get (d_running d) [] = Some 1 \<and> d_interval d \<le> 4"
proof -
  let ?S = "dispatch_step wit_worker wit_queue id" and ?d0 = "dispatcher_init wit_queue wit_store"
  let ?d1 = "poll_top wit_worker wit_queue 0 (\<lambda>k. 0) ?d0"
  let ?d2 = "poll_load wit_queue None [] False ?d1"
  let ?d3 = "poll_claim wit_worker wit_queue 0 (\<lambda>n. 0) (\<lambda>k. 0) None 0 [] False ?d2"
  have m: "poll_max_tasks wit_queue 0 = 1" by code_simp
  have "map_option (\<lambda>(r, _). case r of Inr cs \<Rightarrow> map (\<lambda>w. (ws_name w, ws_config_name w)) cs | Inl _ \<Rightarrow> [])
      (dequeue_workflows wit_poll 0 (\<lambda>n. 0) (d_store ?d2)) = Some [(''job'', None)]" by code_simp
  then obtain w g where w: "dequeue_workflows wit_poll 0 (\<lambda>n. 0) (d_store ?d2) = Some (Inr [w], g)" "ws_name w = ''job''"
      "ws_config_name w = None"
    by (rule single_claim) auto
  have pc: "d_pc ?d0 = At_Top" "d_pc ?d1 = At_Keys [None] False" "d_pc ?d2 = At_Claim None 0 [] False"
      "live [] ?d2 = 0" by code_simp+
  have l: "live [] ?d3 = 1"
    using w pc(4)
    by (simp add: poll_claim_def m wit_poll_request)
       (simp add: live_def take_claimed_def registry_key_def wit_worker_def memory_provider_def)
  have "?S\<^sup>*\<^sup>* ?d0 ?d3"
    using dispatch_step.top [OF pc(1)] dispatch_step.load [OF pc(2)] dispatch_step.claim [OF pc(3)]
    by (meson rtranclp.rtrancl_into_rtrancl rtranclp.rtrancl_refl)
  moreover from worker_concurrency_respected [OF this, of wit_from_ms "[]"] l
  have "unwrap_or (hm_get (d_running ?d3) []) 0 = 1" "d_interval ?d3 \<le> 4"
    by (simp_all add: wit_worker_def wit_queue_def)
  ultimately show ?thesis using l by (intro exI [of _ ?d3]) (auto simp: unwrap_or_def split: option.splits)
qed

section \<open>Released claims\<close>

text \<open>
  C39. A claimed workflow for which this process has no handler is put back: it is ENQUEUED again on
  its queue, with its input and priority, and no run is started. But the claim has stamped the row with
  this process's application version, and the release keeps the stamp, as it keeps the deadline: even
  a workflow submitted without a version can then be claimed only by executors of that same version.
\<close>

theorem released_claim_pinned:
  assumes "rt_provider R = memory_provider from_ms" "store_wf (d_store d)"
    and "dequeue_workflows (poll_request R q pkey n) now upd (d_store d) = Some (Inr claimed, g)"
    and "w \<in> set claimed" "hm_get (rt_workflows R) (registry_key (ws_name w) (ws_config_name w)) = None"
    and "take_claimed R key clk w (d \<lparr> d_store := g \<rparr>) = d'"
  shows "d_tasks d' = d_tasks d \<and> d_running d' = d_running d \<and>
    (\<exists>w0 r. row_of (ws_id w) (d_store d) = Some w0 \<and> row_of (ws_id w) (d_store d') = Some r \<and>
       ws_status r = STATUS_ENQUEUED \<and> ws_queue_name r = Some (q_name q) \<and>
       ws_input r = ws_input w0 \<and> ws_priority r = ws_priority w0 \<and>
       ws_app_version r = rt_app_version R \<and> ws_deadline_ms r = ws_deadline_ms w \<and>
       (\<forall>req g'. dr_app_version req \<noteq> rt_app_version R \<longrightarrow> rt_app_version R \<noteq> [] \<longrightarrow> \<not> claimable req g' r))"
proof -
  obtain w0 u where w: "row_of (ws_id w) (d_store d) = Some w0" "claimable (poll_request R q pkey n) (d_store d) w0"
      "w = claim_row (poll_request R q pkey n) (timestamp_millis now) u w0" "row_of (ws_id w) g = Some w"
    using dequeue_spec [OF assms(2), of "poll_request R q pkey n" now upd] assms(3,4) by auto
  let ?r = "status_transition STATUS_ENQUEUED None None (clk (ws_id w)) w"
  have d': "d' = d \<lparr> d_store := update_row (ws_id w) (status_transition STATUS_ENQUEUED None None (clk (ws_id w))) g \<rparr>"
    using assms(1,5,6) w(4)
    by (simp add: take_claimed_def memory_provider_def set_workflow_status_def Let_def status_defs)
  have "ws_status ?r = STATUS_ENQUEUED" "ws_queue_name ?r = Some (q_name q)" "ws_input ?r = ws_input w0"
      "ws_priority ?r = ws_priority w0" "ws_app_version ?r = rt_app_version R" "ws_deadline_ms ?r = ws_deadline_ms w"
    using w(2,3) by (simp_all add: status_transition_def Let_def claim_row_def claimable_def on_queue_def
      poll_request_def is_terminal_def status_defs)
  then show ?thesis using w(1,4) by (auto simp: d' update_row_get claimable_def)
qed

theorem released_claim_pinned_witness:
  "\<exists>w g r. dequeue_workflows (poll_request wit_worker wit_queue None 1) 0 (\<lambda>n. 0) wit_store = Some (Inr [w], g) \<and>
     row_of (ws_id w) (d_store (take_claimed (wit_worker \<lparr> rt_workflows := [] \<rparr>) [] (\<lambda>k. 0) w
       ((dispatcher_init wit_queue wit_store) \<lparr> d_store := g \<rparr>))) = Some r \<and>
     ws_status r = STATUS_ENQUEUED \<and> ws_app_version r = ''1''"
proof -
  have "map_option (\<lambda>(r, _). case r of Inr cs \<Rightarrow> map ws_id cs | Inl _ \<Rightarrow> [])
      (dequeue_workflows wit_poll 0 (\<lambda>n. 0) wit_store) = Some [''b'']" by code_simp
  then obtain w g where w: "dequeue_workflows wit_poll 0 (\<lambda>n. 0) wit_store = Some (Inr [w], g)"
    by (rule single_claim) auto
  have q: "poll_request (wit_worker \<lparr> rt_workflows := [] \<rparr>) wit_queue None 1 = wit_poll"
    by (simp add: poll_request_def wit_worker_def wit_queue_def wit_poll_def)
  show ?thesis
    using released_claim_pinned [of "wit_worker \<lparr> rt_workflows := [] \<rparr>" wit_from_ms "dispatcher_init wit_queue wit_store"
        wit_queue None 1 0 "\<lambda>n. 0" "[w]" g w "[]" "\<lambda>k. 0", OF _ _ _ _ _ refl] w wit_store_wf
    by (auto simp: q wit_poll_request dispatcher_init_def) (auto simp: wit_worker_def)
qed

end
