(* ===== verification/Scheduler.thy ===== *)
theory Scheduler
  imports Dispatch
begin

text \<open>
  Cron schedules in \<open>src/src/engine.rs\<close>: validation and administration of persisted schedules, the
  ticks of a spec in an interval, backfill, the firing of a tick under its deterministic id, and the
  reconciler that keeps one firing loop per desired schedule. The \<open>cron\<close> and \<open>chrono\<close> packages are
  parameters.
\<close>

section \<open>Cron\<close>

text \<open>
  \<open>ce_parse\<close> is \<open>cron::Schedule::from_str\<close> with the text of its error, \<open>ce_zone\<close> whether a name is an
  IANA timezone, \<open>ce_after\<close> the first instant of a spec strictly after another in a zone (\<open>None\<close> is
  UTC), \<open>ce_rfc3339\<close> and \<open>ce_rfc3339_nanos\<close> the two renderings of an instant, \<open>ce_to_value\<close> the serde
  form of a tick's input.
\<close>

record 'c cron_env =
  ce_parse :: "string \<Rightarrow> string + 'c"
  ce_zone :: "string \<Rightarrow> bool"
  ce_after :: "'c \<Rightarrow> string option \<Rightarrow> datetime \<Rightarrow> datetime option"
  ce_rfc3339 :: "datetime \<Rightarrow> string"
  ce_rfc3339_nanos :: "datetime \<Rightarrow> string"
  ce_to_value :: "scheduled_input \<Rightarrow> json result"

definition parse_cron :: "'c cron_env \<Rightarrow> string \<Rightarrow> 'c result" where
  "parse_cron E spec =
     (case ce_parse E spec of
        Inl m \<Rightarrow> Inl (app (''invalid cron schedule `'' @ spec @ ''`: '' @ m))
      | Inr c \<Rightarrow> Inr c)"

definition parse_timezone :: "'c cron_env \<Rightarrow> string \<Rightarrow> string result" where
  "parse_timezone E tz =
     (if ce_zone E tz then Inr tz else Inl (app (''invalid cron timezone `'' @ tz @ ''`'')))"

definition next_cron_instant :: "'c cron_env \<Rightarrow> 'c \<Rightarrow> string option \<Rightarrow> datetime \<Rightarrow> datetime option" where
  "next_cron_instant E cron tz after =
     (case tz of
        Some name \<Rightarrow> if ce_zone E name then ce_after E cron (Some name) after else None
      | None \<Rightarrow> ce_after E cron None after)"

text \<open>The loop of \<open>cron_ticks_between\<close>; not returning is \<open>None\<close>.\<close>

partial_function (option) ticks_loop ::
    "'c cron_env \<Rightarrow> 'c \<Rightarrow> string option \<Rightarrow> datetime \<Rightarrow> datetime list \<Rightarrow> datetime \<Rightarrow> datetime list option" where
  "ticks_loop E cron tz hi out cursor =
     (case next_cron_instant E cron tz cursor of
        None \<Rightarrow> Some out
      | Some nxt \<Rightarrow> if nxt \<ge> hi then Some out else ticks_loop E cron tz hi (out @ [nxt]) nxt)"

definition cron_ticks_between ::
    "'c cron_env \<Rightarrow> 'c \<Rightarrow> string option \<Rightarrow> datetime \<Rightarrow> datetime \<Rightarrow> datetime list option" where
  "cron_ticks_between E cron tz lo hi = ticks_loop E cron tz hi [] lo"

section \<open>Firing a tick\<close>

definition no_auth :: auth_context where
  "no_auth = \<lparr> ac_authenticated_user = None, ac_assumed_role = None, ac_authenticated_roles = [] \<rparr>"

definition tick_id :: "'c cron_env \<Rightarrow> workflow_schedule \<Rightarrow> datetime \<Rightarrow> string" where
  "tick_id E schedule instant = ''sched-'' @ sch_schedule_name schedule @ ''-'' @ ce_rfc3339 E instant"

definition tick_options :: "string \<Rightarrow> workflow_schedule \<Rightarrow> workflow_options" where
  "tick_options wid schedule =
     workflow_options_default \<lparr> wo_workflow_id := Some wid, wo_queue := sch_queue_name schedule \<rparr>"

definition persist_scheduled_tick ::
    "('s, 'h) runtime \<Rightarrow> 'c cron_env \<Rightarrow> workflow_schedule \<Rightarrow> datetime \<Rightarrow> datetime \<Rightarrow> datetime
       \<Rightarrow> ('s, workflow_status \<times> bool \<times> bool \<times> string) op" where
  "persist_scheduled_tick R E schedule instant now created_at =
     (case ce_to_value E (tick_input schedule instant) of
        Inl e \<Rightarrow> fail e
      | Inr input \<Rightarrow>
          and_then (insert_run R (tick_id E schedule instant) (sch_workflow_name schedule) input
            (tick_options (tick_id E schedule instant) schedule) None no_auth now created_at)
          (\<lambda>(canonical, queued, created). ok (canonical, queued, created, tick_id E schedule instant)))"

definition launch_scheduled_tick ::
    "('s, 'h) runtime \<Rightarrow> workflow_schedule \<Rightarrow> workflow_status \<Rightarrow> bool \<Rightarrow> bool \<Rightarrow> string \<Rightarrow> 'h spawned_run list" where
  "launch_scheduled_tick R schedule canonical queued created wid =
     (if queued \<or> \<not> created \<or> is_terminal (ws_status canonical) then []
      else
        (case hm_get (rt_workflows R) (sch_workflow_name schedule) of
           Some handler \<Rightarrow> [spawn_owned wid (sch_workflow_name schedule) handler (ws_input canonical)
             (ws_deadline_ms canonical) no_auth]
         | None \<Rightarrow> []))"

text \<open>Persisting and launching, as the firing loop and backfill do it: the result, the runs, the store.\<close>

definition fire_tick ::
    "('s, 'h) runtime \<Rightarrow> 'c cron_env \<Rightarrow> workflow_schedule \<Rightarrow> datetime \<Rightarrow> datetime \<Rightarrow> datetime \<Rightarrow> 's
       \<Rightarrow> string result \<times> 'h spawned_run list \<times> 's" where
  "fire_tick R E schedule instant now created_at s =
     (case persist_scheduled_tick R E schedule instant now created_at s of
        (Inl e, s1) \<Rightarrow> (Inl e, [], s1)
      | (Inr (canonical, queued, created, wid), s1) \<Rightarrow>
          (Inr wid, launch_scheduled_tick R schedule canonical queued created wid, s1))"

text \<open>\<open>clk n\<close> are the clock readings of the \<open>n\<close>-th tick.\<close>

fun backfill_loop ::
    "('s, 'h) runtime \<Rightarrow> 'c cron_env \<Rightarrow> workflow_schedule \<Rightarrow> (nat \<Rightarrow> datetime) \<Rightarrow> nat \<Rightarrow> datetime list \<Rightarrow> 's
       \<Rightarrow> string list result \<times> 'h spawned_run list \<times> 's" where
  "backfill_loop R E schedule clk n [] s = (Inr [], [], s)"
| "backfill_loop R E schedule clk n (instant # ticks) s =
     (case fire_tick R E schedule instant (clk (2 * n)) (clk (2 * n + 1)) s of
        (Inl e, runs, s1) \<Rightarrow> (Inl e, runs, s1)
      | (Inr wid, runs, s1) \<Rightarrow>
          (case backfill_loop R E schedule clk (Suc n) ticks s1 of
             (r, runs', s2) \<Rightarrow> (map_sum id (Cons wid) r, runs @ runs', s2)))"

definition backfill_ticks ::
    "('s, 'h) runtime \<Rightarrow> 'c cron_env \<Rightarrow> workflow_schedule \<Rightarrow> (nat \<Rightarrow> datetime) \<Rightarrow> datetime \<Rightarrow> datetime \<Rightarrow> 's
       \<Rightarrow> (string list result \<times> 'h spawned_run list \<times> 's) option" where
  "backfill_ticks R E schedule clk lo hi s =
     (case parse_cron E (sch_schedule schedule) of
        Inl e \<Rightarrow> Some (Inl e, [], s)
      | Inr cron \<Rightarrow>
          map_option (\<lambda>ticks. backfill_loop R E schedule clk 0 ticks s)
            (cron_ticks_between E cron (sch_cron_timezone schedule) lo hi))"

text \<open>
  One turn of a firing loop: whether the loop is told to stop, the clock reading the next tick is
  computed from, what happens to the store while it sleeps and whether it slept the wait out, and the
  readings for the row.
\<close>

record 's fire_turn =
  ft_stop :: bool
  ft_now :: datetime
  ft_env :: "'s \<Rightarrow> 's"
  ft_slept :: bool
  ft_row_now :: datetime
  ft_created :: datetime

fun schedule_fire_turns ::
    "('s, 'h) runtime \<Rightarrow> 'c cron_env \<Rightarrow> workflow_schedule \<Rightarrow> 'c \<Rightarrow> 's fire_turn list \<Rightarrow> 's \<Rightarrow> 'h spawned_run list \<times> 's" where
  "schedule_fire_turns R E schedule cron [] s = ([], s)"
| "schedule_fire_turns R E schedule cron (t # ts) s =
     (if ft_stop t then ([], s)
      else
        (case next_cron_instant E cron (sch_cron_timezone schedule) (ft_now t) of
           None \<Rightarrow> ([], s)
         | Some nxt \<Rightarrow>
             if \<not> ft_slept t then ([], ft_env t s)
             else
               (case fire_tick R E schedule nxt (ft_row_now t) (ft_created t) (ft_env t s) of
                  (_, runs, s1) \<Rightarrow>
                    (case schedule_fire_turns R E schedule cron ts (snd (pv_set_schedule_last_fired (rt_provider R)
                            (sch_schedule_name schedule) (timestamp_millis nxt) s1)) of
                       (runs', s2) \<Rightarrow> (runs @ runs', s2)))))"

definition schedule_fire_loop ::
    "('s, 'h) runtime \<Rightarrow> 'c cron_env \<Rightarrow> workflow_schedule \<Rightarrow> 's fire_turn list \<Rightarrow> 's \<Rightarrow> 'h spawned_run list \<times> 's" where
  "schedule_fire_loop R E schedule turns s =
     (case parse_cron E (sch_schedule schedule) of
        Inl e \<Rightarrow> ([], s)
      | Inr cron \<Rightarrow> schedule_fire_turns R E schedule cron turns s)"

section \<open>The reconciler\<close>

text \<open>
  One pass. The loops installed are a map from schedule names to schedule ids; a pass also says which
  firing loops it starts and which names it stops.
\<close>

definition macro_schedules :: "(string \<times> string) list \<Rightarrow> workflow_schedule list" where
  "macro_schedules scheduled =
     map (\<lambda>(name, spec).
       \<lparr> sch_schedule_id = ''macro:'' @ name @ '':'' @ spec, sch_schedule_name = name, sch_workflow_name = name,
         sch_schedule = spec, sch_status = Active, sch_context = None, sch_last_fired_at = None,
         sch_automatic_backfill = False, sch_cron_timezone = None, sch_queue_name = None \<rparr>) scheduled"

definition desired_schedules :: "workflow_schedule list \<Rightarrow> workflow_schedule list \<Rightarrow> workflow_schedule list" where
  "desired_schedules persisted macros =
     persisted @ filter (\<lambda>m. sch_schedule_name m \<notin> set (map sch_schedule_name persisted)) macros"

definition still_desired :: "workflow_schedule list \<Rightarrow> string \<times> string \<Rightarrow> bool" where
  "still_desired desired = (\<lambda>(name, sid).
     list_ex (\<lambda>s. sch_schedule_name s = name \<and> sch_schedule_id s = sid) desired)"

definition automatic_backfill ::
    "('s, 'h) runtime \<Rightarrow> 'c cron_env \<Rightarrow> (nat \<Rightarrow> datetime) \<Rightarrow> datetime \<Rightarrow> workflow_schedule \<Rightarrow> 's
       \<Rightarrow> ('h spawned_run list \<times> 's) option" where
  "automatic_backfill R E clk hi schedule s =
     (if sch_automatic_backfill schedule
      then
        (case sch_last_fired_at schedule of
           None \<Rightarrow> Some ([], s)
         | Some fired \<Rightarrow>
             (let lo = fired + 1000000000 in
              if lo < hi then map_option snd (backfill_ticks R E schedule clk lo hi s) else Some ([], s)))
      else Some ([], s))"

fun install_loop ::
    "('s, 'h) runtime \<Rightarrow> 'c cron_env \<Rightarrow> (string \<Rightarrow> nat \<Rightarrow> datetime) \<Rightarrow> (string \<Rightarrow> datetime) \<Rightarrow> workflow_schedule list
       \<Rightarrow> (string, string) hashmap \<Rightarrow> 's
       \<Rightarrow> ((string, string) hashmap \<times> workflow_schedule list \<times> 'h spawned_run list \<times> 's) option" where
  "install_loop R E clk now [] installed s = Some (installed, [], [], s)"
| "install_loop R E clk now (schedule # desired) installed s =
     (if hm_contains installed (sch_schedule_name schedule)
      then install_loop R E clk now desired installed s
      else
        (case automatic_backfill R E (clk (sch_schedule_name schedule)) (now (sch_schedule_name schedule)) schedule s of
           None \<Rightarrow> None
         | Some (runs, s1) \<Rightarrow>
             (case install_loop R E clk now desired
                     (hm_insert (sch_schedule_name schedule) (sch_schedule_id schedule) installed) s1 of
                None \<Rightarrow> None
              | Some (installed', loops, runs', s2) \<Rightarrow> Some (installed', schedule # loops, runs @ runs', s2))))"

definition reconcile_pass ::
    "('s, 'h) runtime \<Rightarrow> 'c cron_env \<Rightarrow> (string \<Rightarrow> nat \<Rightarrow> datetime) \<Rightarrow> (string \<Rightarrow> datetime) \<Rightarrow> workflow_schedule list
       \<Rightarrow> (string, string) hashmap \<Rightarrow> 's
       \<Rightarrow> ((string, string) hashmap \<times> workflow_schedule list \<times> string list \<times> 'h spawned_run list \<times> 's) option" where
  "reconcile_pass R E clk now macros installed s =
     (case pv_list_schedules (rt_provider R) (schedule_filter_default \<lparr> sf_statuses := [Active] \<rparr>) s of
        (Inl e, s1) \<Rightarrow> Some (installed, [], [], [], s1)
      | (Inr persisted, s1) \<Rightarrow>
          (let desired = desired_schedules persisted macros;
               kept = filter (still_desired desired) installed;
               stopped = map fst (filter (\<lambda>e. \<not> still_desired desired e) installed)
           in case install_loop R E clk now desired kept s1 of
                None \<Rightarrow> None
              | Some (installed', loops, runs, s2) \<Rightarrow> Some (installed', loops, stopped, runs, s2)))"

section \<open>Administration\<close>

definition validate_schedule ::
    "('s, 'h) runtime \<Rightarrow> 'c cron_env \<Rightarrow> string \<Rightarrow> string \<Rightarrow> string \<Rightarrow> schedule_options \<Rightarrow> unit result" where
  "validate_schedule R E schedule_name workflow_name cron opts =
     (if schedule_name = [] then Inl (app ''schedule_name is required'')
      else
        (case parse_cron E cron of
           Inl e \<Rightarrow> Inl e
         | Inr _ \<Rightarrow>
             (case (case so_cron_timezone opts of Some tz \<Rightarrow> map_sum id (\<lambda>_. ()) (parse_timezone E tz) | None \<Rightarrow> Inr ()) of
                Inl e \<Rightarrow> Inl e
              | Inr _ \<Rightarrow>
                  if hm_contains (rt_workflows R) workflow_name then Inr () else Inl (UnknownWorkflow workflow_name))))"

definition new_schedule :: "string \<Rightarrow> string \<Rightarrow> string \<Rightarrow> string \<Rightarrow> schedule_options \<Rightarrow> workflow_schedule" where
  "new_schedule fresh schedule_name workflow_name cron opts =
     \<lparr> sch_schedule_id = fresh, sch_schedule_name = schedule_name, sch_workflow_name = workflow_name,
       sch_schedule = cron, sch_status = Active, sch_context = so_context opts, sch_last_fired_at = None,
       sch_automatic_backfill = so_automatic_backfill opts, sch_cron_timezone = so_cron_timezone opts,
       sch_queue_name = so_queue_name opts \<rparr>"

definition engine_create_schedule ::
    "('s, 'h) runtime \<Rightarrow> 'c cron_env \<Rightarrow> string \<Rightarrow> string \<Rightarrow> string \<Rightarrow> string \<Rightarrow> schedule_options \<Rightarrow> ('s, unit) op" where
  "engine_create_schedule R E fresh schedule_name workflow_name cron opts =
     (case validate_schedule R E schedule_name workflow_name cron opts of
        Inl e \<Rightarrow> fail e
      | Inr _ \<Rightarrow> pv_create_schedule (rt_provider R) (new_schedule fresh schedule_name workflow_name cron opts))"

text \<open>Every entry is validated before any write; the first invalid one is the result.\<close>

fun validate_all :: "('s, 'h) runtime \<Rightarrow> 'c cron_env \<Rightarrow> apply_schedule list \<Rightarrow> unit result" where
  "validate_all R E [] = Inr ()"
| "validate_all R E (req # reqs) =
     (case validate_schedule R E (as_schedule_name req) (as_workflow_name req) (as_schedule req) (as_options req) of
        Inl e \<Rightarrow> Inl e
      | Inr _ \<Rightarrow> validate_all R E reqs)"

definition engine_apply_schedules ::
    "('s, 'h) runtime \<Rightarrow> 'c cron_env \<Rightarrow> (nat \<Rightarrow> string) \<Rightarrow> apply_schedule list \<Rightarrow> ('s, unit) op" where
  "engine_apply_schedules R E fresh reqs =
     (case validate_all R E reqs of
        Inl e \<Rightarrow> fail e
      | Inr _ \<Rightarrow> pv_apply_schedules (rt_provider R)
          (map (\<lambda>(n, req). new_schedule (fresh n) (as_schedule_name req) (as_workflow_name req) (as_schedule req)
             (as_options req)) (enumerate 0 reqs)))"

definition get_schedule :: "('s, 'h) runtime \<Rightarrow> string \<Rightarrow> ('s, workflow_schedule option) op" where
  "get_schedule R schedule_name =
     and_then (pv_list_schedules (rt_provider R) (schedule_filter_default \<lparr> sf_name_prefixes := [schedule_name] \<rparr>))
     (\<lambda>ss. ok (find (\<lambda>s. sch_schedule_name s = schedule_name) ss))"

definition pause_schedule :: "('s, 'h) runtime \<Rightarrow> string \<Rightarrow> ('s, bool) op" where
  "pause_schedule R schedule_name = pv_set_schedule_status (rt_provider R) schedule_name Paused"

definition resume_schedule :: "('s, 'h) runtime \<Rightarrow> string \<Rightarrow> ('s, bool) op" where
  "resume_schedule R schedule_name = pv_set_schedule_status (rt_provider R) schedule_name Active"

definition schedule_not_found :: "string \<Rightarrow> error" where
  "schedule_not_found schedule_name = app (''schedule not found: '' @ schedule_name)"

definition backfill_schedule ::
    "('s, 'h) runtime \<Rightarrow> 'c cron_env \<Rightarrow> (nat \<Rightarrow> datetime) \<Rightarrow> string \<Rightarrow> datetime \<Rightarrow> datetime \<Rightarrow> 's
       \<Rightarrow> (string list result \<times> 'h spawned_run list \<times> 's) option" where
  "backfill_schedule R E clk schedule_name lo hi s =
     (case get_schedule R schedule_name s of
        (Inl e, s1) \<Rightarrow> Some (Inl e, [], s1)
      | (Inr None, s1) \<Rightarrow> Some (Inl (schedule_not_found schedule_name), [], s1)
      | (Inr (Some schedule), s1) \<Rightarrow> backfill_ticks R E schedule clk lo hi s1)"

definition trigger_schedule ::
    "('s, 'h) runtime \<Rightarrow> 'c cron_env \<Rightarrow> (nat \<Rightarrow> 's \<Rightarrow> 's) \<Rightarrow> (nat \<Rightarrow> datetime) \<Rightarrow> string \<Rightarrow> datetime \<Rightarrow> string \<Rightarrow> nat \<Rightarrow> 's
       \<Rightarrow> ('h handle result \<times> 's) option" where
  "trigger_schedule R E env clk fresh now schedule_name fuel s =
     (case get_schedule R schedule_name s of
        (Inl e, s1) \<Rightarrow> Some (Inl e, s1)
      | (Inr None, s1) \<Rightarrow> Some (Inl (schedule_not_found schedule_name), s1)
      | (Inr (Some schedule), s1) \<Rightarrow>
          start R env clk fresh (sch_workflow_name schedule) (ce_to_value E (tick_input schedule now))
            (tick_options (''sched-'' @ schedule_name @ ''-trigger-'' @ ce_rfc3339_nanos E now) schedule) fuel s1)"

section \<open>Ticks\<close>

text \<open>
  What is relied on of \<open>cron\<close>: the instants of a spec are a set \<open>occ\<close>, and \<open>next\<close> gives the first one
  strictly after an instant.
\<close>

definition cron_ok :: "(datetime \<Rightarrow> datetime option) \<Rightarrow> (datetime \<Rightarrow> bool) \<Rightarrow> bool" where
  "cron_ok nxt occ \<longleftrightarrow> (\<forall>t.
     (nxt t = None \<longrightarrow> (\<forall>u > t. \<not> occ u)) \<and>
     (\<forall>n. nxt t = Some n \<longrightarrow> occ n \<and> t < n \<and> (\<forall>u. t < u \<and> u < n \<longrightarrow> \<not> occ u)))"

lemma ticks_loop_exact:
  assumes "cron_ok (next_cron_instant E cron tz) occ"
  shows "\<exists>ts. ticks_loop E cron tz hi out cursor = Some (out @ ts) \<and> sorted_wrt (<) ts \<and>
    set ts = {t. occ t \<and> cursor < t \<and> t < hi}"
proof (induction "nat (hi - cursor)" arbitrary: out cursor rule: less_induct)
  case less
  show ?case
  proof (cases "next_cron_instant E cron tz cursor")
    case None
    then have "\<not> occ u" if "cursor < u" for u using assms that unfolding cron_ok_def by blast
    then show ?thesis by (subst ticks_loop.simps) (auto simp: None)
  next
    case (Some n)
    then have n: "occ n" "cursor < n" "\<And>u. cursor < u \<Longrightarrow> u < n \<Longrightarrow> \<not> occ u"
      using assms unfolding cron_ok_def by blast+
    show ?thesis
    proof (cases "n \<ge> hi")
      case True
      with n(3) have "{t. occ t \<and> cursor < t \<and> t < hi} = {}" by force
      then show ?thesis by (subst ticks_loop.simps) (simp add: Some True)
    next
      case False
      then obtain ts where ts: "ticks_loop E cron tz hi (out @ [n]) n = Some ((out @ [n]) @ ts)" "sorted_wrt (<) ts"
          "set ts = {t. occ t \<and> n < t \<and> t < hi}"
        using less [of n "out @ [n]"] n(2) by auto
      moreover have "{t. occ t \<and> cursor < t \<and> t < hi} = insert n (set ts)"
        using n False ts(3) by (auto simp: not_less)
      ultimately show ?thesis
        by (subst ticks_loop.simps) (auto simp: Some False intro: exI [of _ "n # ts"])
    qed
  qed
qed

definition tick_row ::
    "('s, 'h) runtime \<Rightarrow> 'c cron_env \<Rightarrow> workflow_schedule \<Rightarrow> datetime \<Rightarrow> json \<Rightarrow> datetime \<Rightarrow> datetime \<Rightarrow> workflow_status" where
  "tick_row R E schedule t input now created_at =
     run_row R (tick_id E schedule t) (sch_workflow_name schedule) input (tick_options (tick_id E schedule t) schedule)
       None no_auth now created_at"

lemma tick_row_fields:
  "ws_id (tick_row R E schedule t input now c) = tick_id E schedule t"
  "ws_input (tick_row R E schedule t input now c) = input"
  "ws_status (tick_row R E schedule t input now c) =
     (if sch_queue_name schedule = None then STATUS_PENDING else STATUS_ENQUEUED)"
  "ws_deadline_ms (tick_row R E schedule t input now c) = None"
  "ws_dedup_id (tick_row R E schedule t input now c) = None"
  by (auto simp: tick_row_def run_row_def Let_def workflow_status_new_def tick_options_def
      workflow_options_default_def run_status_def)

definition queue_known :: "('s, 'h) runtime \<Rightarrow> workflow_schedule \<Rightarrow> bool" where
  "queue_known R schedule \<longleftrightarrow> is_none_or (hm_contains (rt_queues R)) (sch_queue_name schedule)"

text \<open>The run a tick starts in the process that creates its row.\<close>

definition tick_run :: "('s, 'h) runtime \<Rightarrow> 'c cron_env \<Rightarrow> workflow_schedule \<Rightarrow> datetime \<Rightarrow> json \<Rightarrow> 'h spawned_run list" where
  "tick_run R E schedule t input =
     (case (sch_queue_name schedule, hm_get (rt_workflows R) (sch_workflow_name schedule)) of
        (None, Some handler) \<Rightarrow> [spawn_owned (tick_id E schedule t) (sch_workflow_name schedule) handler input None no_auth]
      | _ \<Rightarrow> [])"

lemma fire_tick_mem:
  assumes "rt_provider R = memory_provider from_ms" "ce_to_value E (tick_input schedule t) = Inr input"
    and "queue_known R schedule"
  shows "fire_tick R E schedule t now c g =
    (Inr (tick_id E schedule t),
     if hm_contains (workflows g) (tick_id E schedule t) then [] else tick_run R E schedule t input,
     g \<lparr> workflows := hm_or_insert (tick_id E schedule t) (tick_row R E schedule t input now c) (workflows g) \<rparr>)"
proof -
  let ?r = "tick_row R E schedule t input now c" and ?o = "tick_options (tick_id E schedule t) schedule"
  have o: "wo_queue ?o = sch_queue_name schedule" "wo_delay ?o = None"
    by (simp_all add: tick_options_def workflow_options_default_def)
  have "dedup_conflict g ?r = None" by (simp add: dedup_conflict_def tick_row_fields split: option.splits)
  then have ins: "insert_workflow_status ?r g =
      (Inr (unwrap_or (hm_get (workflows g) (tick_id E schedule t)) ?r, \<not> hm_contains (workflows g) (tick_id E schedule t)),
       g \<lparr> workflows := hm_or_insert (tick_id E schedule t) ?r (workflows g) \<rparr>)"
    by (simp add: insert_workflow_status_def tick_row_fields Let_def)
  have run: "insert_run R (tick_id E schedule t) (sch_workflow_name schedule) input ?o None no_auth now c g =
      (Inr (unwrap_or (hm_get (workflows g) (tick_id E schedule t)) ?r, sch_queue_name schedule \<noteq> None,
         \<not> hm_contains (workflows g) (tick_id E schedule t)),
       g \<lparr> workflows := hm_or_insert (tick_id E schedule t) ?r (workflows g) \<rparr>)"
    using assms(1,3) ins
    by (cases "sch_queue_name schedule")
       (simp_all add: insert_run_def o and_then_def memory_provider_def queue_known_def is_none_or_def tick_row_def)
  show ?thesis
    by (cases "hm_get (workflows g) (tick_id E schedule t)")
       (auto simp: fire_tick_def persist_scheduled_tick_def assms(2) and_then_def run launch_scheduled_tick_def
          tick_run_def tick_row_fields hm_contains_def is_terminal_def status_defs split: option.splits)
qed

text \<open>
  Several processes firing the same tick: each attempt is a process with its clock readings, after
  whatever else happened to the store.
\<close>

fun fire_attempts ::
    "'c cron_env \<Rightarrow> workflow_schedule \<Rightarrow> datetime
       \<Rightarrow> ((inner, 'h) runtime \<times> datetime \<times> datetime \<times> (inner \<Rightarrow> inner)) list \<Rightarrow> inner \<Rightarrow> 'h spawned_run list \<times> inner" where
  "fire_attempts E schedule t [] g = ([], g)"
| "fire_attempts E schedule t ((R, now, c, env) # rest) g =
     (case fire_tick R E schedule t now c (env g) of
        (_, runs, g1) \<Rightarrow> apfst ((@) runs) (fire_attempts E schedule t rest g1))"

lemma fire_attempts_present:
  assumes "ce_to_value E (tick_input schedule t) = Inr input"
    and "\<forall>(R, now, c, env) \<in> set xs. rt_provider R = memory_provider from_ms \<and> queue_known R schedule \<and>
      (\<forall>g. hm_contains (workflows g) (tick_id E schedule t) \<longrightarrow> hm_contains (workflows (env g)) (tick_id E schedule t))"
    and "hm_contains (workflows g) (tick_id E schedule t)"
  shows "fst (fire_attempts E schedule t xs g) = [] \<and>
    hm_contains (workflows (snd (fire_attempts E schedule t xs g))) (tick_id E schedule t)"
  using assms(2,3)
proof (induction xs arbitrary: g)
  case (Cons x xs)
  obtain R now c env where x: "x = (R, now, c, env)" by (cases x)
  have "hm_contains (workflows (env g)) (tick_id E schedule t)" using Cons.prems by (simp add: x)
  then show ?case
    using Cons fire_tick_mem [OF _ assms(1), of R from_ms now c "env g"]
    by (simp add: x hm_or_insert_def)
qed simp

text \<open>
  C13. A scheduled tick runs at most once in the whole fleet: however many processes fire the same tick,
  in whatever order and with whatever happening to the store in between short of deleting the row, at
  most one run is started. The process that creates the row is the only one that starts it; if it has
  no handler for the workflow the row is there and no process starts a run. A queued tick is started by
  none of them and left to the dispatchers.
\<close>

theorem tick_fires_once:
  assumes "ce_to_value E (tick_input schedule t) = Inr input"
    and "\<forall>(R, now, c, env) \<in> set xs. rt_provider R = memory_provider from_ms \<and> queue_known R schedule \<and>
      (\<forall>g. hm_contains (workflows g) (tick_id E schedule t) \<longrightarrow> hm_contains (workflows (env g)) (tick_id E schedule t))"
  shows "length (fst (fire_attempts E schedule t xs g)) \<le> 1 \<and>
    (xs \<noteq> [] \<longrightarrow> hm_contains (workflows (snd (fire_attempts E schedule t xs g))) (tick_id E schedule t)) \<and>
    (\<forall>R now c env rest. xs = (R, now, c, env) # rest \<longrightarrow> \<not> hm_contains (workflows (env g)) (tick_id E schedule t) \<longrightarrow>
       fst (fire_attempts E schedule t xs g) = tick_run R E schedule t input)"
proof (cases xs)
  case (Cons x xs')
  obtain R now c env where x: "x = (R, now, c, env)" by (cases x)
  have R: "rt_provider R = memory_provider from_ms" "queue_known R schedule" using assms(2) by (simp_all add: Cons x)
  let ?g = "env g \<lparr> workflows := hm_or_insert (tick_id E schedule t) (tick_row R E schedule t input now c)
    (workflows (env g)) \<rparr>"
  have p: "hm_contains (workflows ?g) (tick_id E schedule t)" by (simp add: hm_contains_def)
  have l: "length (tick_run R E schedule t input) \<le> 1" by (simp add: tick_run_def split: option.splits)
  have "fst (fire_attempts E schedule t xs' ?g) = [] \<and>
      hm_contains (workflows (snd (fire_attempts E schedule t xs' ?g))) (tick_id E schedule t)"
    by (rule fire_attempts_present [OF assms(1) _ p]) (use assms(2) in \<open>auto simp: Cons\<close>)
  then show ?thesis using l by (auto simp: Cons x fire_tick_mem [OF R(1) assms(1) R(2)])
qed simp

definition wit_cron :: "unit cron_env" where
  "wit_cron = \<lparr> ce_parse = (\<lambda>s. if s = ''t'' then Inr () else Inl ''bad''), ce_zone = (\<lambda>z. z = ''UTC''),
     ce_after = (\<lambda>c z t. Some (10 * (t div 10) + 10)), ce_rfc3339 = (\<lambda>t. replicate (nat \<bar>t\<bar>) (if t < 0 then CHR ''m'' else CHR ''i'')),
     ce_rfc3339_nanos = (\<lambda>t. replicate (nat t) CHR ''n''), ce_to_value = (\<lambda>i. Inr (JInt (sin_scheduled_time i))) \<rparr>"

definition wit_schedule :: workflow_schedule where
  "wit_schedule = new_schedule ''u'' ''s'' ''wf'' ''t'' schedule_options_default"

lemma wit_schedule_simps:
  "sch_queue_name wit_schedule = None" "sch_workflow_name wit_schedule = ''wf''" "sch_schedule wit_schedule = ''t''"
  "sch_cron_timezone wit_schedule = None" "sch_schedule_name wit_schedule = ''s''"
  by (simp_all add: wit_schedule_def new_schedule_def schedule_options_default_def)

theorem tick_fires_once_witness:
  "length (fst (fire_attempts wit_cron wit_schedule 20
     [(wit_runtime, 0, 0, id), (wit_runtime \<lparr> rt_executor_id := ''other'' \<rparr>, 1, 1, id)] inner_default)) = 1"
proof -
  let ?xs = "[(wit_runtime, 0, 0, id), (wit_runtime \<lparr> rt_executor_id := ''other'' \<rparr>, 1, 1, id)]"
  have v: "ce_to_value wit_cron (tick_input wit_schedule 20) = Inr (JInt 20)"
    by (simp add: wit_cron_def tick_input_def)
  have "\<forall>(R, now, c, env) \<in> set ?xs. rt_provider R = memory_provider wit_from_ms \<and> queue_known R wit_schedule \<and>
      (\<forall>g. hm_contains (workflows g) (tick_id wit_cron wit_schedule 20) \<longrightarrow>
        hm_contains (workflows (env g)) (tick_id wit_cron wit_schedule 20))"
    by (simp add: wit_runtime_def queue_known_def wit_schedule_simps is_none_or_def)
  from tick_fires_once [OF v this, of inner_default] show ?thesis
    by (simp add: inner_default_def hm_contains_def hm_get_def tick_run_def wit_schedule_simps wit_runtime_def)
qed

section \<open>Backfill\<close>

lemma tick_id_inj: "inj (ce_rfc3339 E) \<Longrightarrow> tick_id E schedule t = tick_id E schedule u \<longleftrightarrow> t = u"
  by (simp add: tick_id_def inj_eq)

lemma backfill_loop_exact:
  assumes "rt_provider R = memory_provider from_ms" "queue_known R schedule"
    and "\<forall>t. \<exists>input. ce_to_value E (tick_input schedule t) = Inr input" "inj (ce_rfc3339 E)" "distinct ts"
  shows "\<exists>runs g'. backfill_loop R E schedule clk n ts g = (Inr (map (tick_id E schedule) ts), runs, g') \<and>
    (\<forall>k. hm_contains (workflows g') k \<longleftrightarrow> hm_contains (workflows g) k \<or> k \<in> tick_id E schedule ` set ts) \<and>
    (\<forall>k row. hm_get (workflows g) k = Some row \<longrightarrow> hm_get (workflows g') k = Some row) \<and>
    (sch_queue_name schedule = None \<longrightarrow> hm_contains (rt_workflows R) (sch_workflow_name schedule) \<longrightarrow>
       map sp_id runs = filter (\<lambda>k. \<not> hm_contains (workflows g) k) (map (tick_id E schedule) ts))"
  using assms(5)
proof (induction ts arbitrary: n g)
  case (Cons t ts)
  let ?i = "tick_id E schedule t" and ?a = "clk (2 * n)" and ?b = "clk (Suc (2 * n))"
  obtain input where v: "ce_to_value E (tick_input schedule t) = Inr input" using assms(3) by blast
  let ?g = "g \<lparr> workflows := hm_or_insert ?i (tick_row R E schedule t input ?a ?b) (workflows g) \<rparr>"
  obtain runs g' where IH: "backfill_loop R E schedule clk (Suc n) ts ?g = (Inr (map (tick_id E schedule) ts), runs, g')"
      "\<forall>k. hm_contains (workflows g') k \<longleftrightarrow> hm_contains (workflows ?g) k \<or> k \<in> tick_id E schedule ` set ts"
      "\<forall>k row. hm_get (workflows ?g) k = Some row \<longrightarrow> hm_get (workflows g') k = Some row"
      "sch_queue_name schedule = None \<longrightarrow> hm_contains (rt_workflows R) (sch_workflow_name schedule) \<longrightarrow>
         map sp_id runs = filter (\<lambda>k. \<not> hm_contains (workflows ?g) k) (map (tick_id E schedule) ts)"
    using Cons.IH [of "Suc n" ?g] Cons.prems by auto
  have c: "hm_contains (workflows ?g) k \<longleftrightarrow> hm_contains (workflows g) k \<or> k = ?i" for k
    by (simp add: hm_contains_def split: option.splits)
  have fresh: "filter (\<lambda>k. \<not> hm_contains (workflows ?g) k) (map (tick_id E schedule) ts) =
      filter (\<lambda>k. \<not> hm_contains (workflows g) k) (map (tick_id E schedule) ts)"
  proof (rule filter_cong [OF refl])
    fix k assume "k \<in> set (map (tick_id E schedule) ts)"
    then have "k \<noteq> ?i" using Cons.prems by (auto simp: tick_id_inj [OF assms(4)])
    then show "(\<not> hm_contains (workflows ?g) k) = (\<not> hm_contains (workflows g) k)" unfolding c by simp
  qed
  have r: "map sp_id (tick_run R E schedule t input) = [?i]"
    if "sch_queue_name schedule = None" "hm_contains (rt_workflows R) (sch_workflow_name schedule)"
    using that by (auto simp: tick_run_def hm_contains_def spawn_owned_def split: option.splits)
  let ?runs = "(if hm_contains (workflows g) ?i then [] else tick_run R E schedule t input) @ runs"
  have "backfill_loop R E schedule clk n (t # ts) g = (Inr (map (tick_id E schedule) (t # ts)), ?runs, g')"
    by (simp add: fire_tick_mem [OF assms(1) v assms(2)] IH(1))
  moreover have "hm_get (workflows g') k = Some row" if "hm_get (workflows g) k = Some row" for k row
    using IH(3) [rule_format, of k row] that by (cases "k = ?i") simp_all
  moreover have "map sp_id ?runs = filter (\<lambda>k. \<not> hm_contains (workflows g) k) (map (tick_id E schedule) (t # ts))"
    if "sch_queue_name schedule = None" "hm_contains (rt_workflows R) (sch_workflow_name schedule)"
    using IH(4) [rule_format, OF that] fresh r [OF that] by simp
  moreover have "\<forall>k. hm_contains (workflows g') k \<longleftrightarrow> hm_contains (workflows g) k \<or> k \<in> tick_id E schedule ` set (t # ts)"
    using IH(2) unfolding c by auto
  ultimately show ?case by (intro exI [of _ ?runs] exI [of _ g'] conjI) blast+
qed simp

text \<open>
  C14. Backfill fires exactly the ticks of the interval: for a valid spec it returns, and returns the ids
  of all the instants strictly between the bounds, in increasing order and once each; afterwards each
  of them has a row, no other row was created and no existing row changed; and a direct run is started
  for exactly those that had no row before. The \<open>cron\<close> package gives the first instant after another,
  and different instants are rendered differently.
\<close>

theorem backfill_exact:
  assumes "rt_provider R = memory_provider from_ms" "queue_known R schedule"
    and "\<forall>t. \<exists>input. ce_to_value E (tick_input schedule t) = Inr input" "inj (ce_rfc3339 E)"
    and "parse_cron E (sch_schedule schedule) = Inr cron"
    and "cron_ok (next_cron_instant E cron (sch_cron_timezone schedule)) occ"
  shows "\<exists>ts runs g'. backfill_ticks R E schedule clk lo hi g = Some (Inr (map (tick_id E schedule) ts), runs, g') \<and>
    sorted_wrt (<) ts \<and> set ts = {t. occ t \<and> lo < t \<and> t < hi} \<and>
    (\<forall>k. hm_contains (workflows g') k \<longleftrightarrow> hm_contains (workflows g) k \<or> k \<in> tick_id E schedule ` set ts) \<and>
    (\<forall>k row. hm_get (workflows g) k = Some row \<longrightarrow> hm_get (workflows g') k = Some row) \<and>
    (sch_queue_name schedule = None \<longrightarrow> hm_contains (rt_workflows R) (sch_workflow_name schedule) \<longrightarrow>
       map sp_id runs = filter (\<lambda>k. \<not> hm_contains (workflows g) k) (map (tick_id E schedule) ts))"
proof -
  obtain ts where ts: "cron_ticks_between E cron (sch_cron_timezone schedule) lo hi = Some ts" "sorted_wrt (<) ts"
      "set ts = {t. occ t \<and> lo < t \<and> t < hi}"
    using ticks_loop_exact [OF assms(6), of hi "[]" lo] by (auto simp: cron_ticks_between_def)
  have "distinct ts" using ts(2) by (simp add: strict_sorted_iff)
  from backfill_loop_exact [OF assms(1-4) this, of clk 0 g] ts(2,3) show ?thesis
    by (elim exE) (rule exI [of _ ts], simp add: backfill_ticks_def assms(5) ts(1))
qed

lemma wit_cron_ok: "cron_ok (next_cron_instant wit_cron () None) (\<lambda>t. 10 dvd t)"
proof -
  have "\<not> 10 dvd u" if "t < u" "u < 10 * (t div 10) + 10" for t u :: int using that by presburger
  moreover have "t < 10 * (t div 10) + 10" "10 dvd 10 * (t div 10) + 10" for t :: int by presburger+
  ultimately show ?thesis by (simp add: cron_ok_def next_cron_instant_def wit_cron_def) blast
qed

theorem backfill_exact_witness:
  "\<exists>ts runs g'. backfill_ticks wit_runtime wit_cron wit_schedule (\<lambda>n. 0) 5 30 wit_store =
     Some (Inr (map (tick_id wit_cron wit_schedule) ts), runs, g') \<and> set ts = {10, 20}"
proof -
  have s: "{t :: int. 10 dvd t \<and> 5 < t \<and> t < 30} = {10, 20}" by auto
  have "inj (ce_rfc3339 wit_cron)" by (auto simp: wit_cron_def inj_def split: if_splits)
  moreover have "parse_cron wit_cron (sch_schedule wit_schedule) = Inr ()"
    by (simp add: parse_cron_def wit_cron_def wit_schedule_simps)
  ultimately show ?thesis
    using backfill_exact [of wit_runtime wit_from_ms wit_schedule wit_cron "()" "\<lambda>t. 10 dvd t" "\<lambda>n. 0" 5 30 wit_store]
      wit_cron_ok
    by (auto simp: s wit_runtime_def queue_known_def wit_schedule_simps is_none_or_def)
       (auto simp: wit_cron_def)
qed

text \<open>
  C40. The automatic catch-up of a schedule fires the instants strictly later than one second after the
  last fired tick, and earlier than the present: the bound is the last tick plus one second, and it is
  excluded. An instant exactly one second after the last fired tick, as every tick of a spec that fires
  each second has, is not caught up.
\<close>

theorem automatic_backfill_gap:
  assumes "rt_provider R = memory_provider from_ms" "queue_known R schedule"
    and "\<forall>t. \<exists>input. ce_to_value E (tick_input schedule t) = Inr input" "inj (ce_rfc3339 E)"
    and "parse_cron E (sch_schedule schedule) = Inr cron"
    and "cron_ok (next_cron_instant E cron (sch_cron_timezone schedule)) occ"
    and "sch_automatic_backfill schedule" "sch_last_fired_at schedule = Some fired"
  shows "\<exists>runs g'. automatic_backfill R E clk hi schedule g = Some (runs, g') \<and>
    (\<forall>k. hm_contains (workflows g') k \<longleftrightarrow> hm_contains (workflows g) k \<or>
       (\<exists>t. k = tick_id E schedule t \<and> occ t \<and> fired + 1000000000 < t \<and> t < hi))"
proof (cases "fired + 1000000000 < hi")
  case True
  obtain ts where ts: "cron_ticks_between E cron (sch_cron_timezone schedule) (fired + 1000000000) hi = Some ts"
      "sorted_wrt (<) ts" "set ts = {t. occ t \<and> fired + 1000000000 < t \<and> t < hi}"
    using ticks_loop_exact [OF assms(6), of hi "[]" "fired + 1000000000"] by (auto simp: cron_ticks_between_def)
  have "distinct ts" using ts(2) by (simp add: strict_sorted_iff)
  from backfill_loop_exact [OF assms(1-4) this, of clk 0 g] show ?thesis
    by (elim exE) (auto simp: automatic_backfill_def assms(5,7,8) backfill_ticks_def ts(1,3) True)
next
  case False
  then show ?thesis by (auto simp: automatic_backfill_def assms(7,8))
qed

definition wit_catch_up :: workflow_schedule where
  "wit_catch_up = wit_schedule \<lparr> sch_automatic_backfill := True, sch_last_fired_at := Some 0 \<rparr>"

theorem automatic_backfill_gap_witness:
  "\<exists>runs g'. automatic_backfill wit_runtime wit_cron (\<lambda>n. 0) 1000000011 wit_catch_up wit_store = Some (runs, g') \<and>
     hm_contains (workflows g') (tick_id wit_cron wit_catch_up 1000000010) \<and>
     \<not> hm_contains (workflows g') (tick_id wit_cron wit_catch_up 1000000000)"
proof -
  have inj: "inj (ce_rfc3339 wit_cron)" by (auto simp: wit_cron_def inj_def split: if_splits)
  have c: "parse_cron wit_cron (sch_schedule wit_catch_up) = Inr ()" "sch_cron_timezone wit_catch_up = None"
      "queue_known wit_runtime wit_catch_up" "rt_provider wit_runtime = memory_provider wit_from_ms"
      "sch_automatic_backfill wit_catch_up" "sch_last_fired_at wit_catch_up = Some 0"
    by (simp_all add: parse_cron_def wit_cron_def wit_catch_up_def wit_schedule_simps queue_known_def is_none_or_def
      wit_runtime_def)
  have v: "\<forall>t. \<exists>input. ce_to_value wit_cron (tick_input wit_catch_up t) = Inr input" by (simp add: wit_cron_def)
  have "\<not> hm_contains (workflows wit_store) (tick_id wit_cron wit_catch_up t)" for t
  proof -
    have "map fst (workflows wit_store) = [''a'', ''b'', ''c'']" by code_simp
    then show ?thesis by (auto simp: hm_contains_iff hm_keys_def tick_id_def)
  qed
  with automatic_backfill_gap [OF c(4,3) v inj c(1), unfolded c(2), OF wit_cron_ok c(5,6), of "\<lambda>n. 0" 1000000011 wit_store]
  show ?thesis by (auto simp: tick_id_inj [OF inj])
qed

section \<open>The reconciler settles\<close>

lemma automatic_backfill_returns:
  assumes "\<forall>cron. parse_cron E (sch_schedule schedule) = Inr cron \<longrightarrow>
    (\<exists>occ. cron_ok (next_cron_instant E cron (sch_cron_timezone schedule)) occ)"
  shows "\<exists>runs g'. automatic_backfill R E clk hi schedule g = Some (runs, g')"
proof -
  have "backfill_ticks R E schedule clk lo hi g \<noteq> None" for lo
  proof (cases "parse_cron E (sch_schedule schedule)")
    case (Inr cron)
    then obtain occ where "cron_ok (next_cron_instant E cron (sch_cron_timezone schedule)) occ" using assms by blast
    from ticks_loop_exact [OF this, of hi "[]" lo] show ?thesis
      by (auto simp: backfill_ticks_def Inr cron_ticks_between_def)
  qed (simp add: backfill_ticks_def)
  then show ?thesis
    by (cases "sch_last_fired_at schedule") (auto simp: automatic_backfill_def Let_def, metis)
qed

lemma install_loop_spec:
  assumes "\<forall>(s :: workflow_schedule) cron. parse_cron E (sch_schedule s) = Inr cron \<longrightarrow>
      (\<exists>occ. cron_ok (next_cron_instant E cron (sch_cron_timezone s)) occ)"
    and "distinct (map sch_schedule_name desired)"
  shows "\<exists>inst' loops runs g'. install_loop R E clk now desired inst g = Some (inst', loops, runs, g') \<and>
    loops = filter (\<lambda>s. \<not> hm_contains inst (sch_schedule_name s)) desired \<and>
    (\<forall>k. hm_get inst' k = (case hm_get inst k of Some v \<Rightarrow> Some v
       | None \<Rightarrow> map_option sch_schedule_id (find (\<lambda>s. sch_schedule_name s = k) desired)))"
  using assms(2)
proof (induction desired arbitrary: inst g)
  case Nil
  then show ?case by (simp add: option.case_eq_if)
next
  case (Cons s ds)
  let ?n = "sch_schedule_name s"
  show ?case
  proof (cases "hm_contains inst ?n")
    case True
    obtain inst' loops runs g' where i: "install_loop R E clk now ds inst g = Some (inst', loops, runs, g')"
        "loops = filter (\<lambda>s. \<not> hm_contains inst (sch_schedule_name s)) ds"
        "\<And>k. hm_get inst' k = (case hm_get inst k of Some v \<Rightarrow> Some v
           | None \<Rightarrow> map_option sch_schedule_id (find (\<lambda>s. sch_schedule_name s = k) ds))"
      using Cons.IH [of inst g] Cons.prems by auto
    have "hm_get inst' k = (case hm_get inst k of Some v \<Rightarrow> Some v
        | None \<Rightarrow> map_option sch_schedule_id (find (\<lambda>s. sch_schedule_name s = k) (s # ds)))" for k
      using True i(3) [of k] by (auto simp: hm_contains_def split: option.splits)
    then show ?thesis using True i(1,2) by simp
  next
    case False
    obtain runs g1 where b: "automatic_backfill R E (clk ?n) (now ?n) s g = Some (runs, g1)"
      using automatic_backfill_returns [OF spec [OF assms(1), of s], of R "clk ?n" "now ?n" g] by (elim exE)
    obtain inst' loops runs' g' where i: "install_loop R E clk now ds (hm_insert ?n (sch_schedule_id s) inst) g1 =
        Some (inst', loops, runs', g')"
      "loops = filter (\<lambda>s'. \<not> hm_contains (hm_insert ?n (sch_schedule_id s) inst) (sch_schedule_name s')) ds"
      "\<forall>k. hm_get inst' k = (case hm_get (hm_insert ?n (sch_schedule_id s) inst) k of Some v \<Rightarrow> Some v
         | None \<Rightarrow> map_option sch_schedule_id (find (\<lambda>s. sch_schedule_name s = k) ds))"
      using Cons.IH [of "hm_insert ?n (sch_schedule_id s) inst" g1] Cons.prems by auto
    have "loops = filter (\<lambda>s'. \<not> hm_contains inst (sch_schedule_name s')) ds"
      unfolding i(2)
    proof (rule filter_cong [OF refl])
      fix x assume "x \<in> set ds"
      then have "sch_schedule_name x \<noteq> ?n" using Cons.prems by (metis distinct.simps(2) imageI list.map(2) set_map)
      then show "(\<not> hm_contains (hm_insert ?n (sch_schedule_id s) inst) (sch_schedule_name x)) =
          (\<not> hm_contains inst (sch_schedule_name x))" by (simp add: hm_contains_def)
    qed
    moreover have "hm_get inst' k = (case hm_get inst k of Some v \<Rightarrow> Some v
        | None \<Rightarrow> map_option sch_schedule_id (find (\<lambda>s. sch_schedule_name s = k) (s # ds)))" for k
      using False i(3) [rule_format, of k] by (auto simp: hm_contains_def split: option.splits)
    ultimately show ?thesis using False b i(1) by simp
  qed
qed

lemma hm_get_filter:
  "hm_wf m \<Longrightarrow> hm_get (filter P m) k = (case hm_get m k of Some v \<Rightarrow> if P (k, v) then Some v else None | None \<Rightarrow> None)"
proof (induction m)
  case (Cons x m)
  obtain a b where x: "x = (a, b)" by (cases x)
  have "hm_get m a = None" using Cons.prems by (simp add: x hm_wf_def hm_keys_def hm_get_def map_of_eq_None_iff)
  then show ?case using Cons by (auto simp: x hm_wf_def hm_keys_def hm_get_def split: option.splits)
qed (simp add: hm_get_def)

lemma still_desired_iff:
  assumes "distinct (map sch_schedule_name desired)" "s \<in> set desired"
  shows "still_desired desired (sch_schedule_name s, sid) \<longleftrightarrow> sid = sch_schedule_id s"
  using assms by (auto simp: still_desired_def list_ex_iff distinct_map dest: inj_onD)

text \<open>The schedules a pass lists.\<close>

lemma active_schedules:
  assumes "store_wf g"
  obtains persisted where
    "list_schedules (schedule_filter_default \<lparr> sf_statuses := [Active] \<rparr>) g = (Inr persisted, g)"
    "set persisted = {s. \<exists>k. hm_get (schedules g) k = Some s \<and> sch_status s = Active}"
    "distinct (map sch_schedule_name persisted)"
proof -
  let ?p = "sort_key sch_schedule_name (filter (schedule_matches (schedule_filter_default \<lparr> sf_statuses := [Active] \<rparr>))
    (hm_values (schedules g)))"
  have "map sch_schedule_name (hm_values (schedules g)) = hm_keys (schedules g)"
    using store_wfD(7) [OF assms] by (auto simp: hm_values_def hm_keys_def rows_keyed_def list_all_iff)
  then have "distinct (map sch_schedule_name (hm_values (schedules g)))"
    using store_wfD(6) [OF assms] by (simp add: hm_wf_def)
  then have "distinct (map sch_schedule_name ?p)" by (simp add: distinct_map inj_on_def)
  moreover have "set ?p = {s. \<exists>k. hm_get (schedules g) k = Some s \<and> sch_status s = Active}"
    using hm_values_iff [OF store_wfD(6) [OF assms]]
    by (auto simp: schedule_matches_def schedule_filter_default_def)
  ultimately show thesis using that [of ?p] by (simp add: list_schedules_def)
qed

lemma find_name:
  assumes "distinct (map sch_schedule_name desired)"
  shows "find (\<lambda>s. sch_schedule_name s = k) desired = Some s \<longleftrightarrow> s \<in> set desired \<and> sch_schedule_name s = k"
  using assms by (induction desired) auto

lemma installed_after:
  assumes "distinct (map sch_schedule_name desired)" "hm_wf inst"
    and "hm_get inst' k = (case hm_get (filter (still_desired desired) inst) k of Some v \<Rightarrow> Some v
       | None \<Rightarrow> map_option sch_schedule_id (find (\<lambda>s. sch_schedule_name s = k) desired))"
  shows "hm_get inst' k = Some sid \<longleftrightarrow> (\<exists>s \<in> set desired. sch_schedule_name s = k \<and> sch_schedule_id s = sid)"
proof (cases "\<exists>s \<in> set desired. sch_schedule_name s = k")
  case True
  then obtain s where s: "s \<in> set desired" "sch_schedule_name s = k" by blast
  then have "find (\<lambda>s. sch_schedule_name s = k) desired = Some s" by (simp add: find_name [OF assms(1)])
  moreover have d: "still_desired desired (k, v) \<longleftrightarrow> v = sch_schedule_id s" for v
    using still_desired_iff [OF assms(1) s(1)] s(2) by simp
  ultimately have "hm_get inst' k = Some (sch_schedule_id s)"
    by (simp add: assms(3) hm_get_filter [OF assms(2)] split: option.splits)
  then show ?thesis using d [of sid] by (auto simp: still_desired_def list_ex_iff)
next
  case False
  then have "find (\<lambda>s. sch_schedule_name s = k) desired = None" "\<And>v. \<not> still_desired desired (k, v)"
    by (auto simp: find_None_iff still_desired_def list_ex_iff)
  then show ?thesis using False by (auto simp: assms(3) hm_get_filter [OF assms(2)] split: option.splits)
qed

text \<open>
  C15. One pass of the reconciler returns and leaves exactly one firing loop per desired schedule: the
  desired schedules are the ACTIVE persisted ones and the declared ones whose name no ACTIVE persisted
  schedule has; afterwards each of them has an installed loop under its current id and nothing else is
  installed; the loops started are those of schedules that had none under this id, and the loops told
  to stop are those of schedules that are gone, paused or recreated.
\<close>

theorem reconciler_settles:
  assumes "rt_provider R = memory_provider from_ms" "store_wf g" "hm_wf inst"
    and "distinct (map sch_schedule_name macros)"
    and "\<forall>(s :: workflow_schedule) cron. parse_cron E (sch_schedule s) = Inr cron \<longrightarrow>
      (\<exists>occ. cron_ok (next_cron_instant E cron (sch_cron_timezone s)) occ)"
  shows "\<exists>desired inst' loops stopped runs g'.
    reconcile_pass R E clk now macros inst g = Some (inst', loops, stopped, runs, g') \<and>
    set desired = {s. \<exists>k. hm_get (schedules g) k = Some s \<and> sch_status s = Active} \<union>
      {m \<in> set macros. \<nexists>s k. hm_get (schedules g) k = Some s \<and> sch_status s = Active \<and>
         sch_schedule_name s = sch_schedule_name m} \<and>
    (\<forall>k sid. hm_get inst' k = Some sid \<longleftrightarrow>
       (\<exists>s \<in> set desired. sch_schedule_name s = k \<and> sch_schedule_id s = sid)) \<and>
    set loops = {s \<in> set desired. hm_get inst (sch_schedule_name s) \<noteq> Some (sch_schedule_id s)} \<and>
    set stopped = {k. \<exists>sid. hm_get inst k = Some sid \<and> hm_get inst' k \<noteq> Some sid}"
proof -
  obtain ps where ps: "list_schedules (schedule_filter_default \<lparr> sf_statuses := [Active] \<rparr>) g = (Inr ps, g)"
      "set ps = {s. \<exists>k. hm_get (schedules g) k = Some s \<and> sch_status s = Active}" "distinct (map sch_schedule_name ps)"
    by (rule active_schedules [OF assms(2)])
  define desired where "desired = desired_schedules ps macros"
  have dd: "distinct (map sch_schedule_name desired)"
    unfolding desired_def desired_schedules_def map_append distinct_append
    using ps(3) assms(4) by (intro conjI distinct_map_filter) (auto, metis imageI)
  have ds: "set desired = {s. \<exists>k. hm_get (schedules g) k = Some s \<and> sch_status s = Active} \<union>
      {m \<in> set macros. \<nexists>s k. hm_get (schedules g) k = Some s \<and> sch_status s = Active \<and>
         sch_schedule_name s = sch_schedule_name m}"
    by (auto simp: desired_def desired_schedules_def ps(2) image_iff)
  define kept where "kept = filter (still_desired desired) inst"
  have kept: "hm_get kept k = (case hm_get inst k of Some v \<Rightarrow> if still_desired desired (k, v) then Some v else None
      | None \<Rightarrow> None)" for k
    by (simp add: kept_def hm_get_filter [OF assms(3)])
  obtain inst' runs g' where i: "install_loop R E clk now desired kept g =
        Some (inst', filter (\<lambda>s. \<not> hm_contains kept (sch_schedule_name s)) desired, runs, g')"
      "\<And>k. hm_get inst' k = (case hm_get kept k of Some v \<Rightarrow> Some v
         | None \<Rightarrow> map_option sch_schedule_id (find (\<lambda>s. sch_schedule_name s = k) desired))"
    using install_loop_spec [OF assms(5) dd, of R clk now kept g] by auto
  let ?loops = "filter (\<lambda>s. \<not> hm_contains kept (sch_schedule_name s)) desired"
  let ?stopped = "map fst (filter (\<lambda>e. \<not> still_desired desired e) inst)"
  have p: "reconcile_pass R E clk now macros inst g = Some (inst', ?loops, ?stopped, runs, g')"
    by (simp add: reconcile_pass_def assms(1) memory_provider_def ps(1) desired_def [symmetric] kept_def [symmetric] i(1)
      Let_def)
  have g': "hm_get inst' k = Some sid \<longleftrightarrow> (\<exists>s \<in> set desired. sch_schedule_name s = k \<and> sch_schedule_id s = sid)" for k sid
    by (rule installed_after [OF dd assms(3) i(2) [unfolded kept_def]])
  have lo: "set ?loops = {s \<in> set desired. hm_get inst (sch_schedule_name s) \<noteq> Some (sch_schedule_id s)}"
  proof -
    have "hm_contains kept (sch_schedule_name s) \<longleftrightarrow> hm_get inst (sch_schedule_name s) = Some (sch_schedule_id s)"
      if "s \<in> set desired" for s
      by (simp add: hm_contains_def kept still_desired_iff [OF dd that] split: option.splits)
    then show ?thesis by auto
  qed
  have st: "set ?stopped = {k. \<exists>sid. hm_get inst k = Some sid \<and> hm_get inst' k \<noteq> Some sid}"
  proof -
    have "still_desired desired (k, sid) \<longleftrightarrow> hm_get inst' k = Some sid" for k sid
      unfolding g' by (auto simp: still_desired_def list_ex_iff)
    moreover have "set ?stopped = {k. \<exists>sid. (k, sid) \<in> set inst \<and> \<not> still_desired desired (k, sid)}" by force
    ultimately show ?thesis by (simp add: hm_in_iff [OF assms(3)])
  qed
  show ?thesis
    by (rule exI [of _ desired], rule exI [of _ inst'], rule exI [of _ ?loops], rule exI [of _ ?stopped],
        rule exI [of _ runs], rule exI [of _ g'], intro conjI allI) (rule p ds g' lo st)+
qed

theorem reconciler_settles_witness:
  "\<exists>inst' loops stopped runs g'.
     reconcile_pass wit_runtime wit_cron (\<lambda>k n. 0) (\<lambda>k. 0) [wit_schedule] [(''old'', ''x'')] inner_default =
       Some (inst', loops, stopped, runs, g') \<and> set loops = {wit_schedule} \<and> set stopped = {''old''} \<and>
     hm_get inst' ''s'' = Some (sch_schedule_id wit_schedule)"
proof -
  have "\<exists>occ. cron_ok (next_cron_instant wit_cron cron tz) occ" for cron tz
  proof (cases "\<exists>z. tz = Some z \<and> z \<noteq> ''UTC''")
    case True
    then have "next_cron_instant wit_cron cron tz = (\<lambda>t. None)"
      by (auto simp: next_cron_instant_def wit_cron_def)
    then show ?thesis by (intro exI [of _ "\<lambda>t. False"]) (simp add: cron_ok_def)
  next
    case False
    then have "next_cron_instant wit_cron cron tz = next_cron_instant wit_cron () None"
      by (auto simp: next_cron_instant_def wit_cron_def fun_eq_iff split: option.splits)
    then show ?thesis using wit_cron_ok by auto
  qed
  then have ok: "\<forall>(s :: workflow_schedule) cron. parse_cron wit_cron (sch_schedule s) = Inr cron \<longrightarrow>
      (\<exists>occ. cron_ok (next_cron_instant wit_cron cron (sch_cron_timezone s)) occ)" by blast
  let ?o = "[(''old'', ''x'')]"
  have c: "rt_provider wit_runtime = memory_provider wit_from_ms" "hm_wf ?o"
      "distinct (map sch_schedule_name [wit_schedule])" "schedules inner_default = []"
    by (simp_all add: wit_runtime_def hm_wf_def hm_keys_def inner_default_def)
  note R = reconciler_settles [OF c(1) store_wf_default(1) c(2,3) ok, of "\<lambda>k n. 0" "\<lambda>k. 0", unfolded c(4)]
  obtain desired inst' loops stopped runs g' where
      r: "reconcile_pass wit_runtime wit_cron (\<lambda>k n. 0) (\<lambda>k. 0) [wit_schedule] ?o inner_default =
        Some (inst', loops, stopped, runs, g')"
      "set desired = {s. \<exists>k. hm_get ([] :: (string, workflow_schedule) hashmap) k = Some s \<and> sch_status s = Active} \<union>
        {m \<in> set [wit_schedule]. \<nexists>s k. hm_get ([] :: (string, workflow_schedule) hashmap) k = Some s \<and> sch_status s = Active \<and>
          sch_schedule_name s = sch_schedule_name m}"
      "\<forall>k sid. hm_get inst' k = Some sid \<longleftrightarrow>
         (\<exists>s \<in> set desired. sch_schedule_name s = k \<and> sch_schedule_id s = sid)"
      "set loops = {s \<in> set desired. hm_get ?o (sch_schedule_name s) \<noteq> Some (sch_schedule_id s)}"
      "set stopped = {k. \<exists>sid. hm_get ?o k = Some sid \<and> hm_get inst' k \<noteq> Some sid}"
    using R by (elim exE conjE) (rule that)
  have d: "set desired = {wit_schedule}" using r(2) by (simp add: hm_get_def)
  have "set loops = {wit_schedule}" using r(4) by (auto simp: d wit_schedule_simps hm_get_def)
  moreover have "hm_get inst' ''old'' \<noteq> Some ''x''" using r(3) by (simp add: d wit_schedule_simps)
  then have "set stopped = {''old''}" using r(5) by (auto simp: hm_get_def split: if_splits)
  moreover have "hm_get inst' ''s'' = Some (sch_schedule_id wit_schedule)" using r(3) by (simp add: d wit_schedule_simps)
  ultimately show ?thesis using r(1) by simp
qed

end
