(* ===== verification/Handle.thy ===== *)
theory Handle
  imports Recovery
begin

text \<open>
  Workflow handles, \<open>src/src/handle.rs\<close>: reading the status row, awaiting the task a handle owns, and
  polling the row until it is terminal. What the owner of the task and an observer of the row are told
  about the same run is compared.
\<close>

section \<open>Results\<close>

definition handle_get_status :: "'s provider \<Rightarrow> string \<Rightarrow> ('s, workflow_status) op" where
  "handle_get_status P wid =
     and_then (pv_get_workflow_status P wid)
     (\<lambda>st. case st of Some w \<Rightarrow> ok w | None \<Rightarrow> fail (UnknownWorkflow wid))"

definition terminal_to_result :: "'a serde \<Rightarrow> string \<Rightarrow> workflow_status \<Rightarrow> 'a result" where
  "terminal_to_result d wid w =
     (if ws_status w = STATUS_CANCELLED then Inl (Cancelled wid)
      else if ws_status w = STATUS_MAX_RECOVERY_ATTEMPTS_EXCEEDED then Inl (MaxRecoveryAttemptsExceeded wid)
      else if ws_status w = STATUS_ERROR
      then Inl (case ws_error_info w of
             Some info \<Rightarrow> Portable info
           | None \<Rightarrow> app (unwrap_or (ws_error w) ''workflow failed''))
      else sd_from_value d (unwrap_or (ws_output w) JNull))"

text \<open>Awaiting the task: the result it returned, or the text of the join error.\<close>

definition join_result :: "'a serde \<Rightarrow> string + json result \<Rightarrow> 'a result" where
  "join_result d joined =
     (case joined of
        Inl e \<Rightarrow> Inl (app (''workflow task failed: '' @ e))
      | Inr (Inl e) \<Rightarrow> Inl e
      | Inr (Inr v) \<Rightarrow> sd_from_value d v)"

text \<open>Polling; \<open>env n\<close> is what the rest of the system does during the \<open>n\<close>-th sleep.\<close>

fun poll_result ::
    "'s provider \<Rightarrow> 'a serde \<Rightarrow> (nat \<Rightarrow> 's \<Rightarrow> 's) \<Rightarrow> string \<Rightarrow> nat \<Rightarrow> nat \<Rightarrow> 's \<Rightarrow> ('a result \<times> 's) option" where
  "poll_result P d env wid 0 n s = None"
| "poll_result P d env wid (Suc fuel) n s =
     (case handle_get_status P wid s of
        (Inr w, s1) \<Rightarrow>
          if is_terminal (ws_status w) then Some (terminal_to_result d wid w, s1)
          else poll_result P d env wid fuel (Suc n) (env n s1)
      | (Inl e, s1) \<Rightarrow>
          (case e of
             UnknownWorkflow _ \<Rightarrow> poll_result P d env wid fuel (Suc n) (env n s1)
           | _ \<Rightarrow> Some (Inl e, s1)))"

text \<open>A handle awaits its task if it still has it, which it can do once, and polls otherwise.\<close>

definition handle_result ::
    "'s provider \<Rightarrow> 'a serde \<Rightarrow> (nat \<Rightarrow> 's \<Rightarrow> 's) \<Rightarrow> string \<Rightarrow> (string + json result) option \<Rightarrow> nat \<Rightarrow> 's
       \<Rightarrow> ('a result \<times> 's) option" where
  "handle_result P d env wid owned fuel s =
     (case owned of
        Some joined \<Rightarrow> Some (join_result d joined, s)
      | None \<Rightarrow> poll_result P d env wid fuel 0 s)"

section \<open>Properties\<close>

definition finished :: "string \<Rightarrow> inner \<Rightarrow> bool" where
  "finished wid g \<longleftrightarrow> is_some_and (\<lambda>w. is_terminal (ws_status w)) (row_of wid g)"

lemma poll_mem:
  "poll_result (memory_provider from_ms) d env wid (Suc fuel) n g =
     (if finished wid g then Some (terminal_to_result d wid (the (row_of wid g)), g)
      else poll_result (memory_provider from_ms) d env wid fuel (Suc n) (env n g))"
  by (cases "row_of wid g")
     (simp_all add: handle_get_status_def and_then_def memory_provider_def get_workflow_status_def finished_def
       is_some_and_def)

lemma poll_until:
  assumes "\<forall>i < N. \<not> finished wid (traj env g (k + i))" "finished wid (traj env g (k + N))"
  shows "poll_result (memory_provider from_ms) d env wid (Suc N) k (traj env g k) =
    Some (terminal_to_result d wid (the (row_of wid (traj env g (k + N)))), traj env g (k + N))"
  using assms
proof (induction N arbitrary: k)
  case (Suc N)
  have "\<not> finished wid (traj env g k)" using Suc.prems(1) by (metis add_0_right zero_less_Suc)
  moreover have "poll_result (memory_provider from_ms) d env wid (Suc N) (Suc k) (traj env g (Suc k)) =
      Some (terminal_to_result d wid (the (row_of wid (traj env g (Suc k + N)))), traj env g (Suc k + N))"
    using Suc.prems by (intro Suc.IH) force+
  ultimately show ?case by (subst poll_mem) simp
qed (subst poll_mem, simp)

text \<open>
  C26. Waiting on a handle returns: if the workflow ever reaches a terminal status, also if it does not
  exist yet when the wait begins, polling returns after finitely many rounds, with the outcome recorded
  in the first terminal row it could see, and changes nothing.
\<close>

theorem poll_returns:
  assumes "finished wid (traj env g N)"
  shows "\<exists>M fuel row. M \<le> N \<and> \<not> (\<exists>i < M. finished wid (traj env g i)) \<and> row_of wid (traj env g M) = Some row \<and>
    is_terminal (ws_status row) \<and>
    handle_result (memory_provider from_ms) d env wid None fuel g =
      Some (terminal_to_result d wid row, traj env g M)"
proof -
  define M where "M = (LEAST i. finished wid (traj env g i))"
  have M: "finished wid (traj env g M)" "\<And>i. i < M \<Longrightarrow> \<not> finished wid (traj env g i)" "M \<le> N"
    unfolding M_def using assms by (auto intro: LeastI Least_le dest: not_less_Least)
  then obtain row where row: "row_of wid (traj env g M) = Some row" "is_terminal (ws_status row)"
    by (auto simp: finished_def is_some_and_def split: option.splits)
  have "poll_result (memory_provider from_ms) d env wid (Suc M) 0 g =
      Some (terminal_to_result d wid row, traj env g M)"
    using poll_until [of M wid env g 0 from_ms d] M row by simp
  then show ?thesis
    using M row by (intro exI [of _ M] exI [of _ "Suc M"] exI [of _ row]) (auto simp: handle_result_def)
qed

definition no_identity :: auth_context where
  "no_identity = \<lparr> ac_authenticated_user = None, ac_assumed_role = None, ac_authenticated_roles = [] \<rparr>"

definition wit_finishing :: "nat \<Rightarrow> inner \<Rightarrow> inner" where
  "wit_finishing n g =
     (if n = 1 then snd (set_workflow_status ''c'' STATUS_SUCCESS (Some (JInt 7)) None 5 g) else g)"

theorem poll_returns_witness:
  "\<exists>M fuel. M \<le> 2 \<and> handle_result (memory_provider wit_from_ms) json_serde wit_finishing ''c'' None fuel wit_store =
     Some (Inr (JInt 7), traj wit_finishing wit_store M)"
proof -
  have f: "finished ''c'' (traj wit_finishing wit_store 2)" "\<not> finished ''c'' (traj wit_finishing wit_store 1)"
      "\<not> finished ''c'' (traj wit_finishing wit_store 0)"
      "map_option (terminal_to_result json_serde ''c'') (row_of ''c'' (traj wit_finishing wit_store 2)) = Some (Inr (JInt 7))"
    by code_simp+
  from poll_returns [OF f(1), of wit_from_ms json_serde] obtain M fuel row where
    m: "M \<le> 2" "row_of ''c'' (traj wit_finishing wit_store M) = Some row" "is_terminal (ws_status row)"
      "handle_result (memory_provider wit_from_ms) json_serde wit_finishing ''c'' None fuel wit_store =
         Some (terminal_to_result json_serde ''c'' row, traj wit_finishing wit_store M)"
    by blast
  have "finished ''c'' (traj wit_finishing wit_store M)" using m(2,3) by (simp add: finished_def is_some_and_def)
  then have "M \<noteq> 0" "M \<noteq> 1" using f(2,3) by metis+
  then have "M = 2" using m(1) by simp
  then show ?thesis using m f(4) by auto
qed

text \<open>
  C27. The owner of the task and an observer of the status row are told the same about a run: the
  decoded output on success, \<open>Cancelled\<close> when it was cancelled, and the error when it is an application
  error. They are told different things in two cases: a run that overran its deadline is \<open>Timeout\<close> to
  the owner and \<open>Cancelled\<close> to everybody else, and any other error is read back as an application
  error with its text. When the body panicked no terminal status is written by the run.
\<close>

theorem clones_agree:
  assumes "cx_provider C = memory_provider from_ms"
    and "run_caught C timed (h wid auth input) dl (s \<lparr> cs_seq := 0 \<rparr>) = (out, s1)"
    and "row_of wid (cs_store s1) = Some row" "ws_error_info row = None"
  shows "\<exists>r s2 w. run_to_completion C timed h wid input dl auth s = (r, s2) \<and> row_of wid (cs_store s2) = Some w \<and>
    (case out of
       None \<Rightarrow> join_result d (Inr r) = Inl Timeout \<and> terminal_to_result d wid w = Inl (Cancelled wid)
     | Some (Panicked p) \<Rightarrow> w = row
     | Some (Returned (Inr v)) \<Rightarrow> is_terminal (ws_status w) \<and> terminal_to_result d wid w = join_result d (Inr r)
     | Some (Returned (Inl e)) \<Rightarrow> is_terminal (ws_status w) \<and>
         terminal_to_result d wid w =
           (if ws_status w = STATUS_CANCELLED \<or> plain_error e then join_result d (Inr r) else Inl (app (to_string e))))"
proof -
  note st = set_status_mem [OF assms(1,3)]
  have en: "encode_error (cx_codec C) (pv_serializer (cx_provider C)) e = to_string e" for e
    using assms(1) by (simp add: encode_error_def memory_provider_def)
  have info: "ws_error_info (status_transition x o' e now row) = None" for x o' e now
    using assms(4) by (simp add: status_transition_def Let_def split: option.splits)
  note defs = run_to_completion_def assms(2) st and_then_def update_row_get assms(3) terminal_to_result_def join_result_def
    is_terminal_def info
  show ?thesis
  proof (cases out)
    case None
    then show ?thesis by (simp add: defs)
  next
    case (Some b)
    show ?thesis
    proof (cases b)
      case (Panicked p)
      then show ?thesis by (simp add: defs Some)
    next
      case (Returned r)
      show ?thesis
      proof (cases r)
        case (Inr v)
        then show ?thesis
          by (cases "ws_status row = STATUS_CANCELLED") (simp_all add: defs Some Returned status_defs)
      next
        case (Inl e)
        show ?thesis
        proof (cases "\<exists>i. e = Cancelled i")
          case True
          then obtain i where i: "e = Cancelled i" by blast
          show ?thesis
            by (intro exI [of _ "Inl (Cancelled wid)"] exI [of _ "snd (run_to_completion C timed h wid input dl auth s)"]
                exI [of _ "status_transition STATUS_CANCELLED None (Some ''cancelled'') (cx_clock C (cs_ticks s1)) row"])
               (simp add: defs Some Returned Inl i)
        next
          case False
          show ?thesis
            using run_to_completion_error
              [of C timed h wid auth input, OF assms(2) [unfolded Some Returned Inl] False] assms(3)
            by (cases "ws_status row = STATUS_CANCELLED")
               (simp_all add: Some Returned Inl st and_then_def en update_row_get terminal_to_result_def join_result_def
                 is_terminal_def info plain_error_def status_defs)
        qed
      qed
    qed
  qed
qed

theorem clones_agree_witness:
  "\<exists>r s2 w. run_to_completion wit_ctx wit_timed wit_handler ''c'' (JInt 3) (Some 0) no_identity (wit_state wit_store) = (r, s2) \<and>
     row_of ''c'' (cs_store s2) = Some w \<and> join_result json_serde (Inr r) = Inl Timeout \<and>
     terminal_to_result json_serde ''c'' w = Inl (Cancelled ''c'')"
proof -
  let ?s1 = "wit_state wit_store \<lparr> cs_seq := 0, cs_ticks := 1 \<rparr>"
  have "i64_wrap 0 = 0" by code_simp
  then have c: "run_caught wit_ctx wit_timed (wit_handler ''c'' no_identity (JInt 3)) (Some 0)
      (wit_state wit_store \<lparr> cs_seq := 0 \<rparr>) = (None, ?s1)"
    by (simp add: run_caught_def wit_timed_def wit_state_def timestamp_millis_def)
  have "map_option ws_error_info (row_of ''c'' wit_store) = Some None" by code_simp
  then obtain row where "row_of ''c'' (cs_store ?s1) = Some row" "ws_error_info row = None"
    by (auto simp: wit_state_def)
  from clones_agree [of wit_ctx wit_from_ms wit_timed wit_handler "''c''", OF _ c this] show ?thesis by auto
qed

end
