(* ===== verification/Engine_Admin.thy ===== *)
theory Engine_Admin
  imports Scheduler Handle
begin

text \<open>
  The rest of the engine's interface in \<open>src/src/engine.rs\<close>: registration, the life cycle of the
  process (launch, deactivate, shutdown), health and metrics, and the operations on workflows from
  outside: messages and events, cancellation, resumption, forks and recovery.
\<close>

section \<open>Registration\<close>

text \<open>The constructor without a builder: later registrations replace earlier ones.\<close>

definition with_config :: "'h \<Rightarrow> 'h workflow_registration list \<Rightarrow> 'h registry" where
  "with_config debouncer auto_regs =
     \<lparr> rg_workflows = hm_insert DEBOUNCER_WF debouncer (fold (\<lambda>r. hm_insert (wr_name r) (wr_handler r)) auto_regs []),
       rg_queues = hm_insert INTERNAL_QUEUE internal_queue [],
       rg_scheduled = List.map_filter (\<lambda>r. map_option (Pair (wr_name r)) (wr_schedule r)) auto_regs \<rparr>"

definition register :: "string \<Rightarrow> 'h \<Rightarrow> 'h registry \<Rightarrow> 'h registry" where
  "register name h g = g \<lparr> rg_workflows := hm_insert name h (rg_workflows g) \<rparr>"

definition register_configured :: "string \<Rightarrow> string \<Rightarrow> 'h \<Rightarrow> 'h registry \<Rightarrow> 'h registry" where
  "register_configured name config_name h g =
     g \<lparr> rg_workflows := hm_insert (registry_key name (Some config_name)) h (rg_workflows g) \<rparr>"

definition register_queue :: "workflow_queue \<Rightarrow> 'h registry \<Rightarrow> 'h registry" where
  "register_queue q g = g \<lparr> rg_queues := hm_insert (q_name q) q (rg_queues g) \<rparr>"

definition list_registered_queues :: "'h registry \<Rightarrow> workflow_queue list" where
  "list_registered_queues g =
     sort_key q_name (filter (\<lambda>q. q_name q \<noteq> INTERNAL_QUEUE) (hm_values (rg_queues g)))"

text \<open>A registered workflow with its cron spec; the last spec of a name counts.\<close>

definition list_registered_workflows :: "'h registry \<Rightarrow> (string \<times> string option) list" where
  "list_registered_workflows g =
     sort_key fst (map (\<lambda>name. (name, map_of (rev (rg_scheduled g)) name)) (hm_keys (rg_workflows g)))"

definition list_scheduled_workflows :: "'h registry \<Rightarrow> (string \<times> string option) list" where
  "list_scheduled_workflows g = filter (\<lambda>(name, spec). spec \<noteq> None) (list_registered_workflows g)"

section \<open>The life cycle of a process\<close>

text \<open>
  \<open>es_dispatchers\<close> are the background tasks of the process, by whether they have finished. A launch
  says which queues it dispatches, which workflows it recovers and whether a reconciler was started.
\<close>

record engine_state =
  es_cancelled :: bool
  es_deactivated :: bool
  es_dispatchers :: "bool list"

record launch_result =
  lr_queues :: "string list"
  lr_recover :: "workflow_status list"
  lr_reconciler :: bool

definition update_existing_queues :: "('s, 'h) runtime \<Rightarrow> 's \<Rightarrow> bool \<times> 's" where
  "update_existing_queues R s =
     (case pv_get_latest_application_version (rt_provider R) s of
        (Inr (Some latest), s1) \<Rightarrow> (vi_version_name latest = rt_app_version R, s1)
      | (Inr None, s1) \<Rightarrow> (True, s1)
      | (Inl e, s1) \<Rightarrow> (False, s1))"

definition persist_queues :: "('s, 'h) runtime \<Rightarrow> bool \<Rightarrow> 's \<Rightarrow> 's" where
  "persist_queues R update_existing s =
     fold (\<lambda>q s. if q_name q = INTERNAL_QUEUE then s
                 else snd (pv_upsert_queue (rt_provider R) q update_existing s)) (hm_values (rt_queues R)) s"

definition listens :: "string list option \<Rightarrow> workflow_queue \<Rightarrow> bool" where
  "listens listen_filter q \<longleftrightarrow>
     is_none_or (\<lambda>names. q_name q = INTERNAL_QUEUE \<or> q_name q \<in> set names) listen_filter"

definition launch ::
    "('s, 'h) runtime \<Rightarrow> string list option \<Rightarrow> bool \<Rightarrow> string \<Rightarrow> datetime \<Rightarrow> engine_state \<Rightarrow> 's
       \<Rightarrow> launch_result option result \<times> engine_state \<times> 's" where
  "launch R listen_filter recover_on_launch fresh now es s =
     (if es_deactivated es then (Inr None, es, s)
      else
        (let es1 = es \<lparr> es_cancelled := False \<rparr>;
             s1 = snd (pv_create_application_version (rt_provider R) (rt_app_version R) fresh now s)
         in case update_existing_queues R s1 of
              (update_existing, s2) \<Rightarrow>
                (let s3 = persist_queues R update_existing s2 in
                 case (if recover_on_launch then list_pending_workflows R [rt_executor_id R] s3 else (Inr [], s3)) of
                   (Inl e, s4) \<Rightarrow> (Inl e, es1, s4)
                 | (Inr to_recover, s4) \<Rightarrow>
                     (let queues = map q_name (filter (listens listen_filter) (hm_values (rt_queues R))) in
                      (Inr (Some \<lparr> lr_queues = queues, lr_recover = to_recover, lr_reconciler = True \<rparr>),
                       es1 \<lparr> es_dispatchers := es_dispatchers es1 @ replicate (Suc (length queues)) False \<rparr>, s4)))))"

definition deactivate :: "engine_state \<Rightarrow> engine_state" where
  "deactivate es = (if es_deactivated es then es else es \<lparr> es_deactivated := True, es_dispatchers := [] \<rparr>)"

definition shutdown :: "engine_state \<Rightarrow> engine_state" where
  "shutdown es = es \<lparr> es_cancelled := True, es_dispatchers := [] \<rparr>"

definition dispatch_state :: "(nat \<Rightarrow> string) \<Rightarrow> engine_state \<Rightarrow> string option" where
  "dispatch_state show_nat es =
     (if es_deactivated es then Some ''deactivated: this process stopped claiming new work''
      else if es_cancelled es then Some ''shut down''
      else if es_dispatchers es = [] then Some ''not launched''
      else
        (let dead = length (filter id (es_dispatchers es)) in
         if dead > 0
         then Some (show_nat dead @ '' of '' @ show_nat (length (es_dispatchers es)) @
           '' dispatcher tasks have exited unexpectedly'')
         else None))"

record health_report =
  hr_database :: "string option"
  hr_dispatch :: "string option"

definition is_ready :: "health_report \<Rightarrow> bool" where
  "is_ready h \<longleftrightarrow> hr_database h = None \<and> hr_dispatch h = None"

definition health :: "(nat \<Rightarrow> string) \<Rightarrow> unit result \<Rightarrow> engine_state \<Rightarrow> health_report" where
  "health show_nat ping es =
     \<lparr> hr_database = (case ping of Inl e \<Rightarrow> Some (to_string e) | Inr _ \<Rightarrow> None),
       hr_dispatch = dispatch_state show_nat es \<rparr>"

section \<open>Metrics\<close>

definition enqueued_query :: workflow_aggregate_query where
  "enqueued_query =
     \<lparr> wq_by_status = False, wq_by_name = False, wq_by_queue_name = True, wq_by_executor_id = False,
       wq_by_app_version = False, wq_select_count = True, wq_select_min_created_at = False,
       wq_select_max_queue_wait_ms = False, wq_select_max_total_latency_ms = False, wq_time_bucket_ms = None,
       wq_status = [STATUS_ENQUEUED], wq_name = [], wq_app_version = [], wq_executor_ids = [], wq_queue_names = [],
       wq_workflow_id_prefix = None, wq_start_time_ms = None, wq_end_time_ms = None, wq_completed_after_ms = None,
       wq_completed_before_ms = None, wq_dequeued_after_ms = None, wq_dequeued_before_ms = None, wq_limit = None \<rparr>"

definition add_depth :: "workflow_aggregate \<Rightarrow> (string, int) hashmap \<Rightarrow> (string, int) hashmap" where
  "add_depth row m =
     (case (hm_get (wa_group row) ''queue_name'', wa_count row) of
        (Some (Some queue), Some count) \<Rightarrow> hm_insert queue count m
      | _ \<Rightarrow> m)"

record engine_metrics =
  em_workflows_in_flight :: nat
  em_queue_depth :: "(string, int) hashmap"
  em_workflows_recovered_total :: nat
  em_step_retries_total :: nat
  em_dead_lettered_total :: nat
  em_dequeue_errors_total :: nat

definition metrics :: "('s, 'h) runtime \<Rightarrow> nat \<Rightarrow> nat \<Rightarrow> engine_counters \<Rightarrow> ('s, engine_metrics) op" where
  "metrics R in_flight step_retries ct =
     and_then (pv_get_workflow_aggregates (rt_provider R) enqueued_query)
     (\<lambda>rows. ok
        \<lparr> em_workflows_in_flight = in_flight,
          em_queue_depth = fold add_depth rows (map (\<lambda>q. (q, 0)) (hm_keys (rt_queues R))),
          em_workflows_recovered_total = ct_workflows_recovered ct, em_step_retries_total = step_retries,
          em_dead_lettered_total = ct_dead_lettered ct, em_dequeue_errors_total = ct_dequeue_errors ct \<rparr>)"

section \<open>Operations from outside\<close>

definition engine_send ::
    "('s, 'h) runtime \<Rightarrow> string \<Rightarrow> json result \<Rightarrow> string \<Rightarrow> string option \<Rightarrow> string \<Rightarrow> datetime \<Rightarrow> ('s, unit) op" where
  "engine_send R destination_id message topic idempotency_key fresh now =
     (case message of
        Inl e \<Rightarrow> fail e
      | Inr m \<Rightarrow> pv_insert_notification (rt_provider R) destination_id topic m idempotency_key fresh now)"

text \<open>Polling an event: \<open>late n\<close> is whether the deadline has passed at the \<open>n\<close>-th look.\<close>

fun engine_get_event ::
    "('s, 'h) runtime \<Rightarrow> 'a serde \<Rightarrow> (nat \<Rightarrow> 's \<Rightarrow> 's) \<Rightarrow> (nat \<Rightarrow> bool) \<Rightarrow> string \<Rightarrow> string \<Rightarrow> nat \<Rightarrow> nat \<Rightarrow> 's
       \<Rightarrow> ('a option result \<times> 's) option" where
  "engine_get_event R d env late target key 0 n s = None"
| "engine_get_event R d env late target key (Suc fuel) n s =
     (case pv_get_event_value (rt_provider R) target key s of
        (Inl e, s1) \<Rightarrow> Some (Inl e, s1)
      | (Inr (Some v), s1) \<Rightarrow> Some (map_sum id Some (sd_from_value d v), s1)
      | (Inr None, s1) \<Rightarrow>
          if late n then Some (Inr None, s1)
          else engine_get_event R d env late target key fuel (Suc n) (env n s1))"

definition retrieve_workflow :: "('s, 'h) runtime \<Rightarrow> string \<Rightarrow> ('s, 'h handle) op" where
  "retrieve_workflow R wid =
     and_then (pv_get_workflow_status (rt_provider R) wid)
     (\<lambda>st. case st of None \<Rightarrow> fail (UnknownWorkflow wid) | Some _ \<Rightarrow> ok (Polling wid))"

definition engine_workflow_aggregates ::
    "('s, 'h) runtime \<Rightarrow> workflow_aggregate_query \<Rightarrow> ('s, workflow_aggregate list) op" where
  "engine_workflow_aggregates R q =
     (if wq_is_empty q then fail (app ''get_workflow_aggregates requires at least one grouping dimension'')
      else if wq_no_select q then fail (app ''get_workflow_aggregates requires at least one selected aggregate'')
      else pv_get_workflow_aggregates (rt_provider R) q)"

definition engine_step_aggregates :: "('s, 'h) runtime \<Rightarrow> step_aggregate_query \<Rightarrow> ('s, step_aggregate list) op" where
  "engine_step_aggregates R q =
     (if sq_no_grouping q then fail (app ''get_step_aggregates requires at least one grouping dimension'')
      else if sq_no_select q then fail (app ''get_step_aggregates requires at least one selected aggregate'')
      else pv_get_step_aggregates (rt_provider R) q)"

definition cancel_all_before :: "('s, 'h) runtime \<Rightarrow> int \<Rightarrow> datetime \<Rightarrow> ('s, nat) op" where
  "cancel_all_before R cutoff_epoch_ms now =
     and_then (pv_list_workflows (rt_provider R) (list_filter_default
       \<lparr> lf_status := [STATUS_PENDING, STATUS_ENQUEUED, STATUS_DELAYED], lf_end_time_ms := Some cutoff_epoch_ms,
         lf_load_input := False, lf_load_output := False \<rparr>))
     (\<lambda>ws. let ids = map ws_id ws in
        if ids = [] then ok 0
        else and_then (pv_cancel_workflows (rt_provider R) ids now) (\<lambda>_. ok (length ids)))"

definition resume_workflow_on ::
    "('s, 'h) runtime \<Rightarrow> string \<Rightarrow> string \<Rightarrow> datetime \<Rightarrow> datetime \<Rightarrow> ('s, 'h handle) op" where
  "resume_workflow_on R wid queue now now' =
     and_then (pv_resume_workflow (rt_provider R) wid now)
     (\<lambda>resumed.
        if resumed then and_then (pv_enqueue_existing (rt_provider R) wid queue now') (\<lambda>_. ok (Polling wid))
        else and_then (pv_get_workflow_status (rt_provider R) wid)
          (\<lambda>st. if st = None then fail (nonexistent_workflow wid) else ok (Polling wid)))"

fun enqueue_all :: "'s provider \<Rightarrow> string \<Rightarrow> (string \<Rightarrow> datetime) \<Rightarrow> string list \<Rightarrow> ('s, unit) op" where
  "enqueue_all P queue clk [] = ok ()"
| "enqueue_all P queue clk (wid # ids) =
     and_then (pv_enqueue_existing P wid queue (clk wid)) (\<lambda>_. enqueue_all P queue clk ids)"

definition resume_workflows_on ::
    "('s, 'h) runtime \<Rightarrow> string list \<Rightarrow> string \<Rightarrow> datetime \<Rightarrow> (string \<Rightarrow> datetime) \<Rightarrow> ('s, 'h handle list) op" where
  "resume_workflows_on R ids queue now clk =
     and_then (pv_resume_workflows (rt_provider R) ids now)
     (\<lambda>resumed. and_then (enqueue_all (rt_provider R) queue clk resumed)
     (\<lambda>_. and_then (pv_list_workflows (rt_provider R) (list_filter_default \<lparr> lf_workflow_ids := ids \<rparr>))
     (\<lambda>ws. ok (map Polling (filter (\<lambda>i. i \<in> set (map ws_id ws)) ids)))))"

definition engine_set_workflow_delay :: "('s, 'h) runtime \<Rightarrow> string \<Rightarrow> duration \<Rightarrow> datetime \<Rightarrow> datetime \<Rightarrow> ('s, bool) op" where
  "engine_set_workflow_delay R wid delay now now' =
     pv_set_workflow_delay (rt_provider R) wid (i64_wrap (timestamp_millis now + as_millis_i64 delay)) now'"

definition set_workflow_delay_until :: "('s, 'h) runtime \<Rightarrow> string \<Rightarrow> datetime \<Rightarrow> datetime \<Rightarrow> ('s, bool) op" where
  "set_workflow_delay_until R wid at now = pv_set_workflow_delay (rt_provider R) wid (timestamp_millis at) now"

definition engine_fork_workflow ::
    "('s, 'h) runtime \<Rightarrow> string \<Rightarrow> int \<Rightarrow> workflow_options \<Rightarrow> string \<Rightarrow> datetime \<Rightarrow> ('s, 'h handle) op" where
  "engine_fork_workflow R original_id start_step opts fresh now =
     (if wo_partition_key opts \<noteq> None \<and> wo_queue opts = None
      then fail (app ''a queue partition key requires a queue name'')
      else and_then (pv_fork_workflow (rt_provider R)
             \<lparr> fp_original_id = original_id, fp_new_id = resolve_id opts fresh, fp_start_step = start_step,
               fp_app_version = (case wo_app_version opts of Some v \<Rightarrow> if v \<noteq> [] then Some v else None | None \<Rightarrow> None),
               fp_queue_name = unwrap_or (wo_queue opts) INTERNAL_QUEUE, fp_partition_key = wo_partition_key opts \<rparr> now)
           (\<lambda>_. ok (Polling (resolve_id opts fresh))))"

definition recover ::
    "('s, ('s, 'x) wf_fn) runtime \<Rightarrow> 's ctx_env \<Rightarrow> ('s, 'x) timed \<Rightarrow> int \<Rightarrow> (nat \<Rightarrow> bool) \<Rightarrow> engine_counters
       \<Rightarrow> ('s, 'x) ctx_state \<Rightarrow> nat result \<times> engine_counters \<times> ('s, 'x) ctx_state" where
  "recover R C timed mx stop ct s =
     (case recover_pending_workflows R C timed mx [] stop ct s of
        (r, ct', s') \<Rightarrow> (map_sum id length r, ct', s'))"

section \<open>Registration is strict\<close>

lemma insert_strict_ok:
  "distinct (map key vs) \<Longrightarrow> \<forall>v \<in> set vs. \<not> hm_contains m (key v) \<Longrightarrow>
   \<exists>m'. insert_strict key val vs m = Inr m' \<and>
     (\<forall>v \<in> set vs. hm_get m' (key v) = Some (val v)) \<and> (\<forall>k. k \<notin> key ` set vs \<longrightarrow> hm_get m' k = hm_get m k)"
proof (induction vs arbitrary: m)
  case (Cons v vs)
  let ?m = "hm_insert (key v) (val v) m"
  have "distinct (map key vs)" "\<forall>w \<in> set vs. \<not> hm_contains ?m (key w)" "key v \<notin> key ` set vs"
    using Cons.prems by (auto simp: hm_contains_def image_iff)
  with Cons.IH [of ?m] obtain m' where m': "insert_strict key val vs ?m = Inr m'"
      "\<forall>w \<in> set vs. hm_get m' (key w) = Some (val w)" "\<forall>k. k \<notin> key ` set vs \<longrightarrow> hm_get m' k = hm_get ?m k"
    by blast
  then show ?case using Cons.prems(2) \<open>key v \<notin> key ` set vs\<close> by simp
qed simp

lemma insert_strict_conflict:
  "\<not> (distinct (map key vs) \<and> (\<forall>v \<in> set vs. \<not> hm_contains m (key v))) \<Longrightarrow>
   \<exists>name. insert_strict key val vs m = Inl (conflicting_registration name) \<and> name \<in> set (map key vs) \<and>
     (hm_contains m name \<or> count_list (map key vs) name > 1)"
proof (induction vs arbitrary: m)
  case (Cons v vs)
  show ?case
  proof (cases "hm_contains m (key v)")
    case False
    let ?m = "hm_insert (key v) (val v) m"
    have c: "hm_contains ?m k \<longleftrightarrow> k = key v \<or> hm_contains m k" for k by (simp add: hm_contains_def)
    have "\<not> (distinct (map key vs) \<and> (\<forall>w \<in> set vs. \<not> hm_contains ?m (key w)))"
      using Cons.prems False by (auto simp: c)
    from Cons.IH [OF this] obtain name where n: "insert_strict key val vs ?m = Inl (conflicting_registration name)"
        "name \<in> set (map key vs)" "hm_contains ?m name \<or> count_list (map key vs) name > 1" by blast
    have "count_list (map key vs) name > 0" using n(2) by (metis count_list_0_iff gr0I)
    then show ?thesis using n False by (intro exI [of _ name]) (auto simp: c)
  qed auto
qed simp

lemma insert_strict_cases:
  obtains (accepted) m' where "insert_strict key val vs m = Inr m'" "distinct (map key vs)"
      "\<forall>v \<in> set vs. \<not> hm_contains m (key v)" "\<forall>v \<in> set vs. hm_get m' (key v) = Some (val v)"
      "\<forall>k. k \<notin> key ` set vs \<longrightarrow> hm_get m' k = hm_get m k"
      "\<forall>k. hm_contains m' k \<longleftrightarrow> hm_contains m k \<or> k \<in> key ` set vs"
  | (conflict) name where "insert_strict key val vs m = Inl (conflicting_registration name)" "name \<in> set (map key vs)"
      "hm_contains m name \<or> count_list (map key vs) name > 1"
proof (cases "distinct (map key vs) \<and> (\<forall>v \<in> set vs. \<not> hm_contains m (key v))")
  case True
  then obtain m' where m': "insert_strict key val vs m = Inr m'" "\<forall>v \<in> set vs. hm_get m' (key v) = Some (val v)"
      "\<forall>k. k \<notin> key ` set vs \<longrightarrow> hm_get m' k = hm_get m k"
    using insert_strict_ok [of key vs m val] by blast
  have "hm_contains m' k \<longleftrightarrow> hm_contains m k \<or> k \<in> key ` set vs" for k
    by (cases "k \<in> key ` set vs") (use m'(2,3) in \<open>auto simp: hm_contains_def\<close>)
  with accepted [of m'] m' True show thesis by blast
next
  case False
  from insert_strict_conflict [OF this, of val] conflict show thesis by blast
qed

lemma count_list_pos: "x \<in> set xs \<Longrightarrow> 0 < count_list xs x"
  by (metis count_list_0_iff gr0I)

lemma count_list_twice: "1 < count_list xs x \<Longrightarrow> \<not> distinct xs"
proof (induction xs)
  case (Cons y ys)
  show ?case by (cases "y = x") (use Cons count_list_0_iff [of ys x] in auto)
qed simp

text \<open>The three strict insertions of the builder, over any maps holding the reserved names.\<close>

definition merge ::
    "(string, 'h) hashmap \<Rightarrow> (string, workflow_queue) hashmap \<Rightarrow> 'h workflow_registration list \<Rightarrow> (string \<times> 'h) list
       \<Rightarrow> workflow_queue list \<Rightarrow> ((string, 'h) hashmap \<times> (string, workflow_queue) hashmap) result" where
  "merge m0 q0 auto_regs explicit qs =
     (case insert_strict wr_name wr_handler auto_regs m0 of
        Inl e \<Rightarrow> Inl e
      | Inr m1 \<Rightarrow>
          (case insert_strict fst snd explicit m1 of
             Inl e \<Rightarrow> Inl e
           | Inr m2 \<Rightarrow> (case insert_strict q_name id qs q0 of Inl e \<Rightarrow> Inl e | Inr q \<Rightarrow> Inr (m2, q))))"

lemma build_merge:
  "build debouncer auto_regs explicit qs =
     map_sum id (\<lambda>(m, q). \<lparr> rg_workflows = m, rg_queues = q,
       rg_scheduled = List.map_filter (\<lambda>r. map_option (Pair (wr_name r)) (wr_schedule r)) auto_regs \<rparr>)
       (merge (hm_insert DEBOUNCER_WF debouncer []) (hm_insert INTERNAL_QUEUE internal_queue []) auto_regs explicit qs)"
  by (simp add: build_def merge_def split: sum.splits)

lemma merge_conflicts:
  assumes "merge m0 q0 auto_regs explicit qs = Inl e"
    and "\<forall>k. hm_contains m0 k \<longleftrightarrow> k = a" "\<forall>k. hm_contains q0 k \<longleftrightarrow> k = b"
  shows "\<exists>name. e = conflicting_registration name \<and>
    (count_list (a # map wr_name auto_regs @ map fst explicit) name > 1 \<or> count_list (b # map q_name qs) name > 1)"
proof (cases rule: insert_strict_cases [of wr_name wr_handler auto_regs m0])
  case (conflict name)
  have "e = conflicting_registration name" using assms(1) conflict(1) by (simp add: merge_def)
  moreover have "hm_contains m0 name \<Longrightarrow> name = a" using assms(2) by blast
  then have "count_list (a # map wr_name auto_regs @ map fst explicit) name > 1"
    using conflict(3) count_list_pos [OF conflict(2)] by (cases "hm_contains m0 name") simp_all
  ultimately show ?thesis by blast
next
  case (accepted m1)
  note m1 = accepted
  show ?thesis
  proof (cases rule: insert_strict_cases [of fst snd explicit m1])
    case (conflict name)
    have "hm_contains m1 name \<Longrightarrow> name \<noteq> a \<Longrightarrow> 0 < count_list (map wr_name auto_regs) name"
      using m1(6) assms(2) count_list_pos [of name "map wr_name auto_regs"] by simp
    moreover have "e = conflicting_registration name" using assms(1) m1(1) conflict(1) by (simp add: merge_def)
    moreover have "count_list (a # map wr_name auto_regs @ map fst explicit) name > 1"
      using conflict(3) count_list_pos [OF conflict(2)] calculation(1)
      by (cases "hm_contains m1 name"; cases "name = a") simp_all
    ultimately show ?thesis by blast
  next
    case (accepted m2)
    show ?thesis
    proof (cases rule: insert_strict_cases [of q_name id qs q0])
      case (conflict name)
      have "e = conflicting_registration name" using assms(1) m1(1) accepted(1) conflict(1) by (simp add: merge_def)
      moreover have "hm_contains q0 name \<Longrightarrow> name = b" using assms(3) by blast
      then have "count_list (b # map q_name qs) name > 1"
        using conflict(3) count_list_pos [OF conflict(2)] by (cases "hm_contains q0 name") simp_all
      ultimately show ?thesis by blast
    qed (use assms(1) m1(1) accepted(1) in \<open>simp add: merge_def\<close>)
  qed
qed

lemma merge_accepts:
  assumes "merge m0 q0 auto_regs explicit qs = Inr (m, q)"
    and "\<forall>k. hm_get m0 k = (if k = a then Some x else None)" "\<forall>k. hm_get q0 k = (if k = b then Some y else None)"
  shows "distinct (a # map wr_name auto_regs @ map fst explicit) \<and> distinct (b # map q_name qs) \<and>
    hm_get m a = Some x \<and> (\<forall>r \<in> set auto_regs. hm_get m (wr_name r) = Some (wr_handler r)) \<and>
    (\<forall>e \<in> set explicit. hm_get m (fst e) = Some (snd e)) \<and>
    (\<forall>k. k \<notin> set (a # map wr_name auto_regs @ map fst explicit) \<longrightarrow> hm_get m k = None) \<and>
    hm_get q b = Some y \<and> (\<forall>w \<in> set qs. hm_get q (q_name w) = Some w)"
proof -
  have c: "\<forall>k. hm_contains m0 k \<longleftrightarrow> k = a" "\<forall>k. hm_contains q0 k \<longleftrightarrow> k = b"
    using assms(2,3) by (simp_all add: hm_contains_def)
  show ?thesis
  proof (cases rule: insert_strict_cases [of wr_name wr_handler auto_regs m0])
    case (accepted m1)
    note m1 = accepted
    show ?thesis
    proof (cases rule: insert_strict_cases [of fst snd explicit m1])
      case (accepted m2)
      note m2 = accepted
      show ?thesis
      proof (cases rule: insert_strict_cases [of q_name id qs q0])
        case (accepted q')
        have eq: "m2 = m" "q' = q" using assms(1) m1(1) m2(1) accepted(1) by (simp_all add: merge_def)
        have "a \<notin> wr_name ` set auto_regs" "a \<notin> fst ` set explicit" "b \<notin> q_name ` set qs"
            "wr_name ` set auto_regs \<inter> fst ` set explicit = {}"
          using m1(3,6) m2(3) accepted(3) c by (auto, metis fst_conv imageI)
        then show ?thesis
          using m1(2,4,5) m2(2,4,5) accepted(2,4,5) assms(2,3) unfolding eq by (auto, metis disjoint_iff imageI)
      qed (use assms(1) m1(1) m2(1) in \<open>simp add: merge_def\<close>)
    qed (use assms(1) m1(1) in \<open>simp add: merge_def\<close>)
  qed (use assms(1) in \<open>simp add: merge_def\<close>)
qed

text \<open>
  C28. The builder accepts a set of registrations exactly when no name is used twice, the reserved names
  of the debouncer workflow and the internal queue included, and then every name leads to the handler or
  queue registered under it; otherwise it fails with a conflicting registration of a name that is
  registered twice, and nothing is silently replaced.
\<close>

theorem build_strict:
  "(let names = DEBOUNCER_WF # map wr_name auto_regs @ map fst explicit; qnames = INTERNAL_QUEUE # map q_name qs in
    if distinct names \<and> distinct qnames
    then \<exists>g. build debouncer auto_regs explicit qs = Inr g \<and>
      hm_get (rg_workflows g) DEBOUNCER_WF = Some debouncer \<and>
      (\<forall>r \<in> set auto_regs. hm_get (rg_workflows g) (wr_name r) = Some (wr_handler r)) \<and>
      (\<forall>e \<in> set explicit. hm_get (rg_workflows g) (fst e) = Some (snd e)) \<and>
      (\<forall>k. k \<notin> set names \<longrightarrow> hm_get (rg_workflows g) k = None) \<and>
      hm_get (rg_queues g) INTERNAL_QUEUE = Some internal_queue \<and>
      (\<forall>q \<in> set qs. hm_get (rg_queues g) (q_name q) = Some q)
    else \<exists>name. build debouncer auto_regs explicit qs = Inl (conflicting_registration name) \<and>
      (count_list names name > 1 \<or> count_list qnames name > 1))"
proof -
  define m0 q0 where d: "m0 = hm_insert DEBOUNCER_WF debouncer []" "q0 = hm_insert INTERNAL_QUEUE internal_queue []"
  have c: "\<forall>k. hm_get m0 k = (if k = DEBOUNCER_WF then Some debouncer else None)"
      "\<forall>k. hm_get q0 k = (if k = INTERNAL_QUEUE then Some internal_queue else None)"
    by (auto simp: d hm_get_def)
  then have c': "\<forall>k. hm_contains m0 k \<longleftrightarrow> k = DEBOUNCER_WF" "\<forall>k. hm_contains q0 k \<longleftrightarrow> k = INTERNAL_QUEUE"
    by (simp_all add: hm_contains_def)
  show ?thesis
  proof (cases "merge m0 q0 auto_regs explicit qs")
    case (Inl e)
    from merge_conflicts [OF this c'] obtain name where n: "e = conflicting_registration name"
        "count_list (DEBOUNCER_WF # map wr_name auto_regs @ map fst explicit) name > 1 \<or>
         count_list (INTERNAL_QUEUE # map q_name qs) name > 1" by blast
    then have nd: "\<not> (distinct (DEBOUNCER_WF # map wr_name auto_regs @ map fst explicit) \<and>
        distinct (INTERNAL_QUEUE # map q_name qs))"
      using count_list_twice [where x = name] by metis
    have "build debouncer auto_regs explicit qs = Inl e" by (simp only: build_merge d [symmetric] Inl map_sum.simps id_apply)
    then show ?thesis unfolding Let_def if_not_P [OF nd] using n by blast
  next
    case (Inr r)
    obtain m q where r: "r = (m, q)" by (cases r)
    note acc = merge_accepts [OF Inr [unfolded r] c]
    then have dist: "distinct (DEBOUNCER_WF # map wr_name auto_regs @ map fst explicit) \<and>
        distinct (INTERNAL_QUEUE # map q_name qs)" by blast
    show ?thesis
      unfolding Let_def if_P [OF dist] build_merge d [symmetric] Inr r map_sum.simps prod.case
      by (rule exI, intro conjI, rule refl) (unfold registry.select_convs, (use acc in blast)+)
  qed
qed

theorem build_strict_witness:
  "(\<exists>g. build (0 :: nat) [] [(''wf'', 1)] [] = Inr g \<and> hm_get (rg_workflows g) ''wf'' = Some 1) \<and>
   (\<exists>name. build (0 :: nat) [] [(DEBOUNCER_WF, 1)] [] = Inl (conflicting_registration name))"
  using build_strict [of "[]" "[(''wf'', 1)]" "[]" "0 :: nat"] build_strict [of "[]" "[(DEBOUNCER_WF, 1)]" "[]" "0 :: nat"]
  by (auto simp: Let_def DEBOUNCER_WF_def)

section \<open>Cancellation in bulk\<close>

definition expired :: "int \<Rightarrow> workflow_status \<Rightarrow> bool" where
  "expired cutoff w \<longleftrightarrow>
     ws_status w \<in> {STATUS_PENDING, STATUS_ENQUEUED, STATUS_DELAYED} \<and> timestamp_millis (ws_created_at w) \<le> cutoff"

abbreviation timeout_filter :: "int \<Rightarrow> list_filter" where
  "timeout_filter cutoff \<equiv> list_filter_default
     \<lparr> lf_status := [STATUS_PENDING, STATUS_ENQUEUED, STATUS_DELAYED], lf_end_time_ms := Some cutoff,
       lf_load_input := False, lf_load_output := False \<rparr>"

lemma fold_update_rows:
  "distinct ids \<Longrightarrow> row_of k (fold (\<lambda>i. update_row i f) ids g) =
     (if k \<in> set ids then map_option f (row_of k g) else row_of k g)"
  by (induction ids arbitrary: g) (auto simp: update_row_def)

lemma expired_listed:
  assumes "store_wf g"
  shows "\<exists>rows. list_workflows (timeout_filter cutoff) g = (Inr rows, g) \<and> distinct (map ws_id rows) \<and>
    set (map ws_id rows) = {k. is_some_and (expired cutoff) (row_of k g)}"
proof -
  let ?f = "timeout_filter cutoff"
  have "list_workflows ?f g = (Inr (map (strip_row ?f) (ordered_rows ?f g)), g)"
    by (simp add: list_workflows_eq truncate_opt_def list_filter_default_def)
  moreover have "filter_matches ?f [] w \<longleftrightarrow> expired cutoff w" for w
    by (auto simp: filter_matches_def list_filter_default_def any_of_def any_of_opt_def expired_def)
  moreover have "lf_was_forked_from ?f = None" by (simp add: list_filter_default_def)
  ultimately have "k \<in> ws_id ` set (matching_rows ?f g) \<longleftrightarrow> is_some_and (expired cutoff) (row_of k g)" for k
    using row_id [OF assms, of k]
    by (cases "row_of k g") (force simp: matching_rows_iff [OF assms])+
  then have "set (map ws_id (map (strip_row ?f) (ordered_rows ?f g))) = {k. is_some_and (expired cutoff) (row_of k g)}"
    by (auto simp: image_image)
  moreover have "distinct (map ws_id (map (strip_row ?f) (ordered_rows ?f g)))"
    using ordered_rows_distinct [OF assms] by (simp add: o_def)
  ultimately show ?thesis using \<open>list_workflows ?f g = _\<close> by blast
qed

text \<open>
  The global timeout cancels exactly the workflows that are PENDING, ENQUEUED or DELAYED and were
  created at or before the cutoff: those rows become CANCELLED and leave their queues, every other row
  is untouched, and the number returned is theirs.
\<close>

theorem cancel_all_before_exact:
  assumes "rt_provider R = memory_provider from_ms" "store_wf g"
  shows "\<exists>g'. cancel_all_before R cutoff now g = (Inr (card {k. is_some_and (expired cutoff) (row_of k g)}), g') \<and>
    (\<forall>k. row_of k g' = map_option (\<lambda>w. if expired cutoff w then cancel_row now w else w) (row_of k g)) \<and>
    (\<forall>k w. row_of k g' = Some w \<longrightarrow> \<not> expired cutoff w)"
proof -
  obtain rows where r: "list_workflows (timeout_filter cutoff) g = (Inr rows, g)" "distinct (map ws_id rows)"
      "set (map ws_id rows) = {k. is_some_and (expired cutoff) (row_of k g)}"
    using expired_listed [OF assms(2)] by blast
  let ?g = "fold (\<lambda>i. update_row i (cancel_row now)) (map ws_id rows) g"
  have n: "length rows = card {k. is_some_and (expired cutoff) (row_of k g)}"
    using distinct_card [OF r(2)] unfolding r(3) by simp
  have c: "cancel_all_before R cutoff now g = (Inr (length rows), ?g)"
    by (simp add: cancel_all_before_def and_then_def assms(1) memory_provider_def r(1) cancel_workflows_def Let_def)
  have rows: "row_of k ?g = map_option (\<lambda>w. if expired cutoff w then cancel_row now w else w) (row_of k g)" for k
    unfolding fold_update_rows [OF r(2)] r(3) by (cases "row_of k g") (auto simp: is_some_and_def)
  have "\<not> expired cutoff (cancel_row now w)" if "expired cutoff w" for w
    using that by (auto simp: expired_def cancel_row_def is_terminal_def status_defs)
  then have gone: "\<forall>k w. row_of k ?g = Some w \<longrightarrow> \<not> expired cutoff w" by (auto simp: rows) metis
  show ?thesis by (intro exI [of _ ?g] conjI) (rule c [unfolded n], rule allI, rule rows, rule gone)
qed

theorem cancel_all_before_exact_witness:
  "\<exists>n g'. cancel_all_before wit_runtime 5 9 wit_store = (Inr n, g') \<and> (\<forall>w. row_of ''a'' g' = Some w \<longrightarrow> \<not> expired 5 w)"
proof -
  have "rt_provider wit_runtime = memory_provider wit_from_ms" by (simp add: wit_runtime_def)
  from cancel_all_before_exact [OF this wit_store_wf, of 5 9] show ?thesis by blast
qed

section \<open>Resumption\<close>

text \<open>
  Resuming a workflow puts it back to work on the named queue: a workflow that is not finished (a
  cancelled one included) becomes ENQUEUED there, unowned, with no deadline and a fresh recovery count,
  so that an executor of its version can claim it; one that ended with a result, an error or past its
  recovery attempts is left as it is and only observed; an unknown id is the error
  \<open>NonExistentWorkflow\<close>. No other workflow changes.
\<close>

theorem resume_on_queue:
  assumes "rt_provider R = memory_provider from_ms"
  shows "\<exists>g'. resume_workflow_on R wid queue now now' g =
      (case row_of wid g of None \<Rightarrow> Inl (nonexistent_workflow wid) | Some _ \<Rightarrow> Inr (Polling wid), g') \<and>
    (\<forall>k. k \<noteq> wid \<longrightarrow> row_of k g' = row_of k g) \<and>
    (\<forall>row. row_of wid g = Some row \<longrightarrow>
       (if is_terminal (ws_status row) \<and> ws_status row \<noteq> STATUS_CANCELLED then row_of wid g' = Some row
        else \<exists>row'. row_of wid g' = Some row' \<and> ws_status row' = STATUS_ENQUEUED \<and> ws_queue_name row' = Some queue \<and>
          ws_executor_id row' = [] \<and> ws_deadline_ms row' = None \<and> ws_recovery_attempts row' = 0 \<and>
          ws_input row' = ws_input row \<and> ws_app_version row' = ws_app_version row \<and>
          (\<forall>req. dr_queue_name req = queue \<longrightarrow> dr_partition_key req = None \<longrightarrow>
             dr_app_version req = ws_app_version row \<longrightarrow> claimable req g' row')))"
  by (cases "row_of wid g"; cases "resumable (the (row_of wid g))")
     (auto simp: resume_workflow_on_def and_then_def assms memory_provider_def resume_workflow_def enqueue_existing_def
       get_workflow_status_def resumable_def resume_row_def update_row_def claimable_def on_queue_def in_partition_def)

theorem resume_on_queue_witness:
  "\<exists>g' row'. resume_workflow_on wit_runtime ''c'' ''r'' 1 2 wit_store = (Inr (Polling ''c''), g') \<and>
     row_of ''c'' g' = Some row' \<and> ws_status row' = STATUS_ENQUEUED \<and> ws_queue_name row' = Some ''r''"
proof -
  have p: "rt_provider wit_runtime = memory_provider wit_from_ms" by (simp add: wit_runtime_def)
  have "map_option ws_status (row_of ''c'' wit_store) = Some STATUS_PENDING" by code_simp
  then obtain row where row: "row_of ''c'' wit_store = Some row" "ws_status row = STATUS_PENDING" by auto
  have "\<not> is_terminal STATUS_PENDING" by code_simp
  with row resume_on_queue [OF p, of "''c''" "''r''" 1 2 wit_store] show ?thesis by auto
qed

end
