(* ===== verification/Client.thy ===== *)
theory Client
  imports Engine_Admin
begin

text \<open>
  \<open>src/src/client.rs\<close>: the out-of-process client, which submits work to the queues and observes it
  without running anything. A handle the client returns polls, so it is the id it names.
\<close>

record 's client =
  cl_provider :: "'s provider"
  cl_app_version :: string

definition client_new :: "'s provider \<Rightarrow> 's client" where
  "client_new P = \<lparr> cl_provider = P, cl_app_version = [] \<rparr>"

definition with_app_version :: "string \<Rightarrow> 's client \<Rightarrow> 's client" where
  "with_app_version version L = L \<lparr> cl_app_version := version \<rparr>"

section \<open>Submitting work\<close>

definition enqueue_checks :: "string \<Rightarrow> string \<Rightarrow> workflow_options \<Rightarrow> unit result" where
  "enqueue_checks queue_name workflow_name opts =
     (if queue_name = [] then Inl (app ''queue name is required'')
      else if workflow_name = [] then Inl (app ''workflow name is required'')
      else if wo_partition_key opts \<noteq> None \<and> wo_dedup_id opts \<noteq> None
      then Inl (app ''partition key and deduplication id cannot be used together'')
      else if wo_dedup_policy opts \<noteq> Reject \<and> wo_dedup_id opts = None
      then Inl (app ''a deduplication policy requires a deduplication id'')
      else Inr ())"

definition enqueue_row ::
    "'s client \<Rightarrow> string \<Rightarrow> string \<Rightarrow> string \<Rightarrow> json \<Rightarrow> workflow_options \<Rightarrow> datetime \<Rightarrow> datetime \<Rightarrow> workflow_status" where
  "enqueue_row L wid queue_name workflow_name input opts now created =
     (workflow_status_new wid workflow_name input
        (if wo_delay opts \<noteq> None then STATUS_DELAYED else STATUS_ENQUEUED) []
        (unwrap_or (wo_app_version opts) (cl_app_version L)) created)
       \<lparr> ws_queue_name := Some queue_name, ws_priority := wo_priority opts,
         ws_queue_partition_key := wo_partition_key opts, ws_dedup_id := wo_dedup_id opts,
         ws_authenticated_user := wo_authenticated_user opts, ws_assumed_role := wo_assumed_role opts,
         ws_authenticated_roles := wo_authenticated_roles opts, ws_class_name := wo_class_name opts,
         ws_config_name := wo_config_name opts,
         ws_timeout_ms := map_option as_millis_i64 (wo_timeout opts),
         ws_delay_until_ms := map_option
           (\<lambda>d. i64_wrap (timestamp_millis now + as_millis_i64 d)) (wo_delay opts) \<rparr>"

text \<open>The insertion loop; \<open>env n\<close> is what others do between the \<open>n\<close>-th insertion and the lookup.\<close>

fun enqueue_loop ::
    "'s client \<Rightarrow> (nat \<Rightarrow> 's \<Rightarrow> 's) \<Rightarrow> string \<Rightarrow> workflow_options \<Rightarrow> workflow_status \<Rightarrow> nat \<Rightarrow> nat \<Rightarrow> 's
       \<Rightarrow> (string result \<times> 's) option" where
  "enqueue_loop L env queue_name opts row 0 n s = None"
| "enqueue_loop L env queue_name opts row (Suc fuel) n s =
     (case pv_insert_workflow_status (cl_provider L) row s of
        (Inr _, s1) \<Rightarrow> Some (Inr (ws_id row), s1)
      | (Inl e, s1) \<Rightarrow>
          if wo_dedup_policy opts = ReturnExisting \<and> code e = ErrorCode_QueueDeduplicated
          then
            (case pv_get_deduplicated_workflow (cl_provider L) queue_name (unwrap_or (wo_dedup_id opts) []) (env n s1) of
               (Inl e', s2) \<Rightarrow> Some (Inl e', s2)
             | (Inr (Some existing), s2) \<Rightarrow> Some (Inr existing, s2)
             | (Inr None, s2) \<Rightarrow> enqueue_loop L env queue_name opts row fuel (Suc n) s2)
          else Some (Inl e, s1))"

declare enqueue_loop.simps(2) [simp del]

definition enqueue ::
    "'s client \<Rightarrow> (nat \<Rightarrow> 's \<Rightarrow> 's) \<Rightarrow> datetime \<Rightarrow> datetime \<Rightarrow> string \<Rightarrow> string \<Rightarrow> string \<Rightarrow> json result
       \<Rightarrow> workflow_options \<Rightarrow> nat \<Rightarrow> 's \<Rightarrow> (string result \<times> 's) option" where
  "enqueue L env now created fresh queue_name workflow_name input opts fuel s =
     (case enqueue_checks queue_name workflow_name opts of
        Inl e \<Rightarrow> Some (Inl e, s)
      | Inr _ \<Rightarrow>
          (case input of
             Inl e \<Rightarrow> Some (Inl e, s)
           | Inr j \<Rightarrow> enqueue_loop L env queue_name opts
               (enqueue_row L (unwrap_or (wo_workflow_id opts) fresh) queue_name workflow_name j opts now created) fuel 0 s))"

section \<open>Messages and events\<close>

definition client_send ::
    "'s client \<Rightarrow> string \<Rightarrow> json result \<Rightarrow> string \<Rightarrow> string option \<Rightarrow> string \<Rightarrow> datetime \<Rightarrow> ('s, unit) op" where
  "client_send L destination_id message topic idempotency_key fresh now =
     (case message of
        Inl e \<Rightarrow> fail e
      | Inr m \<Rightarrow> pv_insert_notification (cl_provider L) destination_id topic m idempotency_key fresh now)"

fun client_get_event ::
    "'s client \<Rightarrow> 'a serde \<Rightarrow> (nat \<Rightarrow> 's \<Rightarrow> 's) \<Rightarrow> (nat \<Rightarrow> bool) \<Rightarrow> string \<Rightarrow> string \<Rightarrow> nat \<Rightarrow> nat \<Rightarrow> 's
       \<Rightarrow> ('a option result \<times> 's) option" where
  "client_get_event L d env late target key 0 n s = None"
| "client_get_event L d env late target key (Suc fuel) n s =
     (case pv_get_event_value (cl_provider L) target key s of
        (Inl e, s1) \<Rightarrow> Some (Inl e, s1)
      | (Inr (Some v), s1) \<Rightarrow> Some (map_sum id Some (sd_from_value d v), s1)
      | (Inr None, s1) \<Rightarrow>
          if late n then Some (Inr None, s1)
          else client_get_event L d env late target key fuel (Suc n) (env n s1))"

section \<open>Management\<close>

definition client_retrieve_workflow :: "'s client \<Rightarrow> string \<Rightarrow> ('s, string) op" where
  "client_retrieve_workflow L wid =
     and_then (pv_get_workflow_status (cl_provider L) wid)
     (\<lambda>st. case st of None \<Rightarrow> fail (UnknownWorkflow wid) | Some _ \<Rightarrow> ok wid)"

definition client_resume_workflow_on :: "'s client \<Rightarrow> string \<Rightarrow> string \<Rightarrow> datetime \<Rightarrow> datetime \<Rightarrow> ('s, string) op" where
  "client_resume_workflow_on L wid queue now now' =
     and_then (pv_resume_workflow (cl_provider L) wid now)
     (\<lambda>resumed.
        if resumed then and_then (pv_enqueue_existing (cl_provider L) wid queue now') (\<lambda>_. ok wid)
        else and_then (pv_get_workflow_status (cl_provider L) wid)
          (\<lambda>st. if st = None then fail (nonexistent_workflow wid) else ok wid))"

definition client_resume_workflows_on ::
    "'s client \<Rightarrow> string list \<Rightarrow> string \<Rightarrow> datetime \<Rightarrow> (string \<Rightarrow> datetime) \<Rightarrow> ('s, string list) op" where
  "client_resume_workflows_on L ids queue now clk =
     and_then (pv_resume_workflows (cl_provider L) ids now)
     (\<lambda>resumed. and_then (enqueue_all (cl_provider L) queue clk resumed)
     (\<lambda>_. and_then (pv_list_workflows (cl_provider L) (list_filter_default \<lparr> lf_workflow_ids := ids \<rparr>))
     (\<lambda>ws. ok (filter (\<lambda>i. i \<in> set (map ws_id ws)) ids))))"

definition client_fork_workflow ::
    "'s client \<Rightarrow> string \<Rightarrow> int \<Rightarrow> workflow_options \<Rightarrow> string \<Rightarrow> datetime \<Rightarrow> ('s, string) op" where
  "client_fork_workflow L original_id start_step opts fresh now =
     (if wo_partition_key opts \<noteq> None \<and> wo_queue opts = None
      then fail (app ''a queue partition key requires a queue name'')
      else and_then (pv_fork_workflow (cl_provider L)
             \<lparr> fp_original_id = original_id, fp_new_id = resolve_id opts fresh, fp_start_step = start_step,
               fp_app_version = (case wo_app_version opts of Some v \<Rightarrow> if v \<noteq> [] then Some v else None | None \<Rightarrow> None),
               fp_queue_name = unwrap_or (wo_queue opts) INTERNAL_QUEUE, fp_partition_key = wo_partition_key opts \<rparr> now)
           (\<lambda>_. ok (resolve_id opts fresh)))"

definition client_set_workflow_delay :: "'s client \<Rightarrow> string \<Rightarrow> duration \<Rightarrow> datetime \<Rightarrow> datetime \<Rightarrow> ('s, bool) op" where
  "client_set_workflow_delay L wid delay now now' =
     pv_set_workflow_delay (cl_provider L) wid (i64_wrap (timestamp_millis now + as_millis_i64 delay)) now'"

definition client_set_workflow_delay_until :: "'s client \<Rightarrow> string \<Rightarrow> datetime \<Rightarrow> datetime \<Rightarrow> ('s, bool) op" where
  "client_set_workflow_delay_until L wid at now = pv_set_workflow_delay (cl_provider L) wid (timestamp_millis at) now"

definition client_set_latest_application_version :: "'s client \<Rightarrow> string \<Rightarrow> datetime \<Rightarrow> ('s, bool) op" where
  "client_set_latest_application_version L version_name now =
     (if version_name = [] then fail (app ''version_name is required'')
      else pv_set_latest_application_version (cl_provider L) version_name now)"

section \<open>Schedules\<close>

text \<open>As the engine validates them, but for the workflow name: the client has no registry.\<close>

definition client_validate_schedule :: "'c cron_env \<Rightarrow> string \<Rightarrow> string \<Rightarrow> schedule_options \<Rightarrow> unit result" where
  "client_validate_schedule E schedule_name cron opts =
     (if schedule_name = [] then Inl (app ''schedule_name is required'')
      else
        (case parse_cron E cron of
           Inl e \<Rightarrow> Inl e
         | Inr _ \<Rightarrow>
             (case so_cron_timezone opts of Some tz \<Rightarrow> map_sum id (\<lambda>_. ()) (parse_timezone E tz) | None \<Rightarrow> Inr ())))"

definition client_create_schedule ::
    "'s client \<Rightarrow> 'c cron_env \<Rightarrow> string \<Rightarrow> string \<Rightarrow> string \<Rightarrow> string \<Rightarrow> schedule_options \<Rightarrow> ('s, unit) op" where
  "client_create_schedule L E fresh schedule_name workflow_name cron opts =
     (case client_validate_schedule E schedule_name cron opts of
        Inl e \<Rightarrow> fail e
      | Inr _ \<Rightarrow> pv_create_schedule (cl_provider L) (new_schedule fresh schedule_name workflow_name cron opts))"

fun client_validate_all :: "'c cron_env \<Rightarrow> apply_schedule list \<Rightarrow> unit result" where
  "client_validate_all E [] = Inr ()"
| "client_validate_all E (req # reqs) =
     (case client_validate_schedule E (as_schedule_name req) (as_schedule req) (as_options req) of
        Inl e \<Rightarrow> Inl e
      | Inr _ \<Rightarrow> client_validate_all E reqs)"

definition client_apply_schedules ::
    "'s client \<Rightarrow> 'c cron_env \<Rightarrow> (nat \<Rightarrow> string) \<Rightarrow> apply_schedule list \<Rightarrow> ('s, unit) op" where
  "client_apply_schedules L E fresh reqs =
     (case client_validate_all E reqs of
        Inl e \<Rightarrow> fail e
      | Inr _ \<Rightarrow> pv_apply_schedules (cl_provider L)
          (map (\<lambda>(n, req). new_schedule (fresh n) (as_schedule_name req) (as_workflow_name req) (as_schedule req)
             (as_options req)) (enumerate 0 reqs)))"

definition client_get_schedule :: "'s client \<Rightarrow> string \<Rightarrow> ('s, workflow_schedule option) op" where
  "client_get_schedule L schedule_name =
     and_then (pv_list_schedules (cl_provider L) (schedule_filter_default \<lparr> sf_name_prefixes := [schedule_name] \<rparr>))
     (\<lambda>ss. ok (find (\<lambda>s. sch_schedule_name s = schedule_name) ss))"

definition client_pause_schedule :: "'s client \<Rightarrow> string \<Rightarrow> ('s, bool) op" where
  "client_pause_schedule L schedule_name = pv_set_schedule_status (cl_provider L) schedule_name Paused"

definition client_resume_schedule :: "'s client \<Rightarrow> string \<Rightarrow> ('s, bool) op" where
  "client_resume_schedule L schedule_name = pv_set_schedule_status (cl_provider L) schedule_name Active"

definition schedule_queue :: "workflow_schedule \<Rightarrow> string" where
  "schedule_queue schedule = unwrap_or (sch_queue_name schedule) INTERNAL_QUEUE"

definition client_trigger_schedule ::
    "'s client \<Rightarrow> 'c cron_env \<Rightarrow> (nat \<Rightarrow> 's \<Rightarrow> 's) \<Rightarrow> datetime \<Rightarrow> datetime \<Rightarrow> datetime \<Rightarrow> string \<Rightarrow> string \<Rightarrow> nat \<Rightarrow> 's
       \<Rightarrow> (string result \<times> 's) option" where
  "client_trigger_schedule L E env now row_now created fresh schedule_name fuel s =
     (case client_get_schedule L schedule_name s of
        (Inl e, s1) \<Rightarrow> Some (Inl e, s1)
      | (Inr None, s1) \<Rightarrow> Some (Inl (schedule_not_found schedule_name), s1)
      | (Inr (Some schedule), s1) \<Rightarrow>
          enqueue L env row_now created fresh (schedule_queue schedule) (sch_workflow_name schedule)
            (ce_to_value E (tick_input schedule now))
            (with_id (''sched-'' @ schedule_name @ ''-trigger-'' @ ce_rfc3339_nanos E now)) fuel s1)"

text \<open>The loop over the ticks; no deduplication policy is set, so one turn of the insertion is enough.\<close>

fun client_backfill_loop ::
    "'s client \<Rightarrow> 'c cron_env \<Rightarrow> workflow_schedule \<Rightarrow> string \<Rightarrow> (nat \<Rightarrow> datetime) \<Rightarrow> (nat \<Rightarrow> string) \<Rightarrow> nat \<Rightarrow> datetime list \<Rightarrow> 's
       \<Rightarrow> (string list result \<times> 's) option" where
  "client_backfill_loop L E schedule schedule_name clk fresh n [] s = Some (Inr [], s)"
| "client_backfill_loop L E schedule schedule_name clk fresh n (instant # ticks) s =
     (let wid = ''sched-'' @ schedule_name @ ''-'' @ ce_rfc3339 E instant in
      case enqueue L (\<lambda>_ s. s) (clk (2 * n)) (clk (2 * n + 1)) (fresh n) (schedule_queue schedule)
             (sch_workflow_name schedule) (ce_to_value E (tick_input schedule instant)) (with_id wid) 1 s of
        None \<Rightarrow> None
      | Some (Inl e, s1) \<Rightarrow> Some (Inl e, s1)
      | Some (Inr _, s1) \<Rightarrow>
          map_option (\<lambda>(r, s2). (map_sum id (Cons wid) r, s2))
            (client_backfill_loop L E schedule schedule_name clk fresh (Suc n) ticks s1))"

definition client_backfill_schedule ::
    "'s client \<Rightarrow> 'c cron_env \<Rightarrow> (nat \<Rightarrow> datetime) \<Rightarrow> (nat \<Rightarrow> string) \<Rightarrow> string \<Rightarrow> datetime \<Rightarrow> datetime \<Rightarrow> 's
       \<Rightarrow> (string list result \<times> 's) option" where
  "client_backfill_schedule L E clk fresh schedule_name lo hi s =
     (case client_get_schedule L schedule_name s of
        (Inl e, s1) \<Rightarrow> Some (Inl e, s1)
      | (Inr None, s1) \<Rightarrow> Some (Inl (schedule_not_found schedule_name), s1)
      | (Inr (Some schedule), s1) \<Rightarrow>
          (case parse_cron E (sch_schedule schedule) of
             Inl e \<Rightarrow> Some (Inl e, s1)
           | Inr cron \<Rightarrow>
               (case cron_ticks_between E cron (sch_cron_timezone schedule) lo hi of
                  None \<Rightarrow> None
                | Some ticks \<Rightarrow> client_backfill_loop L E schedule schedule_name clk fresh 0 ticks s1)))"

section \<open>Submitted work is claimable\<close>

lemma enqueue_row_fields [simp]:
  "ws_id (enqueue_row L wid q n j opts now c) = wid"
  "ws_queue_name (enqueue_row L wid q n j opts now c) = Some q"
  "ws_queue_partition_key (enqueue_row L wid q n j opts now c) = wo_partition_key opts"
  "ws_dedup_id (enqueue_row L wid q n j opts now c) = wo_dedup_id opts"
  "ws_app_version (enqueue_row L wid q n j opts now c) = unwrap_or (wo_app_version opts) (cl_app_version L)"
  "ws_status (enqueue_row L wid q n j opts now c) = (if wo_delay opts = None then STATUS_ENQUEUED else STATUS_DELAYED)"
  "ws_input (enqueue_row L wid q n j opts now c) = j" "ws_name (enqueue_row L wid q n j opts now c) = n"
  "ws_executor_id (enqueue_row L wid q n j opts now c) = []"
  by (simp_all add: enqueue_row_def workflow_status_new_def)

text \<open>
  C18. Work submitted through a client reaches the executors: when the arguments are accepted, the id is
  new and no active workflow holds the deduplication slot, the call returns the id and stores one
  ENQUEUED row with the given name and input, owned by nobody, and changes nothing else. A dispatcher
  of that queue and partition can claim it exactly when it runs the stamped version or, if the work is
  stamped with no version, when its version is the latest registered one (or none is registered).
\<close>

theorem enqueue_claimable:
  assumes "cl_provider L = memory_provider from_ms" "enqueue_checks queue name opts = Inr ()" "wo_delay opts = None"
    and "unwrap_or (wo_workflow_id opts) fresh = wid" "row_of wid g = None"
    and "\<forall>d. wo_dedup_id opts = Some d \<longrightarrow> \<not> (\<exists>k w. row_of k g = Some w \<and> holds_slot queue d w)" "store_wf g"
  shows "\<exists>g' row. enqueue L env now created fresh queue name (Inr j) opts (Suc fuel) g = Some (Inr wid, g') \<and>
    row_of wid g' = Some row \<and> ws_name row = name \<and> ws_input row = j \<and> ws_status row = STATUS_ENQUEUED \<and>
    ws_executor_id row = [] \<and> (\<forall>k. k \<noteq> wid \<longrightarrow> row_of k g' = row_of k g) \<and>
    (\<forall>req. dr_queue_name req = queue \<longrightarrow> dr_partition_key req \<in> {None, wo_partition_key opts} \<longrightarrow>
       (claimable req g' row \<longleftrightarrow>
          (let v = unwrap_or (wo_app_version opts) (cl_app_version L) in
           dr_app_version req = v \<or> v = [] \<and> is_latest_version req g)))"
proof -
  let ?r = "enqueue_row L wid queue name j opts now created"
  let ?g = "g \<lparr> workflows := hm_or_insert wid ?r (workflows g) \<rparr>"
  have "dedup_conflict g ?r = None"
    using assms(6) by (auto simp: dedup_conflict_def holds_slot_def list_ex_iff hm_values_iff store_wfD assms(7)
        split: option.splits)
  then have "enqueue L env now created fresh queue name (Inr j) opts (Suc fuel) g = Some (Inr wid, ?g)"
    by (simp add: enqueue_def assms(1,2,4) enqueue_loop.simps memory_provider_def insert_workflow_status_def Let_def)
  moreover have "row_of wid ?g = Some ?r" using assms(5) by simp
  moreover have "claimable req ?g ?r \<longleftrightarrow> dr_app_version req = ws_app_version ?r \<or>
      ws_app_version ?r = [] \<and> is_latest_version req g"
    if "dr_queue_name req = queue" "dr_partition_key req \<in> {None, wo_partition_key opts}" for req
    using that assms(3) by (auto simp: claimable_def on_queue_def in_partition_def is_latest_version_def)
  ultimately show ?thesis using assms(3) by (intro exI [of _ ?g] exI [of _ ?r]) (simp add: Let_def)
qed

theorem enqueue_claimable_witness:
  "\<exists>g' row. enqueue (client_new (memory_provider wit_from_ms)) (\<lambda>_ s. s) 3 4 ''u'' ''q'' ''job'' (Inr JNull)
      workflow_options_default 1 wit_store = Some (Inr ''u'', g') \<and> row_of ''u'' g' = Some row \<and> claimable wit_req g' row"
proof -
  have "enqueue_checks ''q'' ''job'' workflow_options_default = Inr ()" "row_of ''u'' wit_store = None"
    "is_latest_version wit_req wit_store" "dr_queue_name wit_req = ''q''" "dr_partition_key wit_req = None"
    by code_simp+
  with enqueue_claimable [of "client_new (memory_provider wit_from_ms)" wit_from_ms "''q''" "''job''"
      workflow_options_default "''u''" "''u''" wit_store "\<lambda>_ s. s" 3 4 JNull 0] wit_store_wf
  show ?thesis by (auto simp: client_new_def workflow_options_default_def Let_def)
qed

section \<open>Backfill from either side\<close>

text \<open>What a tick needs to be fired by the client: a queue and a workflow name that are not empty.\<close>

definition client_fireable :: "workflow_schedule \<Rightarrow> bool" where
  "client_fireable schedule \<longleftrightarrow> sch_workflow_name schedule \<noteq> [] \<and> sch_queue_name schedule \<noteq> Some []"

lemma client_tick:
  assumes "cl_provider L = memory_provider from_ms" "client_fireable schedule" "ce_to_value E (tick_input schedule t) = Inr input"
    and "wid = tick_id E schedule t"
  shows "\<exists>row. ws_id row = wid \<and>
    enqueue L env now c fresh (schedule_queue schedule) (sch_workflow_name schedule)
      (ce_to_value E (tick_input schedule t)) (with_id wid) 1 g =
    Some (Inr wid, g \<lparr> workflows := hm_or_insert wid row (workflows g) \<rparr>)"
proof -
  have o: "wo_partition_key (with_id wid) = None" "wo_dedup_id (with_id wid) = None" "wo_dedup_policy (with_id wid) = Reject"
    "wo_workflow_id (with_id wid) = Some wid"
    by (simp_all add: with_id_def workflow_options_default_def)
  have q: "schedule_queue schedule \<noteq> []"
    using assms(2) by (auto simp: client_fireable_def schedule_queue_def INTERNAL_QUEUE_def unwrap_or_def split: option.splits)
  let ?r = "enqueue_row L wid (schedule_queue schedule) (sch_workflow_name schedule) input (with_id wid) now c"
  have "dedup_conflict g ?r = None" by (simp add: dedup_conflict_def o)
  then have "enqueue L env now c fresh (schedule_queue schedule) (sch_workflow_name schedule) (Inr input) (with_id wid) 1 g =
      Some (Inr wid, g \<lparr> workflows := hm_or_insert wid ?r (workflows g) \<rparr>)"
    using assms(2) q
    by (simp add: enqueue_def enqueue_checks_def client_fireable_def o enqueue_loop.simps assms(1) memory_provider_def
        insert_workflow_status_def Let_def)
  then show ?thesis using assms(3) by (intro exI [of _ ?r]) simp
qed

lemma engine_tick:
  assumes "rt_provider R = memory_provider from_ms" "fire_tick R E schedule t now c g = (Inr wid, runs, g')"
  shows "\<exists>input row. ce_to_value E (tick_input schedule t) = Inr input \<and> wid = tick_id E schedule t \<and>
    g' = g \<lparr> workflows := hm_or_insert wid row (workflows g) \<rparr>"
proof (cases "ce_to_value E (tick_input schedule t)")
  case (Inr input)
  have "queue_known R schedule"
  proof (rule ccontr)
    assume "\<not> queue_known R schedule"
    then obtain q where "sch_queue_name schedule = Some q" "\<not> hm_contains (rt_queues R) q"
      by (auto simp: queue_known_def is_none_or_def split: option.splits)
    with assms(2) Inr show False
      by (simp add: fire_tick_def persist_scheduled_tick_def and_then_def insert_run_def tick_options_def)
  qed
  with fire_tick_mem [OF assms(1) Inr, of now c g] assms(2) Inr show ?thesis by auto
qed (use assms(2) in \<open>simp add: fire_tick_def persist_scheduled_tick_def\<close>)

lemma hm_or_insert_present: "hm_contains m k \<Longrightarrow> hm_or_insert k v m = m"
  by (simp add: hm_or_insert_def)

lemma contains_or_insert: "hm_contains (hm_or_insert k v m) j \<longleftrightarrow> hm_contains m j \<or> j = k"
  by (simp add: hm_contains_def split: option.splits)

lemma map_sum_Inr: "map_sum f h x = Inr y \<longleftrightarrow> (\<exists>z. x = Inr z \<and> y = h z)"
  by (cases x) auto

lemma engine_backfill_fired:
  assumes "rt_provider R = memory_provider from_ms" "backfill_loop R E schedule clk n ts g = (Inr ids, runs, g')"
  shows "ids = map (tick_id E schedule) ts \<and> schedules g' = schedules g \<and>
    (\<forall>k. hm_contains (workflows g) k \<longrightarrow> hm_contains (workflows g') k) \<and>
    (\<forall>t \<in> set ts. (\<exists>input. ce_to_value E (tick_input schedule t) = Inr input) \<and>
       hm_contains (workflows g') (tick_id E schedule t))"
  using assms(2)
proof (induction ts arbitrary: n g ids runs)
  case (Cons t ts)
  from Cons.prems obtain wid runs1 g1 ids' runs2 where
    f: "fire_tick R E schedule t (clk (2 * n)) (clk (2 * n + 1)) g = (Inr wid, runs1, g1)"
    and b: "backfill_loop R E schedule clk (Suc n) ts g1 = (Inr ids', runs2, g')" "ids = wid # ids'"
    by (auto simp: map_sum_Inr split: sum.splits prod.splits)
  from engine_tick [OF assms(1) f] Cons.IH [OF b(1)] b(2) show ?case by (auto simp: contains_or_insert)
qed simp

lemma client_backfill_fired:
  assumes "cl_provider L = memory_provider from_ms" "client_fireable schedule"
    and "\<forall>t \<in> set ts. (\<exists>input. ce_to_value E (tick_input schedule t) = Inr input)"
  shows "\<exists>g'. client_backfill_loop L E schedule (sch_schedule_name schedule) clk fresh n ts g =
      Some (Inr (map (tick_id E schedule) ts), g') \<and> schedules g' = schedules g \<and>
    (\<forall>k. hm_contains (workflows g') k \<longleftrightarrow> hm_contains (workflows g) k \<or> k \<in> tick_id E schedule ` set ts) \<and>
    ((\<forall>t \<in> set ts. hm_contains (workflows g) (tick_id E schedule t)) \<longrightarrow> g' = g)"
  using assms(3)
proof (induction ts arbitrary: n g)
  case (Cons t ts)
  then obtain input where i: "ce_to_value E (tick_input schedule t) = Inr input" by auto
  let ?w = "tick_id E schedule t"
  obtain row where e: "enqueue L (\<lambda>_ s. s) (clk (2 * n)) (clk (2 * n + 1)) (fresh n) (schedule_queue schedule)
      (sch_workflow_name schedule) (ce_to_value E (tick_input schedule t)) (with_id ?w) 1 g =
      Some (Inr ?w, g \<lparr> workflows := hm_or_insert ?w row (workflows g) \<rparr>)"
    using client_tick [OF assms(1,2) i refl] by blast
  from Cons.IH [of "Suc n" "g \<lparr> workflows := hm_or_insert ?w row (workflows g) \<rparr>"] Cons.prems obtain g' where
    IH: "client_backfill_loop L E schedule (sch_schedule_name schedule) clk fresh (Suc n) ts
        (g \<lparr> workflows := hm_or_insert ?w row (workflows g) \<rparr>) = Some (Inr (map (tick_id E schedule) ts), g')"
      "schedules g' = schedules g"
      "\<forall>k. hm_contains (workflows g') k \<longleftrightarrow> hm_contains (workflows g) k \<or> k = ?w \<or> k \<in> tick_id E schedule ` set ts"
      "(\<forall>t \<in> set ts. hm_contains (workflows g) (tick_id E schedule t) \<or> tick_id E schedule t = ?w) \<longrightarrow>
         g' = g \<lparr> workflows := hm_or_insert ?w row (workflows g) \<rparr>"
    by (auto simp: contains_or_insert)
  have w: "''sched-'' @ sch_schedule_name schedule @ ''-'' @ ce_rfc3339 E t = ?w" by (simp add: tick_id_def)
  have "client_backfill_loop L E schedule (sch_schedule_name schedule) clk fresh n (t # ts) g =
      Some (Inr (map (tick_id E schedule) (t # ts)), g')"
    unfolding client_backfill_loop.simps Let_def w e by (simp add: IH(1))
  moreover have "g' = g" if "\<forall>t \<in> set (t # ts). hm_contains (workflows g) (tick_id E schedule t)"
    using IH(4) that by (simp add: hm_or_insert_present)
  ultimately show ?case using IH(2,3) by auto
qed simp

lemma get_schedule_named:
  "get_schedule R name s = (Inr (Some schedule), s') \<Longrightarrow> sch_schedule_name schedule = name"
  by (auto simp: get_schedule_def and_then_def ok_def find_Some_iff split: sum.splits prod.splits)

lemma client_get_schedule_eq:
  "cl_provider L = rt_provider R \<Longrightarrow> client_get_schedule L name = get_schedule R name"
  by (simp add: client_get_schedule_def get_schedule_def)

lemma client_backfill_inputs:
  "client_backfill_loop L E schedule name clk fresh n ts g = Some (Inr ids, g') \<Longrightarrow>
     \<forall>t \<in> set ts. \<exists>input. ce_to_value E (tick_input schedule t) = Inr input"
proof (induction ts arbitrary: n g ids)
  case (Cons t ts)
  have "\<exists>input. ce_to_value E (tick_input schedule t) = Inr input"
    using Cons.prems by (cases "ce_to_value E (tick_input schedule t)")
      (auto simp: Let_def enqueue_def split: sum.splits option.splits)
  with Cons show ?case
    by (auto simp: Let_def map_sum_Inr split: sum.splits option.splits prod.splits)
qed simp

lemma engine_backfill_present:
  assumes "rt_provider R = memory_provider from_ms" "queue_known R schedule"
    and "\<forall>t \<in> set ts. (\<exists>input. ce_to_value E (tick_input schedule t) = Inr input) \<and>
       hm_contains (workflows g) (tick_id E schedule t)"
  shows "backfill_loop R E schedule clk n ts g = (Inr (map (tick_id E schedule) ts), [], g)"
  using assms(3)
proof (induction ts arbitrary: n)
  case (Cons t ts)
  then obtain input where "ce_to_value E (tick_input schedule t) = Inr input" by auto
  from fire_tick_mem [OF assms(1) this assms(2)] Cons show ?case by (simp add: hm_or_insert_present)
qed simp

lemma get_schedule_store:
  "rt_provider R = memory_provider from_ms \<Longrightarrow> get_schedule R name g = (Inr (Some schedule), g) \<Longrightarrow>
     schedules g' = schedules g \<Longrightarrow> get_schedule R name g' = (Inr (Some schedule), g')"
  by (simp add: get_schedule_def and_then_def memory_provider_def list_schedules_def ok_def)

lemma backfill_second:
  assumes "rt_provider R = memory_provider from_ms" "cl_provider L = memory_provider from_ms"
    and "get_schedule R name g = (Inr (Some schedule), g)" "client_fireable schedule" "queue_known R schedule"
  shows "backfill_schedule R E clk name lo hi g = Some (Inr ids, runs, g') \<Longrightarrow>
      client_backfill_schedule L E clk' fresh name lo hi g' = Some (Inr ids, g')"
    and "client_backfill_schedule L E clk' fresh name lo hi g = Some (Inr ids, g') \<Longrightarrow>
      backfill_schedule R E clk name lo hi g' = Some (Inr ids, [], g')"
proof -
  note n = get_schedule_named [OF assms(3)] and get = get_schedule_store [OF assms(1,3)]
  have cget: "client_get_schedule L name = get_schedule R name"
    by (rule client_get_schedule_eq) (simp add: assms(1,2))
  {
    assume "backfill_schedule R E clk name lo hi g = Some (Inr ids, runs, g')"
    then obtain cron ts where c: "parse_cron E (sch_schedule schedule) = Inr cron"
        "cron_ticks_between E cron (sch_cron_timezone schedule) lo hi = Some ts"
        "backfill_loop R E schedule clk 0 ts g = (Inr ids, runs, g')"
      by (auto simp: backfill_schedule_def assms(3) backfill_ticks_def split: sum.splits)
    note f = engine_backfill_fired [OF assms(1) c(3)]
    with client_backfill_fired [OF assms(2,4), of ts E clk' fresh 0 g'] get [of g']
    show "client_backfill_schedule L E clk' fresh name lo hi g' = Some (Inr ids, g')"
      by (auto simp: client_backfill_schedule_def cget c(1,2) n)
  next
    assume "client_backfill_schedule L E clk' fresh name lo hi g = Some (Inr ids, g')"
    then obtain cron ts where c: "parse_cron E (sch_schedule schedule) = Inr cron"
        "cron_ticks_between E cron (sch_cron_timezone schedule) lo hi = Some ts"
        "client_backfill_loop L E schedule name clk' fresh 0 ts g = Some (Inr ids, g')"
      by (auto simp: client_backfill_schedule_def cget assms(3) split: sum.splits option.splits)
    note i = client_backfill_inputs [OF c(3)]
    from client_backfill_fired [OF assms(2,4) i, of clk' fresh 0 g] c(3) n
    have f: "ids = map (tick_id E schedule) ts" "schedules g' = schedules g"
      "\<forall>t \<in> set ts. hm_contains (workflows g') (tick_id E schedule t)" by auto
    then have "backfill_loop R E schedule clk 0 ts g' = (Inr ids, [], g')"
      using engine_backfill_present [OF assms(1,5)] i by blast
    with get [OF f(2)] show "backfill_schedule R E clk name lo hi g' = Some (Inr ids, [], g')"
      by (simp add: backfill_schedule_def backfill_ticks_def c(1,2))
  }
qed

text \<open>
  C19. Engine and client backfill are interchangeable: over the same store they fire a schedule's ticks
  under the same ids, so whichever comes second, over the same interval, returns the same ids, changes
  nothing and starts nothing.
\<close>

theorem backfills_interchange:
  assumes "rt_provider R = memory_provider from_ms" "cl_provider L = memory_provider from_ms"
    and "get_schedule R name g = (Inr (Some schedule), g)" "client_fireable schedule" "queue_known R schedule"
  shows "(\<forall>ids runs g'. backfill_schedule R E clk name lo hi g = Some (Inr ids, runs, g') \<longrightarrow>
      client_backfill_schedule L E clk' fresh name lo hi g' = Some (Inr ids, g')) \<and>
    (\<forall>ids g'. client_backfill_schedule L E clk' fresh name lo hi g = Some (Inr ids, g') \<longrightarrow>
      backfill_schedule R E clk name lo hi g' = Some (Inr ids, [], g'))"
  using backfill_second [OF assms] by blast

theorem backfills_interchange_witness:
  "let g = snd (create_schedule wit_schedule wit_store); L = client_new (memory_provider wit_from_ms) in
   \<exists>ids runs g'. backfill_schedule wit_runtime wit_cron (\<lambda>n. 0) ''s'' 5 30 g = Some (Inr ids, runs, g') \<and>
     client_backfill_schedule L wit_cron (\<lambda>n. 1) (\<lambda>n. []) ''s'' 5 30 g' = Some (Inr ids, g')"
proof -
  let ?g = "snd (create_schedule wit_schedule wit_store)" and ?L = "client_new (memory_provider wit_from_ms)"
  have r: "rt_provider wit_runtime = memory_provider wit_from_ms" "cl_provider ?L = memory_provider wit_from_ms"
    "client_fireable wit_schedule" "queue_known wit_runtime wit_schedule"
    by (simp_all add: wit_runtime_def client_new_def client_fireable_def wit_schedule_simps queue_known_def is_none_or_def)
  have "schedules wit_store = []" by code_simp
  then have s: "get_schedule wit_runtime ''s'' ?g = (Inr (Some wit_schedule), ?g)"
    by (simp add: get_schedule_def r memory_provider_def and_then_def list_schedules_def create_schedule_def hm_contains_def
        wit_schedule_simps hm_values_def schedule_matches_def schedule_filter_default_def starts_with_def ok_def)
  have "\<forall>t. \<exists>input. ce_to_value wit_cron (tick_input wit_schedule t) = Inr input" "inj (ce_rfc3339 wit_cron)"
    by (auto simp: wit_cron_def inj_def split: if_splits)
  moreover have "parse_cron wit_cron (sch_schedule wit_schedule) = Inr ()"
    by (simp add: parse_cron_def wit_cron_def wit_schedule_simps)
  moreover obtain ts where "cron_ticks_between wit_cron () None 5 30 = Some ts" "sorted_wrt (<) ts"
    using ticks_loop_exact [OF wit_cron_ok, of 30 "[]" 5] by (auto simp: cron_ticks_between_def)
  ultimately obtain ids runs g' where
    "backfill_schedule wit_runtime wit_cron (\<lambda>n. 0) ''s'' 5 30 ?g = Some (Inr ids, runs, g')"
    using backfill_loop_exact [OF r(1,4), of wit_cron ts "\<lambda>n. 0" 0 ?g]
    by (auto simp: backfill_schedule_def s backfill_ticks_def wit_schedule_simps strict_sorted_iff)
  with backfills_interchange [OF r(1,2) s r(3,4), of wit_cron "\<lambda>n. 0" 5 30 "\<lambda>n. 1" "\<lambda>n. []"] show ?thesis by (auto simp: Let_def)
qed

end
