(* ===== verification/Debounce.thy ===== *)
theory Debounce
  imports Client
begin

text \<open>
  Debouncing, \<open>src/src/debounce.rs\<close>: the collector workflow that gathers pushed-backend inputs and starts
  the target once, and the producers that start or nudge a collector, from an engine or from a client.
  The derived serde forms of the collector's input and messages are parameters.
\<close>

definition DEBOUNCER_TOPIC :: string where
  "DEBOUNCER_TOPIC = ''_dbos_debouncer_topic''"

section \<open>Options of the target\<close>

record target_options =
  to_queue :: "string option"
  to_priority :: int
  to_partition_key :: "string option"
  to_app_version :: "string option"
  to_timeout_ms :: "int option"
  to_authenticated_user :: "string option"
  to_assumed_role :: "string option"
  to_authenticated_roles :: "string list"

definition target_options_default :: target_options where
  "target_options_default =
     \<lparr> to_queue = None, to_priority = 0, to_partition_key = None, to_app_version = None, to_timeout_ms = None,
       to_authenticated_user = None, to_assumed_role = None, to_authenticated_roles = [] \<rparr>"

definition from_options :: "workflow_options \<Rightarrow> target_options" where
  "from_options o' =
     \<lparr> to_queue = wo_queue o', to_priority = wo_priority o', to_partition_key = wo_partition_key o',
       to_app_version = wo_app_version o', to_timeout_ms = map_option as_millis_i64 (wo_timeout o'),
       to_authenticated_user = wo_authenticated_user o', to_assumed_role = wo_assumed_role o',
       to_authenticated_roles = wo_authenticated_roles o' \<rparr>"

text \<open>\<open>ms as u64\<close> reads a negative number modulo 2^64.\<close>

definition into_options :: "target_options \<Rightarrow> string \<Rightarrow> workflow_options" where
  "into_options t target_id =
     (with_id target_id)
       \<lparr> wo_queue := to_queue t, wo_priority := to_priority t, wo_partition_key := to_partition_key t,
         wo_app_version := to_app_version t,
         wo_timeout := map_option (\<lambda>ms. from_millis (nat (ms mod 2 ^ 64))) (to_timeout_ms t),
         wo_authenticated_user := to_authenticated_user t, wo_assumed_role := to_assumed_role t,
         wo_authenticated_roles := to_authenticated_roles t \<rparr>"

record debouncer_input =
  di_target_name :: string
  di_target_id :: string
  di_delay_ms :: int
  di_timeout_ms :: int
  di_initial_input :: json
  di_target_opts :: target_options

record debounce_message =
  dm_input :: json
  dm_delay_ms :: int
  dm_id :: string

text \<open>The serde forms used: of the input, of a message, of an \<open>i64\<close>.\<close>

record debounce_serde =
  ds_input :: "debouncer_input serde"
  ds_message :: "debounce_message serde"
  ds_i64 :: "int serde"

section \<open>The collector\<close>

definition cap_at :: "int \<Rightarrow> int \<Rightarrow> int \<Rightarrow> int" where
  "cap_at timeout_ms max_ms t = (if timeout_ms > 0 \<and> t > max_ms then max_ms else t)"

text \<open>
  The loop: \<open>now_ms\<close> is the reading of the clock as a step body, \<open>rfuel\<close> the rounds a \<open>recv\<close> may poll.
  The result is the input to start the target with.
\<close>

fun collect_loop ::
    "'s ctx_env \<Rightarrow> debounce_serde \<Rightarrow> ('x, int) body \<Rightarrow> int \<Rightarrow> int \<Rightarrow> nat \<Rightarrow> nat \<Rightarrow> json \<Rightarrow> int \<Rightarrow> ('s, 'x) ctx_state
       \<Rightarrow> (json result \<times> ('s, 'x) ctx_state) option" where
  "collect_loop C D now_ms timeout_ms max_ms rfuel 0 current target_ms s = None"
| "collect_loop C D now_ms timeout_ms max_ms rfuel (Suc fuel) current target_ms s =
     (case step C (ds_i64 D) ''DBOS.debounce.loopTime'' now_ms s of
        (Inl e, s1) \<Rightarrow> Some (Inl e, s1)
      | (Inr now, s1) \<Rightarrow>
          (let remaining = i64_wrap (target_ms - now) in
           if remaining \<le> 0 then Some (Inr current, s1)
           else
             (case recv C (ds_message D) DEBOUNCER_TOPIC (from_millis (nat remaining)) rfuel s1 of
                None \<Rightarrow> None
              | Some (Inl e, s2) \<Rightarrow> Some (Inl e, s2)
              | Some (Inr None, s2) \<Rightarrow> Some (Inr current, s2)
              | Some (Inr (Some msg), s2) \<Rightarrow>
                  (case (if dm_id msg \<noteq> [] then set_event C (dm_id msg) (Inr (JBool True)) s2 else ok () s2) of
                     (Inl e, s3) \<Rightarrow> Some (Inl e, s3)
                   | (Inr _, s3) \<Rightarrow>
                       collect_loop C D now_ms timeout_ms max_ms rfuel fuel (dm_input msg)
                         (cap_at timeout_ms max_ms (i64_wrap (now + dm_delay_ms msg))) s3))))"

declare collect_loop.simps(2) [simp del]

definition internal_debouncer ::
    "('s, 'h) runtime \<Rightarrow> 's ctx_env \<Rightarrow> debounce_serde \<Rightarrow> ('x, int) body \<Rightarrow> nat \<Rightarrow> nat \<Rightarrow> debouncer_input
       \<Rightarrow> ('s, 'x) ctx_state \<Rightarrow> ((string \<times> 'h spawned_run option) result \<times> ('s, 'x) ctx_state) option" where
  "internal_debouncer R C D now_ms rfuel fuel input s =
     (case step C (ds_i64 D) ''DBOS.debounce.startTime'' now_ms s of
        (Inl e, s1) \<Rightarrow> Some (Inl e, s1)
      | (Inr t0, s1) \<Rightarrow>
          (let max_ms = i64_wrap (t0 + di_timeout_ms input) in
           case collect_loop C D now_ms (di_timeout_ms input) max_ms rfuel fuel (di_initial_input input)
                  (cap_at (di_timeout_ms input) max_ms (i64_wrap (t0 + di_delay_ms input))) s1 of
             None \<Rightarrow> None
           | Some (Inl e, s2) \<Rightarrow> Some (Inl e, s2)
           | Some (Inr current, s2) \<Rightarrow>
               Some (start_workflow R C (di_target_name input) (Inr current)
                 (into_options (di_target_opts input) (di_target_id input)) s2)))"

section \<open>Producers\<close>

text \<open>
  The producer-side operations, a trait of the code. Every call is given the number of the round it
  is made in, for its clock readings and fresh ids.
\<close>

record 's debounce_backend =
  db_provider :: "'s provider"
  db_enqueue :: "debouncer_input \<Rightarrow> string \<Rightarrow> nat \<Rightarrow> 's \<Rightarrow> (unit result \<times> 's) option"
  db_send :: "string \<Rightarrow> debounce_message \<Rightarrow> nat \<Rightarrow> ('s, unit) op"
  db_ack :: "string \<Rightarrow> string \<Rightarrow> nat \<Rightarrow> 's \<Rightarrow> (bool option result \<times> 's) option"

definition collector_options :: "string \<Rightarrow> workflow_options" where
  "collector_options key =
     workflow_options_default \<lparr> wo_dedup_id := Some key, wo_queue := Some INTERNAL_QUEUE \<rparr>"

text \<open>
  The clocks, ids and surroundings of a producer: \<open>pe_late n k\<close> is whether the acknowledgement timeout
  of round \<open>n\<close> has passed at its \<open>k\<close>-th look, \<open>pe_env n k\<close> what others do after that look.
\<close>

record 's producer_env =
  pe_clock :: "nat \<Rightarrow> datetime"
  pe_uuid :: "nat \<Rightarrow> string"
  pe_env :: "nat \<Rightarrow> nat \<Rightarrow> 's \<Rightarrow> 's"
  pe_late :: "nat \<Rightarrow> nat \<Rightarrow> bool"

definition bool_serde :: "bool serde" where
  "bool_serde =
     \<lparr> sd_to_value = (\<lambda>b. Inr (JBool b)),
       sd_from_value = (\<lambda>v. case v of JBool b \<Rightarrow> Inr b | _ \<Rightarrow> Inl (app ''invalid type: expected a boolean'')) \<rparr>"

definition engine_backend ::
    "('s, 'h) runtime \<Rightarrow> debounce_serde \<Rightarrow> 's producer_env \<Rightarrow> nat \<Rightarrow> 's debounce_backend" where
  "engine_backend R D E fuel =
     \<lparr> db_provider = rt_provider R,
       db_enqueue = (\<lambda>input key n s.
         map_option (\<lambda>(r, s'). (map_sum id (\<lambda>_. ()) r, s'))
           (start R (\<lambda>_ s. s) (\<lambda>k. pe_clock E (8 * n + k)) (pe_uuid E (4 * n)) DEBOUNCER_WF
              (sd_to_value (ds_input D) input) (collector_options key) 1 s)),
       db_send = (\<lambda>dest msg n. engine_send R dest (sd_to_value (ds_message D) msg) DEBOUNCER_TOPIC None
         (pe_uuid E (4 * n + 3)) (pe_clock E (8 * n + 4))),
       db_ack = (\<lambda>wid ack n. engine_get_event R bool_serde (pe_env E n) (pe_late E n) wid ack fuel 0) \<rparr>"

definition client_backend ::
    "'s client \<Rightarrow> debounce_serde \<Rightarrow> 's producer_env \<Rightarrow> nat \<Rightarrow> 's debounce_backend" where
  "client_backend L D E fuel =
     \<lparr> db_provider = cl_provider L,
       db_enqueue = (\<lambda>input key n s.
         map_option (\<lambda>(r, s'). (map_sum id (\<lambda>_. ()) r, s'))
           (enqueue L (\<lambda>_ s. s) (pe_clock E (8 * n)) (pe_clock E (8 * n + 1)) (pe_uuid E (4 * n)) INTERNAL_QUEUE
              DEBOUNCER_WF (sd_to_value (ds_input D) input)
              (workflow_options_default \<lparr> wo_dedup_id := Some key \<rparr>) 1 s)),
       db_send = (\<lambda>dest msg n. client_send L dest (sd_to_value (ds_message D) msg) DEBOUNCER_TOPIC None
         (pe_uuid E (4 * n + 3)) (pe_clock E (8 * n + 4))),
       db_ack = (\<lambda>wid ack n. client_get_event L bool_serde (pe_env E n) (pe_late E n) wid ack fuel 0) \<rparr>"

text \<open>
  The producer loop; \<open>uuid n\<close> are the ids drawn in round \<open>n\<close> for the target and for the message. It has
  no result while it is still retrying when the fuel runs out.
\<close>

fun run_debounce ::
    "'s debounce_backend \<Rightarrow> debounce_serde \<Rightarrow> (nat \<Rightarrow> string \<times> string) \<Rightarrow> string \<Rightarrow> duration \<Rightarrow> target_options \<Rightarrow> string
       \<Rightarrow> duration \<Rightarrow> json \<Rightarrow> nat \<Rightarrow> nat \<Rightarrow> 's \<Rightarrow> (string result \<times> 's) option" where
  "run_debounce B D uuid target timeout target_opts key delay input_val 0 n s = None"
| "run_debounce B D uuid target timeout target_opts key delay input_val (Suc fuel) n s =
     (let retry = run_debounce B D uuid target timeout target_opts key delay input_val fuel (Suc n) in
      case db_enqueue B
             \<lparr> di_target_name = target, di_target_id = fst (uuid n), di_delay_ms = as_millis_i64 delay,
               di_timeout_ms = as_millis_i64 timeout, di_initial_input = input_val, di_target_opts = target_opts \<rparr> key n s of
        None \<Rightarrow> None
      | Some (Inr _, s1) \<Rightarrow> Some (Inr (fst (uuid n)), s1)
      | Some (Inl e, s1) \<Rightarrow>
          if code e \<noteq> ErrorCode_QueueDeduplicated then Some (Inl e, s1)
          else
            (case pv_get_deduplicated_workflow (db_provider B) INTERNAL_QUEUE key s1 of
               (Inl e', s2) \<Rightarrow> Some (Inl e', s2)
             | (Inr None, s2) \<Rightarrow> retry s2
             | (Inr (Some existing), s2) \<Rightarrow>
                 (case pv_get_workflow_status (db_provider B) existing s2 of
                    (Inl e', s3) \<Rightarrow> Some (Inl e', s3)
                  | (Inr None, s3) \<Rightarrow> retry s3
                  | (Inr (Some status), s3) \<Rightarrow>
                      (case sd_from_value (ds_input D) (ws_input status) of
                         Inl e' \<Rightarrow> Some (Inl e', s3)
                       | Inr existing_input \<Rightarrow>
                           (case db_send B existing
                                  \<lparr> dm_input = input_val, dm_delay_ms = as_millis_i64 delay, dm_id = snd (uuid n) \<rparr> n s3 of
                              (Inl e', s4) \<Rightarrow> Some (Inl e', s4)
                            | (Inr _, s4) \<Rightarrow>
                                (case db_ack B existing (snd (uuid n)) n s4 of
                                   None \<Rightarrow> None
                                 | Some (Inl e', s5) \<Rightarrow> Some (Inl e', s5)
                                 | Some (Inr None, s5) \<Rightarrow> retry s5
                                 | Some (Inr (Some _), s5) \<Rightarrow> Some (Inr (di_target_id existing_input), s5)))))))"

declare run_debounce.simps(2) [simp del]

text \<open>A debouncer of either kind: what it is built with, and its call.\<close>

record 's debouncer =
  dbn_backend :: "'s debounce_backend"
  dbn_target :: string
  dbn_timeout :: duration
  dbn_target_opts :: target_options

definition debouncer_new :: "'s debounce_backend \<Rightarrow> string \<Rightarrow> 's debouncer" where
  "debouncer_new B target =
     \<lparr> dbn_backend = B, dbn_target = target, dbn_timeout = 0, dbn_target_opts = target_options_default \<rparr>"

definition debouncer_timeout :: "duration \<Rightarrow> 's debouncer \<Rightarrow> 's debouncer" where
  "debouncer_timeout timeout b = b \<lparr> dbn_timeout := timeout \<rparr>"

definition debouncer_options :: "workflow_options \<Rightarrow> 's debouncer \<Rightarrow> 's debouncer" where
  "debouncer_options opts b = b \<lparr> dbn_target_opts := from_options opts \<rparr>"

definition debounce ::
    "'s debouncer \<Rightarrow> debounce_serde \<Rightarrow> (nat \<Rightarrow> string \<times> string) \<Rightarrow> string \<Rightarrow> duration \<Rightarrow> json result \<Rightarrow> nat \<Rightarrow> 's
       \<Rightarrow> (string result \<times> 's) option" where
  "debounce b D uuid key delay input fuel s =
     (case input of
        Inl e \<Rightarrow> Some (Inl e, s)
      | Inr v \<Rightarrow> run_debounce (dbn_backend b) D uuid (dbn_target b) (dbn_timeout b) (dbn_target_opts b) key delay v fuel 0 s)"

section \<open>What producers rely on\<close>

text \<open>
  The contract of a backend over the in-memory store, for every configuration \<open>b\<close> that is \<open>ready\<close>: a
  collector is created when the slot of the key is free, refused with the deduplication code when it is
  held, and a message to an existing collector lands in its mailbox.
\<close>

locale collector_backend =
  fixes ready :: "'b \<Rightarrow> bool" and backend :: "'b \<Rightarrow> inner debounce_backend" and serde :: "'b \<Rightarrow> debounce_serde"
    and new_id :: "'b \<Rightarrow> nat \<Rightarrow> string" and note_id :: "'b \<Rightarrow> nat \<Rightarrow> string" and note_at :: "'b \<Rightarrow> nat \<Rightarrow> datetime"
  assumes store: "ready b \<Longrightarrow> \<exists>from_ms. db_provider (backend b) = memory_provider from_ms"
    and held: "ready b \<Longrightarrow> store_wf g \<Longrightarrow> row_of k g = Some w \<Longrightarrow> holds_slot INTERNAL_QUEUE key w \<Longrightarrow> k \<noteq> new_id b n \<Longrightarrow>
      \<exists>e. code e = ErrorCode_QueueDeduplicated \<and> db_enqueue (backend b) input key n g = Some (Inl e, g)"
    and free: "ready b \<Longrightarrow> store_wf g \<Longrightarrow> (\<forall>k w. row_of k g = Some w \<longrightarrow> \<not> holds_slot INTERNAL_QUEUE key w) \<Longrightarrow>
      row_of (new_id b n) g = None \<Longrightarrow>
      \<exists>r. db_enqueue (backend b) input key n g =
          Some (Inr (), g \<lparr> workflows := hm_or_insert (new_id b n) r (workflows g) \<rparr>) \<and>
        holds_slot INTERNAL_QUEUE key r \<and> ws_id r = new_id b n \<and> ws_name r = DEBOUNCER_WF \<and> ws_status r = STATUS_ENQUEUED \<and>
        sd_to_value (ds_input (serde b)) input = Inr (ws_input r)"
    and send: "ready b \<Longrightarrow> hm_contains (workflows g) dest \<Longrightarrow>
      \<exists>m. sd_to_value (ds_message (serde b)) msg = Inr m \<and>
        db_send (backend b) dest msg n g = (Inr (), g \<lparr> notifications := notifications g @
          [\<lparr> nr_message_uuid = note_id b n, nr_destination_id = dest, nr_topic = DEBOUNCER_TOPIC, nr_message = m,
             nr_consumed = False, nr_created_at_ms = timestamp_millis (note_at b n) \<rparr>] \<rparr>)"
begin

lemma first_call:
  assumes "ready b" "store_wf g" "\<forall>k w. row_of k g = Some w \<longrightarrow> \<not> holds_slot INTERNAL_QUEUE key w"
    and "row_of (new_id b n) g = None"
  shows "\<exists>r. run_debounce (backend b) (serde b) uuid target timeout topts key delay v (Suc fuel) n g =
      Some (Inr (fst (uuid n)), g \<lparr> workflows := hm_or_insert (new_id b n) r (workflows g) \<rparr>) \<and>
    holds_slot INTERNAL_QUEUE key r \<and> ws_id r = new_id b n \<and> ws_name r = DEBOUNCER_WF \<and> ws_status r = STATUS_ENQUEUED \<and>
    sd_to_value (ds_input (serde b))
      \<lparr> di_target_name = target, di_target_id = fst (uuid n), di_delay_ms = as_millis_i64 delay,
        di_timeout_ms = as_millis_i64 timeout, di_initial_input = v, di_target_opts = topts \<rparr> = Inr (ws_input r)"
  using free [OF assms, of "\<lparr> di_target_name = target, di_target_id = fst (uuid n), di_delay_ms = as_millis_i64 delay,
      di_timeout_ms = as_millis_i64 timeout, di_initial_input = v, di_target_opts = topts \<rparr>"]
  by (elim exE) (auto simp: run_debounce.simps Let_def)

lemma joining_call:
  assumes "ready b" "store_wf g" "dedup_unique g" "row_of k g = Some w" "holds_slot INTERNAL_QUEUE key w" "k \<noteq> new_id b n"
    and "sd_from_value (ds_input (serde b)) (ws_input w) = Inr inp"
  shows "\<exists>m g1. sd_to_value (ds_message (serde b)) \<lparr> dm_input = v, dm_delay_ms = as_millis_i64 delay, dm_id = snd (uuid n) \<rparr> =
      Inr m \<and>
    g1 = g \<lparr> notifications := notifications g @
          [\<lparr> nr_message_uuid = note_id b n, nr_destination_id = k, nr_topic = DEBOUNCER_TOPIC, nr_message = m,
             nr_consumed = False, nr_created_at_ms = timestamp_millis (note_at b n) \<rparr>] \<rparr> \<and>
    (\<forall>t g2. db_ack (backend b) k (snd (uuid n)) n g1 = Some (Inr (Some t), g2) \<longrightarrow>
       run_debounce (backend b) (serde b) uuid target timeout topts key delay v (Suc fuel) n g =
         Some (Inr (di_target_id inp), g2))"
proof -
  let ?p = "\<lambda>w. ws_queue_name w = Some INTERNAL_QUEUE \<and> ws_dedup_id w = Some key"
  obtain from_ms where p: "db_provider (backend b) = memory_provider from_ms" using store [OF assms(1)] by blast
  have in_vals: "w \<in> set (hm_values (workflows g))" using assms(2,4) by (auto simp: hm_values_iff store_wfD)
  then obtain w' where f: "find ?p (hm_values (workflows g)) = Some w'"
    using assms(5) by (cases "find ?p (hm_values (workflows g))") (auto simp: find_None_iff holds_slot_def)
  then have "?p w'" "w' \<in> set (hm_values (workflows g))" by (auto simp: find_Some_iff)
  then obtain k' where "row_of k' g = Some w'" "holds_slot INTERNAL_QUEUE key w'"
    using assms(2) by (auto simp: hm_values_iff store_wfD holds_slot_def)
  then have k: "ws_id w' = k" using assms(3-5) row_id [OF assms(2)] unfolding dedup_unique_def by metis
  have c: "hm_contains (workflows g) k" using assms(4) by (simp add: hm_contains_def)
  note h = held [OF assms(1,2,4,5,6)]
  let ?msg = "\<lparr> dm_input = v, dm_delay_ms = as_millis_i64 delay, dm_id = snd (uuid n) \<rparr>"
  from send [OF assms(1) c, of ?msg n] obtain m where
    m: "sd_to_value (ds_message (serde b)) ?msg = Inr m" and
    s: "db_send (backend b) k ?msg n g = (Inr (), g \<lparr> notifications := notifications g @
          [\<lparr> nr_message_uuid = note_id b n, nr_destination_id = k, nr_topic = DEBOUNCER_TOPIC, nr_message = m,
             nr_consumed = False, nr_created_at_ms = timestamp_millis (note_at b n) \<rparr>] \<rparr>)" by blast
  have "get_deduplicated_workflow INTERNAL_QUEUE key g = (Inr (Some k), g)"
    by (simp add: get_deduplicated_workflow_def f k)
  moreover have "get_workflow_status k g = (Inr (Some w), g)" by (simp add: get_workflow_status_def assms(4))
  moreover obtain e where "code e = ErrorCode_QueueDeduplicated"
    "db_enqueue (backend b) \<lparr> di_target_name = target, di_target_id = fst (uuid n), di_delay_ms = as_millis_i64 delay,
       di_timeout_ms = as_millis_i64 timeout, di_initial_input = v, di_target_opts = topts \<rparr> key n g = Some (Inl e, g)"
    using h by blast
  ultimately show ?thesis
    by (intro exI [of _ m] exI conjI) (auto simp: m run_debounce.simps Let_def p memory_provider_def assms(7) s)
qed

end

section \<open>Both producers keep the contract\<close>

definition serde_total :: "debounce_serde \<Rightarrow> bool" where
  "serde_total D \<longleftrightarrow> (\<forall>x. \<exists>j. sd_to_value (ds_input D) x = Inr j) \<and> (\<forall>x. \<exists>j. sd_to_value (ds_message D) x = Inr j)"

type_synonym 'h engine_producer = "(inner, 'h) runtime \<times> debounce_serde \<times> inner producer_env \<times> nat"

type_synonym client_producer = "inner client \<times> debounce_serde \<times> inner producer_env \<times> nat"

text \<open>Every engine registers the collector and the internal queue when it is built.\<close>

fun engine_ready :: "'h engine_producer \<Rightarrow> bool" where
  "engine_ready (R, D, E, fuel) \<longleftrightarrow>
     (\<exists>from_ms. rt_provider R = memory_provider from_ms) \<and> serde_total D \<and> hm_contains (rt_workflows R) DEBOUNCER_WF \<and>
     hm_contains (rt_queues R) INTERNAL_QUEUE \<and> (\<forall>n. pe_uuid E n \<noteq> [])"

fun client_ready :: "client_producer \<Rightarrow> bool" where
  "client_ready (L, D, E, fuel) \<longleftrightarrow> (\<exists>from_ms. cl_provider L = memory_provider from_ms) \<and> serde_total D"

lemma dedup_conflict_held:
  assumes "store_wf g" "row_of k g = Some w" "holds_slot q d w" "k \<noteq> ws_id r" "holds_slot q d r"
  shows "dedup_conflict g r = Some (queue_deduplicated q d)"
proof -
  have "w \<in> set (hm_values (workflows g))" "ws_id w = k"
    using assms(1,2) row_id by (auto simp: hm_values_iff store_wfD)
  then show ?thesis using assms(3-5) by (auto simp: dedup_conflict_def holds_slot_def list_ex_iff)
qed

lemma dedup_conflict_free:
  assumes "store_wf g" "\<forall>k w. row_of k g = Some w \<longrightarrow> \<not> holds_slot q d w" "holds_slot q d r"
  shows "dedup_conflict g r = None"
  using assms by (auto simp: dedup_conflict_def holds_slot_def list_ex_iff hm_values_iff store_wfD)

definition engine_backend_of :: "'h engine_producer \<Rightarrow> inner debounce_backend" where
  "engine_backend_of b = (case b of (R, D, E, fuel) \<Rightarrow> engine_backend R D E fuel)"

definition client_backend_of :: "client_producer \<Rightarrow> inner debounce_backend" where
  "client_backend_of b = (case b of (L, D, E, fuel) \<Rightarrow> client_backend L D E fuel)"

abbreviation collector_id :: "'r \<times> debounce_serde \<times> inner producer_env \<times> nat \<Rightarrow> nat \<Rightarrow> string" where
  "collector_id b n \<equiv> pe_uuid (fst (snd (snd b))) (4 * n)"

abbreviation message_id :: "'r \<times> debounce_serde \<times> inner producer_env \<times> nat \<Rightarrow> nat \<Rightarrow> string" where
  "message_id b n \<equiv> pe_uuid (fst (snd (snd b))) (4 * n + 3)"

abbreviation message_at :: "'r \<times> debounce_serde \<times> inner producer_env \<times> nat \<Rightarrow> nat \<Rightarrow> datetime" where
  "message_at b n \<equiv> pe_clock (fst (snd (snd b))) (8 * n + 4)"

lemma collector_options_fields [simp]:
  "wo_queue (collector_options key) = Some INTERNAL_QUEUE" "wo_dedup_id (collector_options key) = Some key"
  "wo_delay (collector_options key) = None" "wo_dedup_policy (collector_options key) = Reject"
  "wo_config_name (collector_options key) = None" "wo_workflow_id (collector_options key) = None"
  by (simp_all add: collector_options_def workflow_options_default_def)

text \<open>Both backends insert the same kind of row; \<open>collector_row\<close> is what they agree on.\<close>

definition collector_row :: "string \<Rightarrow> string \<Rightarrow> json \<Rightarrow> workflow_status \<Rightarrow> bool" where
  "collector_row wid key j r \<longleftrightarrow> holds_slot INTERNAL_QUEUE key r \<and> ws_id r = wid \<and> ws_name r = DEBOUNCER_WF \<and>
     ws_status r = STATUS_ENQUEUED \<and> ws_input r = j"

lemma engine_enqueue:
  assumes "rt_provider R = memory_provider from_ms" "hm_contains (rt_workflows R) DEBOUNCER_WF"
    and "hm_contains (rt_queues R) INTERNAL_QUEUE" "pe_uuid E (4 * n) \<noteq> []" "sd_to_value (ds_input D) input = Inr j"
  shows "\<exists>r. collector_row (pe_uuid E (4 * n)) key j r \<and>
    db_enqueue (engine_backend R D E fuel) input key n g =
      (case insert_workflow_status r g of (x, g') \<Rightarrow> Some (map_sum id (\<lambda>_. ()) x, g'))"
proof -
  obtain h where h: "hm_get (rt_workflows R) (registry_key DEBOUNCER_WF None) = Some h"
    using assms(2) by (auto simp: registry_key_def hm_contains_def)
  let ?r = "run_row R (pe_uuid E (4 * n)) DEBOUNCER_WF j (collector_options key) None (opts_auth (collector_options key))
      (pe_clock E (8 * n)) (pe_clock E (8 * n + 1))"
  have "collector_row (pe_uuid E (4 * n)) key j ?r"
    by (simp add: collector_row_def holds_slot_def run_row_def run_status_def Let_def workflow_status_new_def)
  moreover have "insert_run R (pe_uuid E (4 * n)) DEBOUNCER_WF j (collector_options key) None (opts_auth (collector_options key))
      (pe_clock E (8 * n)) (pe_clock E (8 * n + 1)) g =
      (case insert_workflow_status ?r g of (Inl e, g') \<Rightarrow> (Inl e, g') | (Inr (c, f), g') \<Rightarrow> (Inr (c, True, f), g'))"
    using assms(3) by (auto simp: insert_run_def assms(1) memory_provider_def and_then_def split: sum.splits prod.splits)
  ultimately show ?thesis
    by (intro exI [of _ ?r])
       (auto simp: engine_backend_def start_def resolve_id_def assms(5) h start_loop.simps split: prod.splits sum.splits)
qed

lemma client_enqueue_eq:
  assumes "cl_provider L = memory_provider from_ms" "sd_to_value (ds_input D) input = Inr j"
  shows "\<exists>r. collector_row (pe_uuid E (4 * n)) key j r \<and>
    db_enqueue (client_backend L D E fuel) input key n g =
      (case insert_workflow_status r g of (x, g') \<Rightarrow> Some (map_sum id (\<lambda>_. ()) x, g'))"
proof -
  let ?o = "workflow_options_default \<lparr> wo_dedup_id := Some key \<rparr>"
  have o: "wo_partition_key workflow_options_default = None" "wo_dedup_policy workflow_options_default = Reject"
    "wo_workflow_id workflow_options_default = None" "wo_delay workflow_options_default = None"
    by (simp_all add: workflow_options_default_def)
  let ?r = "enqueue_row L (pe_uuid E (4 * n)) INTERNAL_QUEUE DEBOUNCER_WF j ?o (pe_clock E (8 * n)) (pe_clock E (8 * n + 1))"
  have "collector_row (pe_uuid E (4 * n)) key j ?r" by (simp add: collector_row_def holds_slot_def o)
  moreover have "INTERNAL_QUEUE \<noteq> []" "DEBOUNCER_WF \<noteq> []" by (simp_all add: INTERNAL_QUEUE_def DEBOUNCER_WF_def)
  ultimately show ?thesis
    by (intro exI [of _ ?r])
       (auto simp: client_backend_def enqueue_def enqueue_checks_def o assms enqueue_loop.simps memory_provider_def
          split: prod.splits sum.splits)
qed

lemma insert_collector_held:
  assumes "store_wf g" "row_of k g = Some w" "holds_slot INTERNAL_QUEUE key w" "k \<noteq> wid" "collector_row wid key j r"
  shows "insert_workflow_status r g = (Inl (queue_deduplicated INTERNAL_QUEUE key), g)"
  using dedup_conflict_held [OF assms(1-3), of r] assms(4,5)
  by (simp add: insert_workflow_status_def collector_row_def)

lemma insert_collector_free:
  assumes "store_wf g" "\<forall>k w. row_of k g = Some w \<longrightarrow> \<not> holds_slot INTERNAL_QUEUE key w" "row_of wid g = None"
    and "collector_row wid key j r"
  shows "insert_workflow_status r g = (Inr (r, True), g \<lparr> workflows := hm_or_insert wid r (workflows g) \<rparr>)"
  using dedup_conflict_free [OF assms(1,2), of r] assms(3,4)
  by (simp add: insert_workflow_status_def collector_row_def Let_def hm_contains_def)

lemma code_deduplicated: "code (queue_deduplicated q d) = ErrorCode_QueueDeduplicated"
  by (simp add: queue_deduplicated_def)

lemma insert_note:
  "hm_contains (workflows g) dest \<Longrightarrow> insert_notification dest topic m None u at g =
     (Inr (), g \<lparr> notifications := notifications g @
        [\<lparr> nr_message_uuid = u, nr_destination_id = dest, nr_topic = topic, nr_message = m, nr_consumed = False,
           nr_created_at_ms = timestamp_millis at \<rparr>] \<rparr>)"
  by (simp add: insert_notification_def Let_def)

text \<open>
  How both producers do it: they insert a collector row under a fresh id and notify through the
  provider. That is enough for the contract.
\<close>

locale inserting_backend =
  fixes ready :: "'b \<Rightarrow> bool" and backend :: "'b \<Rightarrow> inner debounce_backend" and serde :: "'b \<Rightarrow> debounce_serde"
    and new_id :: "'b \<Rightarrow> nat \<Rightarrow> string" and note_id :: "'b \<Rightarrow> nat \<Rightarrow> string" and note_at :: "'b \<Rightarrow> nat \<Rightarrow> datetime"
  assumes over_store: "ready b \<Longrightarrow> \<exists>from_ms. db_provider (backend b) = memory_provider from_ms"
    and inserts: "ready b \<Longrightarrow> \<exists>j r. sd_to_value (ds_input (serde b)) input = Inr j \<and> collector_row (new_id b n) key j r \<and>
      db_enqueue (backend b) input key n g =
        (case insert_workflow_status r g of (x, g') \<Rightarrow> Some (map_sum id (\<lambda>_. ()) x, g'))"
    and notifies: "ready b \<Longrightarrow> \<exists>m. sd_to_value (ds_message (serde b)) msg = Inr m \<and>
      db_send (backend b) dest msg n = insert_notification dest DEBOUNCER_TOPIC m None (note_id b n) (note_at b n)"

sublocale inserting_backend \<subseteq> collector_backend
proof
  fix b assume r: "ready b"
  show "\<exists>from_ms. db_provider (backend b) = memory_provider from_ms" by (rule over_store [OF r])
  fix g :: inner and key n
  show "\<exists>e. code e = ErrorCode_QueueDeduplicated \<and> db_enqueue (backend b) input key n g = Some (Inl e, g)"
    if "store_wf g" "row_of k g = Some w" "holds_slot INTERNAL_QUEUE key w" "k \<noteq> new_id b n" for k w input
    using inserts [OF r, of input n key g] insert_collector_held [OF that] by (auto intro: code_deduplicated)
  show "\<exists>r. db_enqueue (backend b) input key n g =
        Some (Inr (), g \<lparr> workflows := hm_or_insert (new_id b n) r (workflows g) \<rparr>) \<and>
      holds_slot INTERNAL_QUEUE key r \<and> ws_id r = new_id b n \<and> ws_name r = DEBOUNCER_WF \<and> ws_status r = STATUS_ENQUEUED \<and>
      sd_to_value (ds_input (serde b)) input = Inr (ws_input r)"
    if "store_wf g" "\<forall>k w. row_of k g = Some w \<longrightarrow> \<not> holds_slot INTERNAL_QUEUE key w" "row_of (new_id b n) g = None" for input
    using inserts [OF r, of input n key g] insert_collector_free [OF that] by (auto simp: collector_row_def)
  show "\<exists>m. sd_to_value (ds_message (serde b)) msg = Inr m \<and>
      db_send (backend b) dest msg n g = (Inr (), g \<lparr> notifications := notifications g @
        [\<lparr> nr_message_uuid = note_id b n, nr_destination_id = dest, nr_topic = DEBOUNCER_TOPIC, nr_message = m,
           nr_consumed = False, nr_created_at_ms = timestamp_millis (note_at b n) \<rparr>] \<rparr>)"
    if "hm_contains (workflows g) dest" for dest msg
    using notifies [OF r, of msg dest n] by (auto simp: insert_note [OF that])
qed

interpretation engine_side: inserting_backend engine_ready engine_backend_of "\<lambda>b. fst (snd b)" collector_id message_id message_at
proof
  fix b :: "'h engine_producer" and input key n g msg dest
  assume r: "engine_ready b"
  obtain R D E fuel where b: "b = (R, D, E, fuel)" by (cases b)
  obtain from_ms where R: "rt_provider R = memory_provider from_ms" using r by (auto simp: b)
  have bk: "engine_backend_of b = engine_backend R D E fuel" by (simp add: engine_backend_of_def b)
  show "\<exists>from_ms. db_provider (engine_backend_of b) = memory_provider from_ms"
    by (auto simp: bk engine_backend_def R)
  obtain j m where "sd_to_value (ds_input D) input = Inr j" and m: "sd_to_value (ds_message D) msg = Inr m"
    using r by (auto simp: b serde_total_def) metis
  with r engine_enqueue [OF R, of E n D input j key fuel g]
  show "\<exists>j r. sd_to_value (ds_input (fst (snd b))) input = Inr j \<and> collector_row (collector_id b n) key j r \<and>
      db_enqueue (engine_backend_of b) input key n g =
        (case insert_workflow_status r g of (x, g') \<Rightarrow> Some (map_sum id (\<lambda>_. ()) x, g'))"
    by (auto simp: b bk [unfolded b])
  show "\<exists>m. sd_to_value (ds_message (fst (snd b))) msg = Inr m \<and> db_send (engine_backend_of b) dest msg n =
      insert_notification dest DEBOUNCER_TOPIC m None (message_id b n) (message_at b n)"
    by (simp add: bk [unfolded b] b engine_backend_def engine_send_def R memory_provider_def m)
qed

interpretation client_side: inserting_backend client_ready client_backend_of "\<lambda>b. fst (snd b)" collector_id message_id message_at
proof
  fix b :: client_producer and input key n g msg dest
  assume r: "client_ready b"
  obtain L D E fuel where b: "b = (L, D, E, fuel)" by (cases b)
  obtain from_ms where L: "cl_provider L = memory_provider from_ms" using r by (auto simp: b)
  have bk: "client_backend_of b = client_backend L D E fuel" by (simp add: client_backend_of_def b)
  show "\<exists>from_ms. db_provider (client_backend_of b) = memory_provider from_ms"
    by (auto simp: bk client_backend_def L)
  obtain j m where "sd_to_value (ds_input D) input = Inr j" and m: "sd_to_value (ds_message D) msg = Inr m"
    using r by (auto simp: b serde_total_def) metis
  with client_enqueue_eq [OF L, of D input j E n key fuel g]
  show "\<exists>j r. sd_to_value (ds_input (fst (snd b))) input = Inr j \<and> collector_row (collector_id b n) key j r \<and>
      db_enqueue (client_backend_of b) input key n g =
        (case insert_workflow_status r g of (x, g') \<Rightarrow> Some (map_sum id (\<lambda>_. ()) x, g'))"
    by (auto simp: b bk [unfolded b])
  show "\<exists>m. sd_to_value (ds_message (fst (snd b))) msg = Inr m \<and> db_send (client_backend_of b) dest msg n =
      insert_notification dest DEBOUNCER_TOPIC m None (message_id b n) (message_at b n)"
    by (simp add: bk [unfolded b] b client_backend_def client_send_def L memory_provider_def m)
qed

section \<open>Calls for a key share one run\<close>


subsection \<open>The derived encoding\<close>

text \<open>
  The encoding the derived \<open>Serialize\<close> and \<open>Deserialize\<close> of the two structs have: an object with the
  fields, absent options as null, \<open>target_opts\<close> defaulted when it is missing.
\<close>

definition opt_json :: "('a \<Rightarrow> json) \<Rightarrow> 'a option \<Rightarrow> json" where
  "opt_json f x = (case x of None \<Rightarrow> JNull | Some y \<Rightarrow> f y)"

fun json_string :: "json \<Rightarrow> string option" where
  "json_string (JString s) = Some s"
| "json_string _ = None"

fun json_int :: "json \<Rightarrow> int option" where
  "json_int (JInt i) = Some i"
| "json_int _ = None"

fun json_strings :: "json \<Rightarrow> string list option" where
  "json_strings (JArray js) = those (map json_string js)"
| "json_strings _ = None"

definition json_opt :: "(json \<Rightarrow> 'a option) \<Rightarrow> json \<Rightarrow> 'a option option" where
  "json_opt f j = (if is_null j then Some None else map_option Some (f j))"

fun json_field :: "string \<Rightarrow> json \<Rightarrow> json option" where
  "json_field k (JObject fs) = map_of fs k"
| "json_field k _ = None"

definition target_json :: "target_options \<Rightarrow> json" where
  "target_json t = JObject
     [(''queue'', opt_json JString (to_queue t)), (''priority'', JInt (to_priority t)),
      (''partition_key'', opt_json JString (to_partition_key t)), (''app_version'', opt_json JString (to_app_version t)),
      (''timeout_ms'', opt_json JInt (to_timeout_ms t)), (''authenticated_user'', opt_json JString (to_authenticated_user t)),
      (''assumed_role'', opt_json JString (to_assumed_role t)),
      (''authenticated_roles'', JArray (map JString (to_authenticated_roles t)))]"

definition json_target :: "json \<Rightarrow> target_options option" where
  "json_target j =
     Option.bind (Option.bind (json_field ''queue'' j) (json_opt json_string)) (\<lambda>a.
     Option.bind (Option.bind (json_field ''priority'' j) json_int) (\<lambda>b.
     Option.bind (Option.bind (json_field ''partition_key'' j) (json_opt json_string)) (\<lambda>c.
     Option.bind (Option.bind (json_field ''app_version'' j) (json_opt json_string)) (\<lambda>d.
     Option.bind (Option.bind (json_field ''timeout_ms'' j) (json_opt json_int)) (\<lambda>e.
     Option.bind (Option.bind (json_field ''authenticated_user'' j) (json_opt json_string)) (\<lambda>f.
     Option.bind (Option.bind (json_field ''assumed_role'' j) (json_opt json_string)) (\<lambda>g.
     Option.bind (Option.bind (json_field ''authenticated_roles'' j) json_strings) (\<lambda>h.
       Some \<lparr> to_queue = a, to_priority = b, to_partition_key = c, to_app_version = d, to_timeout_ms = e,
              to_authenticated_user = f, to_assumed_role = g, to_authenticated_roles = h \<rparr>))))))))"

definition input_json :: "debouncer_input \<Rightarrow> json" where
  "input_json x = JObject
     [(''target_name'', JString (di_target_name x)), (''target_id'', JString (di_target_id x)),
      (''delay_ms'', JInt (di_delay_ms x)), (''timeout_ms'', JInt (di_timeout_ms x)),
      (''initial_input'', di_initial_input x), (''target_opts'', target_json (di_target_opts x))]"

definition json_input :: "json \<Rightarrow> debouncer_input option" where
  "json_input j =
     Option.bind (Option.bind (json_field ''target_name'' j) json_string) (\<lambda>a.
     Option.bind (Option.bind (json_field ''target_id'' j) json_string) (\<lambda>b.
     Option.bind (Option.bind (json_field ''delay_ms'' j) json_int) (\<lambda>c.
     Option.bind (Option.bind (json_field ''timeout_ms'' j) json_int) (\<lambda>d.
     Option.bind (json_field ''initial_input'' j) (\<lambda>e.
     Option.bind (case json_field ''target_opts'' j of None \<Rightarrow> Some target_options_default | Some t \<Rightarrow> json_target t) (\<lambda>f.
       Some \<lparr> di_target_name = a, di_target_id = b, di_delay_ms = c, di_timeout_ms = d, di_initial_input = e,
              di_target_opts = f \<rparr>))))))"

definition message_json :: "debounce_message \<Rightarrow> json" where
  "message_json m = JObject
     [(''input'', dm_input m), (''delay_ms'', JInt (dm_delay_ms m)), (''id'', JString (dm_id m))]"

definition json_message :: "json \<Rightarrow> debounce_message option" where
  "json_message j =
     Option.bind (json_field ''input'' j) (\<lambda>a.
     Option.bind (Option.bind (json_field ''delay_ms'' j) json_int) (\<lambda>b.
     Option.bind (Option.bind (json_field ''id'' j) json_string) (\<lambda>c.
       Some \<lparr> dm_input = a, dm_delay_ms = b, dm_id = c \<rparr>)))"

definition or_decode_error :: "'a option \<Rightarrow> 'a result" where
  "or_decode_error x = (case x of None \<Rightarrow> Inl (app ''invalid type'') | Some y \<Rightarrow> Inr y)"

definition derived_serde :: debounce_serde where
  "derived_serde =
     \<lparr> ds_input = \<lparr> sd_to_value = (\<lambda>x. Inr (input_json x)), sd_from_value = (\<lambda>j. or_decode_error (json_input j)) \<rparr>,
       ds_message = \<lparr> sd_to_value = (\<lambda>m. Inr (message_json m)), sd_from_value = (\<lambda>j. or_decode_error (json_message j)) \<rparr>,
       ds_i64 = \<lparr> sd_to_value = (\<lambda>i. Inr (JInt i)), sd_from_value = (\<lambda>j. or_decode_error (json_int j)) \<rparr> \<rparr>"

lemma json_opt_round [simp]: "json_opt json_string (opt_json JString x) = Some x" "json_opt json_int (opt_json JInt y) = Some y"
  by (cases x; simp add: json_opt_def opt_json_def) (cases y; simp add: json_opt_def opt_json_def)

lemma those_Some [simp]: "those (map Some xs) = Some xs"
  by (induction xs) auto

lemma debounce_round_trip:
  "json_input (input_json x) = Some x \<and> json_message (message_json m) = Some m"
proof -
  have "json_target (target_json t) = Some t" for t by (simp add: json_target_def target_json_def o_def)
  then show ?thesis by (simp add: json_input_def input_json_def json_message_def message_json_def)
qed

lemma derived_total: "serde_total derived_serde"
  by (simp add: serde_total_def derived_serde_def)

definition wit_producer :: "inner producer_env" where
  "wit_producer = \<lparr> pe_clock = (\<lambda>n. int n), pe_uuid = (\<lambda>n. replicate (Suc n) CHR ''u''), pe_env = (\<lambda>_ _ g. g), pe_late = (\<lambda>_ k. k > 0) \<rparr>"

definition wit_engine_producer :: "(inner, nat) wf_fn engine_producer" where
  "wit_engine_producer = (wit_runtime \<lparr> rt_workflows := [(DEBOUNCER_WF, wit_handler)] \<rparr>, derived_serde, wit_producer, 1)"

definition wit_client_producer :: client_producer where
  "wit_client_producer = (client_new (memory_provider wit_from_ms), derived_serde, wit_producer, 1)"


section \<open>The collector\<close>

text \<open>The readings the collector makes, and the message received after each.\<close>

fun collect_trace ::
    "'s ctx_env \<Rightarrow> debounce_serde \<Rightarrow> ('x, int) body \<Rightarrow> int \<Rightarrow> int \<Rightarrow> nat \<Rightarrow> nat \<Rightarrow> int \<Rightarrow> ('s, 'x) ctx_state
       \<Rightarrow> (int \<times> debounce_message option) list" where
  "collect_trace C D now_ms timeout_ms max_ms rfuel 0 target_ms s = []"
| "collect_trace C D now_ms timeout_ms max_ms rfuel (Suc fuel) target_ms s =
     (case step C (ds_i64 D) ''DBOS.debounce.loopTime'' now_ms s of
        (Inl e, s1) \<Rightarrow> []
      | (Inr now, s1) \<Rightarrow>
          if i64_wrap (target_ms - now) \<le> 0 then [(now, None)]
          else
            (case recv C (ds_message D) DEBOUNCER_TOPIC (from_millis (nat (i64_wrap (target_ms - now)))) rfuel s1 of
               Some (Inr (Some msg), s2) \<Rightarrow> (now, Some msg) #
                 (case (if dm_id msg \<noteq> [] then set_event C (dm_id msg) (Inr (JBool True)) s2 else ok () s2) of
                    (Inl e, s3) \<Rightarrow> []
                  | (Inr _, s3) \<Rightarrow> collect_trace C D now_ms timeout_ms max_ms rfuel fuel
                      (cap_at timeout_ms max_ms (i64_wrap (now + dm_delay_ms msg))) s3)
             | _ \<Rightarrow> [(now, None)]))"

declare collect_trace.simps(2) [simp del]

definition messages :: "(int \<times> debounce_message option) list \<Rightarrow> json list" where
  "messages tr = List.map_filter (map_option dm_input \<circ> snd) tr"

text \<open>Clock readings and delays far from the end of the 64-bit range.\<close>

definition trace_ok :: "(int \<times> debounce_message option) list \<Rightarrow> bool" where
  "trace_ok tr \<longleftrightarrow>
     list_all (\<lambda>(now, m). 0 \<le> now \<and> now \<le> 2 ^ 62 \<and> is_none_or (\<lambda>msg. 0 \<le> dm_delay_ms msg \<and> dm_delay_ms msg < 2 ^ 62) m) tr"

text \<open>What the collector does in \<open>fuel\<close> rounds, in terms of its readings and the messages received.\<close>

definition collects ::
    "int \<Rightarrow> nat \<Rightarrow> json \<Rightarrow> (int \<times> debounce_message option) list \<Rightarrow> (json result \<times> 't) option \<Rightarrow> bool" where
  "collects max_ms fuel current tr r \<longleftrightarrow>
     (case r of
        None \<Rightarrow> length tr = fuel \<and> list_all (\<lambda>(now, m). now < max_ms) tr
      | Some (Inr cur, s') \<Rightarrow> cur = last (current # messages tr)
      | Some (Inl e, s') \<Rightarrow> True)"

lemma collects_stop: "collects max_ms fuel current [(now, None)] (Some (Inr current, s'))"
  by (simp add: collects_def messages_def List.map_filter_def)

lemma collects_error: "collects max_ms fuel current tr (Some (Inl e, s'))"
  by (simp add: collects_def)

lemma collects_next:
  "collects max_ms fuel (dm_input msg) tr r \<Longrightarrow> now < max_ms \<Longrightarrow> collects max_ms (Suc fuel) current ((now, Some msg) # tr) r"
  by (auto simp: collects_def messages_def List.map_filter_def split: option.splits sum.splits prod.splits)

lemma collect_round:
  assumes "clock_unbounded C" "timeout_ms > 0" "0 \<le> max_ms" "0 \<le> target_ms" "target_ms \<le> max_ms"
  shows "\<exists>N. \<forall>rfuel \<ge> N. trace_ok (collect_trace C D now_ms timeout_ms max_ms rfuel fuel target_ms s) \<longrightarrow>
    collects max_ms fuel current (collect_trace C D now_ms timeout_ms max_ms rfuel fuel target_ms s)
      (collect_loop C D now_ms timeout_ms max_ms rfuel fuel current target_ms s)"
  using assms(4,5)
proof (induction fuel arbitrary: current target_ms s)
  case (Suc fuel)
  obtain x s1 where st: "step C (ds_i64 D) ''DBOS.debounce.loopTime'' now_ms s = (x, s1)" by fastforce
  show ?case
  proof (cases x)
    case (Inl e)
    then show ?thesis by (simp add: collect_loop.simps collect_trace.simps st collects_def)
  next
    case (Inr now)
    let ?rem = "i64_wrap (target_ms - now)"
    have rem: "now < max_ms" if "0 \<le> now" "now \<le> 2 ^ 62" "\<not> ?rem \<le> 0"
    proof (rule ccontr)
      assume "\<not> now < max_ms"
      then have "?rem = target_ms - now" using that Suc.prems by (intro i64_wrap_id) (auto simp: i64_max_def i64_min_def)
      with that(3) \<open>\<not> now < max_ms\<close> Suc.prems show False by simp
    qed
    obtain M r where rv: "\<forall>rfuel \<ge> M. recv C (ds_message D) DEBOUNCER_TOPIC (from_millis (nat ?rem)) rfuel s1 = Some r"
      unfolding recv_def using waiting_op_returns [OF assms(1)] ticks_take_message by meson
    consider (due) "?rem \<le> 0" | (failed) e s2 where "\<not> ?rem \<le> 0" "r = (Inl e, s2)"
      | (quiet) s2 where "\<not> ?rem \<le> 0" "r = (Inr None, s2)" | (pushed) msg s2 where "\<not> ?rem \<le> 0" "r = (Inr (Some msg), s2)"
      by (cases r; cases "fst r"; cases "projr (fst r)") auto
    then show ?thesis
    proof cases
      case (pushed msg s2)
      obtain y s3 where ev: "(if dm_id msg \<noteq> [] then set_event C (dm_id msg) (Inr (JBool True)) s2 else ok () s2) = (y, s3)"
        by fastforce
      let ?t = "cap_at timeout_ms max_ms (i64_wrap (now + dm_delay_ms msg))"
      have t: "0 \<le> ?t \<and> ?t \<le> max_ms" if "0 \<le> now" "now \<le> 2 ^ 62" "0 \<le> dm_delay_ms msg" "dm_delay_ms msg < 2 ^ 62"
      proof -
        have "i64_wrap (now + dm_delay_ms msg) = now + dm_delay_ms msg"
          using that by (intro i64_wrap_id) (auto simp: i64_max_def i64_min_def)
        then show ?thesis using that assms(2,3) by (auto simp: cap_at_def)
      qed
      obtain K where K: "0 \<le> ?t \<Longrightarrow> ?t \<le> max_ms \<Longrightarrow> K \<le> rfuel \<Longrightarrow>
          trace_ok (collect_trace C D now_ms timeout_ms max_ms rfuel fuel ?t s3) \<Longrightarrow>
          collects max_ms fuel (dm_input msg) (collect_trace C D now_ms timeout_ms max_ms rfuel fuel ?t s3)
            (collect_loop C D now_ms timeout_ms max_ms rfuel fuel (dm_input msg) ?t s3)" for rfuel
        using Suc.IH [of ?t s3 "dm_input msg"] by blast
      show ?thesis
      proof (intro exI [of _ "max M K"] allI impI)
        fix rfuel
        let ?tr = "collect_trace C D now_ms timeout_ms max_ms rfuel (Suc fuel) target_ms s"
        assume f: "max M K \<le> rfuel" and ok: "trace_ok ?tr"
        have tr: "?tr = (now, Some msg) # (case y of Inl e \<Rightarrow> [] | Inr _ \<Rightarrow>
            collect_trace C D now_ms timeout_ms max_ms rfuel fuel ?t s3)"
          using f by (simp add: collect_trace.simps st Inr rv pushed ev del: ok_def split: sum.splits)
        have lp: "collect_loop C D now_ms timeout_ms max_ms rfuel (Suc fuel) current target_ms s =
            (case y of Inl e \<Rightarrow> Some (Inl e, s3) | Inr _ \<Rightarrow>
               collect_loop C D now_ms timeout_ms max_ms rfuel fuel (dm_input msg) ?t s3)"
          using f by (simp add: collect_loop.simps st Inr rv pushed ev Let_def del: ok_def split: sum.splits)
        from ok have o: "0 \<le> now" "now \<le> 2 ^ 62" "0 \<le> dm_delay_ms msg" "dm_delay_ms msg < 2 ^ 62"
          by (simp_all add: tr trace_ok_def is_none_or_def)
        show "collects max_ms (Suc fuel) current ?tr
            (collect_loop C D now_ms timeout_ms max_ms rfuel (Suc fuel) current target_ms s)"
        proof (cases y)
          case (Inr u)
          then have "trace_ok (collect_trace C D now_ms timeout_ms max_ms rfuel fuel ?t s3)"
            using ok by (simp add: tr trace_ok_def)
          with K [of rfuel] t [OF o] f have "collects max_ms fuel (dm_input msg)
              (collect_trace C D now_ms timeout_ms max_ms rfuel fuel ?t s3)
              (collect_loop C D now_ms timeout_ms max_ms rfuel fuel (dm_input msg) ?t s3)" by simp
          from collects_next [OF this rem [OF o(1,2) pushed(1)]] show ?thesis unfolding tr lp by (simp add: Inr)
        qed (simp add: tr lp collects_def)
      qed
    qed (auto simp: collect_loop.simps collect_trace.simps st Inr rv collects_stop collects_error Let_def
        intro!: exI [of _ M])
  qed
qed (simp add: collects_def)


definition wit_debounce :: debouncer_input where
  "wit_debounce = \<lparr> di_target_name = ''wf'', di_target_id = ''t'', di_delay_ms = 5, di_timeout_ms = 7,
     di_initial_input = JInt 1, di_target_opts = target_options_default \<rparr>"

definition wit_now :: "(nat, int) body" where
  "wit_now n = (Returned (Inr (3 * int n)), Suc n)"


end
