(* ===== verification/Sqlite.thy ===== *)
theory Sqlite
  imports Provider
begin

text \<open>
  The SQLite provider, \<open>src/src/sqlite.rs\<close>. A table is the list of its rows in the order of insertion,
  and a statement is the function on tables that its SQL text denotes: the WHERE clause is a predicate
  (a comparison with NULL does not hold), an upsert looks for its conflict target first, and the schema's
  unique and foreign keys fail a statement. A statement list between \<open>begin\<close> and \<open>commit\<close> that fails
  leaves the database as it was. Stored payloads are texts written by the configured serializer.

  Columns that only an import can leave NULL are not optional here. Where SQL leaves the order of rows
  open, they come in insertion order. The user's own tables are the component \<open>db_user\<close>.
\<close>

section \<open>Tables\<close>

record status_row =
  sw_workflow_uuid :: string
  sw_status :: string
  sw_name :: string
  sw_authenticated_user :: "string option"
  sw_assumed_role :: "string option"
  sw_authenticated_roles :: "string option"
  sw_output :: "string option"
  sw_error :: "string option"
  sw_executor_id :: string
  sw_created_at :: int
  sw_updated_at :: int
  sw_application_version :: string
  sw_class_name :: "string option"
  sw_config_name :: "string option"
  sw_recovery_attempts :: int
  sw_queue_name :: "string option"
  sw_workflow_timeout_ms :: "int option"
  sw_workflow_deadline_epoch_ms :: "int option"
  sw_inputs :: "string option"
  sw_started_at_epoch_ms :: "int option"
  sw_deduplication_id :: "string option"
  sw_priority :: int
  sw_queue_partition_key :: "string option"
  sw_forked_from :: "string option"
  sw_parent_workflow_id :: "string option"
  sw_delay_until_epoch_ms :: "int option"
  sw_serialization :: "string option"
  sw_was_forked_from :: bool
  sw_rate_limited :: bool
  sw_completed_at :: "int option"

record output_row =
  oo_workflow_uuid :: string
  oo_function_id :: int
  oo_function_name :: string
  oo_output :: "string option"
  oo_error :: "string option"
  oo_child_workflow_id :: "string option"
  oo_serialization :: "string option"
  oo_started_at_epoch_ms :: "int option"
  oo_completed_at_epoch_ms :: "int option"

record message_row =
  no_message_uuid :: string
  no_destination_uuid :: string
  no_topic :: string
  no_message :: string
  no_serialization :: "string option"
  no_created_at_epoch_ms :: int
  no_consumed :: bool

record event_row =
  we_workflow_uuid :: string
  we_key :: string
  we_value :: string
  we_serialization :: "string option"

record stream_row =
  sm_workflow_uuid :: string
  sm_key :: string
  sm_value :: string
  sm_offset :: int
  sm_function_id :: int
  sm_serialization :: "string option"

record schedule_row =
  sc_schedule_id :: string
  sc_schedule_name :: string
  sc_workflow_name :: string
  sc_schedule :: string
  sc_status :: string
  sc_context :: string
  sc_last_fired_at :: "string option"
  sc_automatic_backfill :: bool
  sc_cron_timezone :: "string option"
  sc_queue_name :: "string option"

record version_row =
  ve_version_id :: string
  ve_version_name :: string
  ve_version_timestamp :: int
  ve_created_at :: int

record queue_row =
  qu_name :: string
  qu_concurrency :: "int option"
  qu_worker_concurrency :: "int option"
  qu_rate_limit_max :: "int option"
  qu_rate_limit_period_sec :: "64 word option"
  qu_priority_enabled :: bool
  qu_partition_queue :: bool
  qu_polling_interval_sec :: "64 word"

record 'u database =
  db_status :: "status_row list"
  db_outputs :: "output_row list"
  db_notifications :: "message_row list"
  db_events :: "event_row list"
  db_streams :: "stream_row list"
  db_schedules :: "schedule_row list"
  db_versions :: "version_row list"
  db_queues :: "queue_row list"
  db_user :: 'u

definition empty_database :: "'u \<Rightarrow> 'u database" where
  "empty_database u =
     \<lparr> db_status = [], db_outputs = [], db_notifications = [], db_events = [], db_streams = [],
       db_schedules = [], db_versions = [], db_queues = [], db_user = u \<rparr>"

text \<open>
  The provider, with the packages it calls: payload codec, \<open>DateTime::from_timestamp_millis\<close> and the
  clock reading that replaces an instant out of range, the RFC 3339 text of an instant, the float form of
  a duration, and the display texts of the database's errors.
\<close>

record sqlite =
  sl_serializer :: serializer
  sl_codec :: codec_env
  sl_from_ms :: "int \<Rightarrow> datetime option"
  sl_now :: datetime
  sl_to_rfc3339 :: "datetime \<Rightarrow> string"
  sl_parse_rfc3339 :: "string \<Rightarrow> datetime option"
  sl_as_secs_f64 :: "duration \<Rightarrow> 64 word"
  sl_from_secs_f64 :: "64 word \<Rightarrow> duration"
  sl_unique_text :: string
  sl_foreign_key_text :: string
  sl_syntax_text :: string

definition unique_violation :: "sqlite \<Rightarrow> sqlx_error" where
  "unique_violation Q = Sqlx_Error (Sqlx_Database (Some ''2067'') True False) (sl_unique_text Q)"

definition foreign_key_violation :: "sqlite \<Rightarrow> sqlx_error" where
  "foreign_key_violation Q = Sqlx_Error (Sqlx_Database (Some ''787'') False True) (sl_foreign_key_text Q)"

definition syntax_error :: "sqlite \<Rightarrow> sqlx_error" where
  "syntax_error Q = Sqlx_Error (Sqlx_Database (Some ''1'') False False) (sl_syntax_text Q)"

section \<open>Statements\<close>

definition sql_update :: "('r \<Rightarrow> bool) \<Rightarrow> ('r \<Rightarrow> 'r) \<Rightarrow> 'r list \<Rightarrow> 'r list" where
  "sql_update p f t = map (\<lambda>r. if p r then f r else r) t"

definition rows_affected :: "('r \<Rightarrow> bool) \<Rightarrow> 'r list \<Rightarrow> nat" where
  "rows_affected p t = length (filter p t)"

definition sql_delete :: "('r \<Rightarrow> bool) \<Rightarrow> 'r list \<Rightarrow> 'r list" where
  "sql_delete p t = filter (\<lambda>r. \<not> p r) t"

definition insert_or_ignore :: "('r \<Rightarrow> 'k) \<Rightarrow> 'r \<Rightarrow> 'r list \<Rightarrow> 'r list" where
  "insert_or_ignore key r t = (if key r \<in> key ` set t then t else t @ [r])"

definition insert_or_replace :: "('r \<Rightarrow> 'k) \<Rightarrow> 'r \<Rightarrow> ('r \<Rightarrow> 'r) \<Rightarrow> 'r list \<Rightarrow> 'r list" where
  "insert_or_replace key r upd t =
     (if key r \<in> key ` set t then sql_update (\<lambda>r'. key r' = key r) upd t else t @ [r])"

lemma find_append: "find p (xs @ ys) = (case find p xs of None \<Rightarrow> find p ys | Some x \<Rightarrow> Some x)"
  by (induction xs) auto

text \<open>A column is one of the bound values; NULL is not.\<close>

definition col_in :: "'a option \<Rightarrow> 'a list \<Rightarrow> bool" where
  "col_in c vs = is_some_and (\<lambda>v. v \<in> set vs) c"

definition ascii_lower :: "char \<Rightarrow> char" where
  "ascii_lower c =
     (if 65 \<le> (of_char c :: nat) \<and> (of_char c :: nat) \<le> 90 then char_of (of_char c + 32 :: nat) else c)"

text \<open>\<open>LIKE\<close>: per cent matches any text, underscore one character, letters without their case.\<close>

function like :: "string \<Rightarrow> string \<Rightarrow> bool" where
  "like [] s = (s = [])"
| "like (p # ps) [] = (p = CHR ''%'' \<and> like ps [])"
| "like (p # ps) (c # cs) =
     (if p = CHR ''%'' then like ps (c # cs) \<or> like (p # ps) cs
      else (p = CHR ''_'' \<or> ascii_lower p = ascii_lower c) \<and> like ps cs)"
  by pat_completeness auto

termination
  by (relation "measures [\<lambda>(p, s). length p + length s]") auto

definition like_prefix :: "string \<Rightarrow> string \<Rightarrow> bool" where
  "like_prefix s p = like (p @ ''%'') s"

text \<open>The keys of the schema.\<close>

definition output_key :: "output_row \<Rightarrow> string \<times> int" where
  "output_key r = (oo_workflow_uuid r, oo_function_id r)"

definition event_key :: "event_row \<Rightarrow> string \<times> string" where
  "event_key r = (we_workflow_uuid r, we_key r)"

definition has_workflow :: "string \<Rightarrow> 'u database \<Rightarrow> bool" where
  "has_workflow wid db \<longleftrightarrow> wid \<in> sw_workflow_uuid ` set (db_status db)"

text \<open>The partial unique index on \<open>(queue_name, deduplication_id)\<close>.\<close>

definition slot :: "status_row \<Rightarrow> (string \<times> string) option" where
  "slot r = (case (sw_queue_name r, sw_deduplication_id r) of (Some q, Some d) \<Rightarrow> Some (q, d) | _ \<Rightarrow> None)"

definition slots_unique :: "status_row list \<Rightarrow> bool" where
  "slots_unique t \<longleftrightarrow> distinct (List.map_filter slot t)"

definition update_status ::
    "sqlite \<Rightarrow> (status_row \<Rightarrow> bool) \<Rightarrow> (status_row \<Rightarrow> status_row) \<Rightarrow> ('u database, nat) op" where
  "update_status Q p f db =
     (let t = sql_update p f (db_status db) in
      if slots_unique t then (Inr (rows_affected p (db_status db)), db \<lparr> db_status := t \<rparr>)
      else (Inl (Db (unique_violation Q)), db))"

text \<open>An insert of a step row; the foreign key is looked at only when a row is inserted.\<close>

definition insert_output :: "sqlite \<Rightarrow> output_row \<Rightarrow> ('u database, unit) op" where
  "insert_output Q r db =
     (if output_key r \<in> output_key ` set (db_outputs db) then (Inr (), db)
      else if \<not> has_workflow (oo_workflow_uuid r) db then (Inl (Db (foreign_key_violation Q)), db)
      else (Inr (), db \<lparr> db_outputs := db_outputs db @ [r] \<rparr>))"

text \<open>Statements of one transaction: an error drops the transaction.\<close>

definition transactional :: "('u database, 'a) op \<Rightarrow> ('u database, 'a) op" where
  "transactional f db = (case f db of (Inr x, db') \<Rightarrow> (Inr x, db') | (Inl e, _) \<Rightarrow> (Inl e, db))"

section \<open>Reading rows\<close>

definition ms_to_dt :: "sqlite \<Rightarrow> int \<Rightarrow> datetime" where
  "ms_to_dt Q ms = unwrap_or (sl_from_ms Q ms) (sl_now Q)"

definition row_to_status :: "sqlite \<Rightarrow> status_row \<Rightarrow> workflow_status" where
  "row_to_status Q r =
     (let fmt = sw_serialization r;
          (err, error_info) = decode_error_opt (sl_codec Q) fmt (sw_error r)
      in \<lparr> ws_id = sw_workflow_uuid r, ws_name = sw_name r, ws_status = sw_status r,
           ws_input =
             (case decode_input_opt (sl_codec Q) (sl_serializer Q) fmt (sw_inputs r) of
                Inr (Some v) \<Rightarrow> v | _ \<Rightarrow> JNull),
           ws_output =
             (case decode_opt (sl_codec Q) (sl_serializer Q) fmt (sw_output r) of Inr v \<Rightarrow> v | Inl _ \<Rightarrow> None),
           ws_error = err, ws_error_info = error_info, ws_executor_id = sw_executor_id r,
           ws_app_version = sw_application_version r, ws_queue_name = sw_queue_name r,
           ws_queue_partition_key = sw_queue_partition_key r, ws_priority = i32_wrap (sw_priority r),
           ws_dedup_id = sw_deduplication_id r, ws_recovery_attempts = i32_wrap (sw_recovery_attempts r),
           ws_parent_workflow_id = sw_parent_workflow_id r, ws_timeout_ms = sw_workflow_timeout_ms r,
           ws_deadline_ms = sw_workflow_deadline_epoch_ms r, ws_started_at_ms = sw_started_at_epoch_ms r,
           ws_rate_limited = sw_rate_limited r, ws_delay_until_ms = sw_delay_until_epoch_ms r,
           ws_completed_at_ms = sw_completed_at r, ws_forked_from = sw_forked_from r,
           ws_authenticated_user = sw_authenticated_user r, ws_assumed_role = sw_assumed_role r,
           ws_authenticated_roles = decode_roles (ce_json (sl_codec Q)) (sw_authenticated_roles r),
           ws_class_name = sw_class_name r, ws_config_name = sw_config_name r,
           ws_created_at = ms_to_dt Q (sw_created_at r), ws_updated_at = ms_to_dt Q (sw_updated_at r) \<rparr>)"

definition row_to_step :: "sqlite \<Rightarrow> output_row \<Rightarrow> step_info result" where
  "row_to_step Q r =
     (let fmt = oo_serialization r in
      case decode_opt (sl_codec Q) (sl_serializer Q) fmt (oo_output r) of
        Inl e \<Rightarrow> Inl e
      | Inr out \<Rightarrow> Inr
          \<lparr> si_step_id = oo_function_id r, si_name = oo_function_name r, si_output = out,
            si_error = map_option (\<lambda>e. fst (decode_error (sl_codec Q) fmt e)) (oo_error r),
            si_child_workflow_id = oo_child_workflow_id r,
            si_started_at = map_option (ms_to_dt Q) (oo_started_at_epoch_ms r),
            si_completed_at = map_option (ms_to_dt Q) (oo_completed_at_epoch_ms r) \<rparr>)"

text \<open>\<open>collect::<Result<Vec<_>>>\<close>.\<close>

fun collect_results :: "('r \<Rightarrow> 'a result) \<Rightarrow> 'r list \<Rightarrow> 'a list result" where
  "collect_results f [] = Inr []"
| "collect_results f (r # rs) =
     (case f r of
        Inl e \<Rightarrow> Inl e
      | Inr x \<Rightarrow> (case collect_results f rs of Inl e \<Rightarrow> Inl e | Inr xs \<Rightarrow> Inr (x # xs)))"

definition find_status :: "string \<Rightarrow> 'u database \<Rightarrow> status_row option" where
  "find_status wid db = find (\<lambda>r. sw_workflow_uuid r = wid) (db_status db)"

definition find_output :: "string \<Rightarrow> int \<Rightarrow> 'u database \<Rightarrow> output_row option" where
  "find_output wid seq db =
     find (\<lambda>r. oo_workflow_uuid r = wid \<and> oo_function_id r = seq) (db_outputs db)"

section \<open>Workflow rows\<close>

definition status_row_of :: "sqlite \<Rightarrow> workflow_status \<Rightarrow> string \<Rightarrow> status_row" where
  "status_row_of Q s inputs =
     \<lparr> sw_workflow_uuid = ws_id s, sw_status = ws_status s, sw_name = ws_name s,
       sw_authenticated_user = ws_authenticated_user s, sw_assumed_role = ws_assumed_role s,
       sw_authenticated_roles = encode_roles (ce_json (sl_codec Q)) (ws_authenticated_roles s),
       sw_output = None, sw_error = None, sw_executor_id = ws_executor_id s,
       sw_created_at = timestamp_millis (ws_created_at s), sw_updated_at = timestamp_millis (ws_updated_at s),
       sw_application_version = ws_app_version s, sw_class_name = ws_class_name s,
       sw_config_name = ws_config_name s, sw_recovery_attempts = 0, sw_queue_name = ws_queue_name s,
       sw_workflow_timeout_ms = ws_timeout_ms s, sw_workflow_deadline_epoch_ms = ws_deadline_ms s,
       sw_inputs = Some inputs, sw_started_at_epoch_ms = None, sw_deduplication_id = ws_dedup_id s,
       sw_priority = ws_priority s, sw_queue_partition_key = ws_queue_partition_key s,
       sw_forked_from = None, sw_parent_workflow_id = ws_parent_workflow_id s,
       sw_delay_until_epoch_ms = ws_delay_until_ms s,
       sw_serialization = Some (serializer_name (sl_serializer Q)), sw_was_forked_from = False,
       sw_rate_limited = False, sw_completed_at = None \<rparr>"

definition sqlite_insert_workflow_status ::
    "sqlite \<Rightarrow> workflow_status \<Rightarrow> ('u database, workflow_status \<times> bool) op" where
  "sqlite_insert_workflow_status Q s db =
     (case encode_input (sl_codec Q) (sl_serializer Q) (ws_input s) of
        Inl e \<Rightarrow> (Inl e, db)
      | Inr inputs \<Rightarrow>
          (case find_status (ws_id s) db of
             Some r \<Rightarrow> (Inr (row_to_status Q r, False), db)
           | None \<Rightarrow>
               let row = status_row_of Q s inputs; t = db_status db @ [row] in
               if slots_unique t then (Inr (row_to_status Q row, True), db \<lparr> db_status := t \<rparr>)
               else (Inl (dedup_or (unique_violation Q) s), db)))"

definition sqlite_get_deduplicated_workflow ::
    "sqlite \<Rightarrow> string \<Rightarrow> string \<Rightarrow> ('u database, string option) op" where
  "sqlite_get_deduplicated_workflow Q queue_name dedup_id db =
     (Inr (map_option sw_workflow_uuid
        (find (\<lambda>r. sw_queue_name r = Some queue_name \<and> sw_deduplication_id r = Some dedup_id) (db_status db))), db)"

definition sqlite_get_workflow_status :: "sqlite \<Rightarrow> string \<Rightarrow> ('u database, workflow_status option) op" where
  "sqlite_get_workflow_status Q wid db = (Inr (map_option (row_to_status Q) (find_status wid db)), db)"

definition set_status_row ::
    "string \<Rightarrow> string option \<Rightarrow> string option \<Rightarrow> int \<Rightarrow> status_row \<Rightarrow> status_row" where
  "set_status_row status output err now r =
     r \<lparr> sw_status := status, sw_output := or_else output (sw_output r), sw_error := or_else err (sw_error r),
         sw_completed_at := or_else (if is_terminal status then Some now else None) (sw_completed_at r),
         sw_deduplication_id := (if is_terminal status then None else sw_deduplication_id r),
         sw_updated_at := now \<rparr>"

definition sqlite_set_workflow_status ::
    "sqlite \<Rightarrow> string \<Rightarrow> string \<Rightarrow> json option \<Rightarrow> string option \<Rightarrow> datetime \<Rightarrow> ('u database, unit) op" where
  "sqlite_set_workflow_status Q wid status output err now =
     (case (case output of
              None \<Rightarrow> Inr None
            | Some v \<Rightarrow> map_sum id Some (encode (sl_codec Q) (sl_serializer Q) v)) of
        Inl e \<Rightarrow> fail e
      | Inr output_str \<Rightarrow>
          let is_completion = (status = STATUS_SUCCESS \<or> status = STATUS_ERROR) in
          and_then (update_status Q
            (\<lambda>r. sw_workflow_uuid r = wid \<and> \<not> (sw_status r = STATUS_CANCELLED \<and> is_completion))
            (set_status_row status output_str err (timestamp_millis now)))
          (\<lambda>n. if is_completion \<and> n = 0
               then and_then (sqlite_get_workflow_status Q wid)
                 (\<lambda>w. if is_some_and (\<lambda>w. ws_status w = STATUS_CANCELLED) w then fail (Cancelled wid) else ok ())
               else ok ()))"

section \<open>Steps\<close>

definition output_outcome :: "sqlite \<Rightarrow> output_row \<Rightarrow> step_outcome option result" where
  "output_outcome Q r =
     step_outcome_from (sl_codec Q) (sl_serializer Q) (oo_serialization r) (oo_output r) (oo_error r)"

definition sqlite_get_step_result :: "sqlite \<Rightarrow> string \<Rightarrow> int \<Rightarrow> ('u database, recorded_step option) op" where
  "sqlite_get_step_result Q workflow_id seq db =
     (case find_output workflow_id seq db of
        Some r \<Rightarrow>
          (map_sum id (map_option (\<lambda>out. \<lparr> rs_name = oo_function_name r, rs_outcome = out \<rparr>)) (output_outcome Q r), db)
      | None \<Rightarrow> (Inr None, db))"

definition output_row_new :: "string \<Rightarrow> int \<Rightarrow> string \<Rightarrow> output_row" where
  "output_row_new workflow_id seq name =
     \<lparr> oo_workflow_uuid = workflow_id, oo_function_id = seq, oo_function_name = name, oo_output = None,
       oo_error = None, oo_child_workflow_id = None, oo_serialization = None,
       oo_started_at_epoch_ms = None, oo_completed_at_epoch_ms = None \<rparr>"

text \<open>The row is read back after the insert, which may have found one.\<close>

definition sqlite_record_step_result ::
    "sqlite \<Rightarrow> string \<Rightarrow> int \<Rightarrow> string \<Rightarrow> json \<Rightarrow> string option \<Rightarrow> int option \<Rightarrow> datetime
       \<Rightarrow> ('u database, step_outcome) op" where
  "sqlite_record_step_result Q workflow_id seq name v err started_at_ms now =
     (case (case err of
              Some e \<Rightarrow> Inr (None, Some e)
            | None \<Rightarrow> map_sum id (\<lambda>txt. (Some txt, None)) (encode (sl_codec Q) (sl_serializer Q) v)) of
        Inl e \<Rightarrow> fail e
      | Inr (output_col, error_col) \<Rightarrow>
          and_then (insert_output Q ((output_row_new workflow_id seq name)
            \<lparr> oo_output := output_col, oo_error := error_col,
              oo_serialization := Some (serializer_name (sl_serializer Q)),
              oo_started_at_epoch_ms := started_at_ms,
              oo_completed_at_epoch_ms := Some (timestamp_millis now) \<rparr>))
          (\<lambda>_ db.
             (case find_output workflow_id seq db of
                None \<Rightarrow> (Inl (Db (Sqlx_Error Sqlx_Other ''no rows returned by a query that expected to return at least one row'')), db)
              | Some r \<Rightarrow> (map_sum id (\<lambda>out. unwrap_or out (Output JNull)) (output_outcome Q r), db))))"

definition sqlite_record_child_workflow ::
    "sqlite \<Rightarrow> string \<Rightarrow> int \<Rightarrow> string \<Rightarrow> string \<Rightarrow> ('u database, unit) op" where
  "sqlite_record_child_workflow Q parent_id seq name child_id =
     insert_output Q ((output_row_new parent_id seq name) \<lparr> oo_child_workflow_id := Some child_id \<rparr>)"

definition sqlite_check_child_workflow ::
    "sqlite \<Rightarrow> string \<Rightarrow> int \<Rightarrow> ('u database, (string \<times> string) option) op" where
  "sqlite_check_child_workflow Q parent_id seq db =
     (Inr (Option.bind (find_output parent_id seq db)
        (\<lambda>r. map_option (\<lambda>cid. (cid, oo_function_name r)) (oo_child_workflow_id r))), db)"

definition sqlite_get_workflow_steps :: "sqlite \<Rightarrow> string \<Rightarrow> ('u database, step_info list) op" where
  "sqlite_get_workflow_steps Q workflow_id db =
     (collect_results (row_to_step Q)
        (sort_key oo_function_id (filter (\<lambda>r. oo_workflow_uuid r = workflow_id) (db_outputs db))), db)"

definition sqlite_get_step_name :: "sqlite \<Rightarrow> string \<Rightarrow> int \<Rightarrow> ('u database, string option) op" where
  "sqlite_get_step_name Q workflow_id seq db =
     (Inr (map_option oo_function_name (find_output workflow_id seq db)), db)"

definition sqlite_record_patch :: "sqlite \<Rightarrow> string \<Rightarrow> int \<Rightarrow> string \<Rightarrow> ('u database, unit) op" where
  "sqlite_record_patch Q workflow_id seq name = insert_output Q (output_row_new workflow_id seq name)"

end
