(* ===== verification/Sqlite_Ops.thy ===== *)
theory Sqlite_Ops
  imports Sqlite
begin

text \<open>
  The rest of the SQLite provider (\<open>src/src/sqlite.rs\<close>): queue claims, messages, events, streams,
  management, listing, aggregates and registries, and the provider as an instance of the storage
  interface.
\<close>

section \<open>Queues\<close>

definition sql_in_partition :: "dequeue_request \<Rightarrow> status_row \<Rightarrow> bool" where
  "sql_in_partition req r \<longleftrightarrow>
     dr_partition_key req = None \<or> sw_queue_partition_key r \<noteq> None \<and> sw_queue_partition_key r = dr_partition_key req"

definition sql_recent_start :: "dequeue_request \<Rightarrow> int \<Rightarrow> status_row \<Rightarrow> bool" where
  "sql_recent_start req cutoff r \<longleftrightarrow>
     sw_queue_name r = Some (dr_queue_name req) \<and> sw_rate_limited r \<and>
     sw_status r \<notin> {STATUS_ENQUEUED, STATUS_DELAYED} \<and>
     is_some_and (\<lambda>t. t > cutoff) (sw_started_at_epoch_ms r) \<and> sql_in_partition req r"

definition sql_running :: "dequeue_request \<Rightarrow> status_row \<Rightarrow> bool" where
  "sql_running req r \<longleftrightarrow>
     sw_queue_name r = Some (dr_queue_name req) \<and> sw_status r = STATUS_PENDING \<and> sql_in_partition req r"

definition sql_count :: "('r \<Rightarrow> bool) \<Rightarrow> 'r list \<Rightarrow> int" where
  "sql_count p t = int (length (filter p t))"

definition sql_claim_budget :: "dequeue_request \<Rightarrow> int \<Rightarrow> status_row list \<Rightarrow> int" where
  "sql_claim_budget req now_ms t =
     (let b1 = (case (dr_rate_limit_max req, dr_rate_limit_period_ms req) of
                  (Some limit, Some period_ms) \<Rightarrow>
                    min (dr_max_tasks req)
                      (max (i64_wrap (limit - sql_count (sql_recent_start req (i64_wrap (now_ms - period_ms))) t)) 0)
                | _ \<Rightarrow> dr_max_tasks req)
      in (case dr_global_concurrency req of
            Some global \<Rightarrow> min b1 (max (i64_wrap (global - sql_count (sql_running req) t)) 0)
          | None \<Rightarrow> b1))"

text \<open>\<open>ORDER BY version_timestamp DESC LIMIT 1\<close>.\<close>

definition latest_version_row :: "'u database \<Rightarrow> version_row option" where
  "latest_version_row db =
     (case sort_key (\<lambda>v. - ve_version_timestamp v) (db_versions db) of [] \<Rightarrow> None | v # _ \<Rightarrow> Some v)"

definition sql_claimable :: "dequeue_request \<Rightarrow> bool \<Rightarrow> status_row \<Rightarrow> bool" where
  "sql_claimable req is_latest r \<longleftrightarrow>
     sw_queue_name r = Some (dr_queue_name req) \<and> sw_status r = STATUS_ENQUEUED \<and>
     (sw_application_version r = dr_app_version req \<or> is_latest \<and> sw_application_version r = []) \<and>
     sql_in_partition req r"

definition sql_candidates :: "dequeue_request \<Rightarrow> int \<Rightarrow> 'u database \<Rightarrow> string list" where
  "sql_candidates req max_tasks db =
     (let is_latest = is_none_or (\<lambda>v. ve_version_name v = dr_app_version req) (latest_version_row db) in
      map sw_workflow_uuid (take (nat max_tasks)
        (sort_key (\<lambda>r. (sw_priority r, sw_created_at r)) (filter (sql_claimable req is_latest) (db_status db)))))"

definition sql_claim_row :: "dequeue_request \<Rightarrow> int \<Rightarrow> status_row \<Rightarrow> status_row" where
  "sql_claim_row req now_ms r =
     r \<lparr> sw_status := STATUS_PENDING, sw_executor_id := dr_executor_id req,
         sw_application_version := dr_app_version req, sw_started_at_epoch_ms := Some now_ms,
         sw_rate_limited := (dr_rate_limit_max req \<noteq> None), sw_updated_at := now_ms,
         sw_workflow_deadline_epoch_ms :=
           (if sw_workflow_timeout_ms r \<noteq> None \<and> sw_workflow_deadline_epoch_ms r = None
            then map_option (\<lambda>t. now_ms + t) (sw_workflow_timeout_ms r)
            else sw_workflow_deadline_epoch_ms r) \<rparr>"

text \<open>One \<open>UPDATE .. RETURNING\<close> per candidate; a row that is no longer ENQUEUED is skipped.\<close>

fun sql_claim_loop ::
    "sqlite \<Rightarrow> dequeue_request \<Rightarrow> int \<Rightarrow> string list \<Rightarrow> ('u database, workflow_status list) op" where
  "sql_claim_loop Q req now_ms [] = ok []"
| "sql_claim_loop Q req now_ms (wid # ids) =
     (let hit = (\<lambda>r. sw_workflow_uuid r = wid \<and> sw_status r = STATUS_ENQUEUED) in
      (\<lambda>db. and_then (update_status Q hit (sql_claim_row req now_ms))
         (\<lambda>_. and_then (sql_claim_loop Q req now_ms ids)
         (\<lambda>claimed. ok ((case find hit (db_status db) of
              Some r \<Rightarrow> [row_to_status Q (sql_claim_row req now_ms r)] | None \<Rightarrow> []) @ claimed))) db))"

definition sqlite_dequeue_workflows ::
    "sqlite \<Rightarrow> dequeue_request \<Rightarrow> datetime \<Rightarrow> ('u database, workflow_status list) op" where
  "sqlite_dequeue_workflows Q req now db =
     (let now_ms = timestamp_millis now; max_tasks = sql_claim_budget req now_ms (db_status db) in
      if max_tasks \<le> 0 then (Inr [], db)
      else transactional (sql_claim_loop Q req now_ms (sql_candidates req max_tasks db)) db)"

definition sqlite_transition_delayed_workflows :: "sqlite \<Rightarrow> int \<Rightarrow> ('u database, nat) op" where
  "sqlite_transition_delayed_workflows Q now_ms =
     update_status Q
       (\<lambda>r. sw_status r = STATUS_DELAYED \<and> is_some_and (\<lambda>t. t \<le> now_ms) (sw_delay_until_epoch_ms r))
       (\<lambda>r. r \<lparr> sw_status := STATUS_ENQUEUED, sw_delay_until_epoch_ms := None, sw_updated_at := now_ms \<rparr>)"

definition sqlite_queue_partitions :: "sqlite \<Rightarrow> string \<Rightarrow> ('u database, string list) op" where
  "sqlite_queue_partitions Q queue_name db =
     (Inr (remdups (List.map_filter sw_queue_partition_key
        (filter (\<lambda>r. sw_queue_name r = Some queue_name \<and> sw_status r = STATUS_ENQUEUED) (db_status db)))), db)"

section \<open>Messages, events and streams\<close>

definition sqlite_insert_notification ::
    "sqlite \<Rightarrow> string \<Rightarrow> string \<Rightarrow> json \<Rightarrow> string option \<Rightarrow> string \<Rightarrow> datetime \<Rightarrow> ('u database, unit) op" where
  "sqlite_insert_notification Q destination_id topic message idempotency_key fresh now db =
     (let message_uuid = (case idempotency_key of Some k \<Rightarrow> k @ ''::'' @ destination_id | None \<Rightarrow> fresh) in
      case encode (sl_codec Q) (sl_serializer Q) message of
        Inl e \<Rightarrow> (Inl e, db)
      | Inr txt \<Rightarrow>
          if message_uuid \<in> no_message_uuid ` set (db_notifications db) then (Inr (), db)
          else if \<not> has_workflow destination_id db
          then (Inl (nonexistent_or (foreign_key_violation Q) destination_id), db)
          else (Inr (), db \<lparr> db_notifications := db_notifications db @
            [\<lparr> no_message_uuid = message_uuid, no_destination_uuid = destination_id, no_topic = topic,
               no_message = txt, no_serialization = Some (serializer_name (sl_serializer Q)),
               no_created_at_epoch_ms = timestamp_millis now, no_consumed = False \<rparr>] \<rparr>))"

text \<open>The message is claimed and checkpointed in one transaction.\<close>

definition oldest_unread :: "string \<Rightarrow> string \<Rightarrow> message_row list \<Rightarrow> message_row option" where
  "oldest_unread workflow_id topic t =
     (case sort_key no_created_at_epoch_ms
        (filter (\<lambda>n. no_destination_uuid n = workflow_id \<and> no_topic n = topic \<and> \<not> no_consumed n) t) of
        [] \<Rightarrow> None | n # _ \<Rightarrow> Some n)"

definition sqlite_consume_notification ::
    "sqlite \<Rightarrow> string \<Rightarrow> string \<Rightarrow> int \<Rightarrow> string \<Rightarrow> ('u database, json option) op" where
  "sqlite_consume_notification Q workflow_id topic seq step_name db =
     (case oldest_unread workflow_id topic (db_notifications db) of
        None \<Rightarrow> (Inr None, db)
      | Some n \<Rightarrow>
          and_then
            (transactional (\<lambda>db. insert_output Q ((output_row_new workflow_id seq step_name)
               \<lparr> oo_output := Some (no_message n), oo_serialization := no_serialization n \<rparr>)
               (db \<lparr> db_notifications := sql_update (\<lambda>m. no_message_uuid m = no_message_uuid n)
                  (\<lambda>m. m \<lparr> no_consumed := True \<rparr>) (db_notifications db) \<rparr>)))
            (\<lambda>_. lift_result (map_sum id Some
               (decode (sl_codec Q) (sl_serializer Q) (no_serialization n) (no_message n)))) db)"

definition sqlite_upsert_event :: "sqlite \<Rightarrow> string \<Rightarrow> string \<Rightarrow> json \<Rightarrow> ('u database, unit) op" where
  "sqlite_upsert_event Q workflow_id key v db =
     (case encode (sl_codec Q) (sl_serializer Q) v of
        Inl e \<Rightarrow> (Inl e, db)
      | Inr txt \<Rightarrow>
          let row = \<lparr> we_workflow_uuid = workflow_id, we_key = key, we_value = txt,
                      we_serialization = Some (serializer_name (sl_serializer Q)) \<rparr> in
          if event_key row \<in> event_key ` set (db_events db) \<or> has_workflow workflow_id db
          then (Inr (), db \<lparr> db_events := insert_or_replace event_key row
                 (\<lambda>r. r \<lparr> we_value := we_value row, we_serialization := we_serialization row \<rparr>) (db_events db) \<rparr>)
          else (Inl (Db (foreign_key_violation Q)), db))"

definition sqlite_get_event_value :: "sqlite \<Rightarrow> string \<Rightarrow> string \<Rightarrow> ('u database, json option) op" where
  "sqlite_get_event_value Q workflow_id key db =
     (case find (\<lambda>r. event_key r = (workflow_id, key)) (db_events db) of
        Some r \<Rightarrow> (map_sum id Some (decode (sl_codec Q) (sl_serializer Q) (we_serialization r) (we_value r)), db)
      | None \<Rightarrow> (Inr None, db))"

definition stream_of :: "string \<Rightarrow> string \<Rightarrow> 'u database \<Rightarrow> stream_row list" where
  "stream_of workflow_id key db =
     filter (\<lambda>r. sm_workflow_uuid r = workflow_id \<and> sm_key r = key) (db_streams db)"

definition sqlite_write_stream ::
    "sqlite \<Rightarrow> string \<Rightarrow> string \<Rightarrow> json option \<Rightarrow> int \<Rightarrow> ('u database, unit) op" where
  "sqlite_write_stream Q workflow_id key v function_id db =
     (case (case v of
              Some v \<Rightarrow> map_sum id (\<lambda>txt. (txt, Some (serializer_name (sl_serializer Q))))
                (encode (sl_codec Q) (sl_serializer Q) v)
            | None \<Rightarrow> Inr (STREAM_CLOSED_SENTINEL, None)) of
        Inl e \<Rightarrow> (Inl e, db)
      | Inr (stored, ser) \<Rightarrow>
          if list_ex (\<lambda>r. sm_value r = STREAM_CLOSED_SENTINEL) (stream_of workflow_id key db)
          then (Inl (app (''stream `'' @ key @ ''` is already closed'')), db)
          else if \<not> has_workflow workflow_id db
          then (Inl (nonexistent_or (foreign_key_violation Q) workflow_id), db)
          else (Inr (), db \<lparr> db_streams := db_streams db @
            [\<lparr> sm_workflow_uuid = workflow_id, sm_key = key, sm_value = stored,
               sm_offset = fold max (map sm_offset (stream_of workflow_id key db)) (- 1) + 1,
               sm_function_id = function_id, sm_serialization = ser \<rparr>] \<rparr>))"

fun read_stream_rows :: "sqlite \<Rightarrow> stream_row list \<Rightarrow> (json list \<times> bool) result" where
  "read_stream_rows Q [] = Inr ([], False)"
| "read_stream_rows Q (r # rs) =
     (if sm_value r = STREAM_CLOSED_SENTINEL then Inr ([], True)
      else
        (case decode (sl_codec Q) (sl_serializer Q) (sm_serialization r) (sm_value r) of
           Inl e \<Rightarrow> Inl e
         | Inr v \<Rightarrow> map_sum id (\<lambda>(vs, closed). (v # vs, closed)) (read_stream_rows Q rs)))"

definition sqlite_read_stream ::
    "sqlite \<Rightarrow> string \<Rightarrow> string \<Rightarrow> int \<Rightarrow> ('u database, json list \<times> bool) op" where
  "sqlite_read_stream Q workflow_id key from_offset db =
     (read_stream_rows Q
        (sort_key sm_offset (filter (\<lambda>r. from_offset \<le> sm_offset r) (stream_of workflow_id key db))), db)"

definition sqlite_list_workflow_events :: "sqlite \<Rightarrow> string \<Rightarrow> ('u database, (string \<times> json) list) op" where
  "sqlite_list_workflow_events Q workflow_id db =
     (collect_results
        (\<lambda>r. map_sum id (Pair (we_key r)) (decode (sl_codec Q) (sl_serializer Q) (we_serialization r) (we_value r)))
        (sort_key we_key (filter (\<lambda>r. we_workflow_uuid r = workflow_id) (db_events db))), db)"

definition sqlite_list_workflow_notifications ::
    "sqlite \<Rightarrow> string \<Rightarrow> ('u database, notification_info list) op" where
  "sqlite_list_workflow_notifications Q workflow_id db =
     (collect_results
        (\<lambda>n. map_sum id
           (\<lambda>m. \<lparr> ni_topic = (if no_topic n \<noteq> [] then Some (no_topic n) else None), ni_message = m,
                  ni_created_at_ms = no_created_at_epoch_ms n, ni_consumed = no_consumed n \<rparr>)
           (decode (sl_codec Q) (sl_serializer Q) (no_serialization n) (no_message n)))
        (sort_key no_created_at_epoch_ms
           (filter (\<lambda>n. no_destination_uuid n = workflow_id) (db_notifications db))), db)"

definition sqlite_list_workflow_streams ::
    "sqlite \<Rightarrow> string \<Rightarrow> ('u database, (string \<times> json list) list) op" where
  "sqlite_list_workflow_streams Q workflow_id db =
     (group_stream_rows (sl_codec Q) (sl_serializer Q)
        (map (\<lambda>r. (sm_key r, sm_value r, sm_serialization r))
           (sort_key (\<lambda>r. (sm_key r, sm_offset r))
              (filter (\<lambda>r. sm_workflow_uuid r = workflow_id) (db_streams db)))), db)"

section \<open>Management\<close>

definition sql_cancel_row :: "int \<Rightarrow> status_row \<Rightarrow> status_row" where
  "sql_cancel_row now r =
     r \<lparr> sw_status := STATUS_CANCELLED, sw_completed_at := Some now, sw_started_at_epoch_ms := None,
         sw_queue_name := None, sw_deduplication_id := None, sw_updated_at := now \<rparr>"

definition sql_cancellable :: "status_row \<Rightarrow> bool" where
  "sql_cancellable r \<longleftrightarrow> sw_status r \<notin> {STATUS_SUCCESS, STATUS_ERROR, STATUS_CANCELLED}"

definition sqlite_cancel_workflow :: "sqlite \<Rightarrow> string \<Rightarrow> datetime \<Rightarrow> ('u database, unit) op" where
  "sqlite_cancel_workflow Q wid now =
     and_then (update_status Q (\<lambda>r. sw_workflow_uuid r = wid \<and> sql_cancellable r)
       (sql_cancel_row (timestamp_millis now))) (\<lambda>_. ok ())"

definition sqlite_cancel_workflows :: "sqlite \<Rightarrow> string list \<Rightarrow> datetime \<Rightarrow> ('u database, unit) op" where
  "sqlite_cancel_workflows Q ids now =
     (if ids = [] then ok ()
      else and_then (update_status Q (\<lambda>r. sw_workflow_uuid r \<in> set ids \<and> sql_cancellable r)
        (sql_cancel_row (timestamp_millis now))) (\<lambda>_. ok ()))"

definition sql_resume_row :: "int \<Rightarrow> status_row \<Rightarrow> status_row" where
  "sql_resume_row now r =
     r \<lparr> sw_status := STATUS_PENDING, sw_recovery_attempts := 0, sw_workflow_deadline_epoch_ms := None,
         sw_deduplication_id := None, sw_started_at_epoch_ms := None, sw_completed_at := None,
         sw_updated_at := now \<rparr>"

definition sql_resumable :: "status_row \<Rightarrow> bool" where
  "sql_resumable r \<longleftrightarrow> sw_status r \<notin> {STATUS_SUCCESS, STATUS_ERROR}"

definition sqlite_resume_workflow :: "sqlite \<Rightarrow> string \<Rightarrow> datetime \<Rightarrow> ('u database, bool) op" where
  "sqlite_resume_workflow Q wid now =
     and_then (update_status Q (\<lambda>r. sw_workflow_uuid r = wid \<and> sql_resumable r)
       (sql_resume_row (timestamp_millis now))) (\<lambda>n. ok (n > 0))"

definition sqlite_resume_workflows :: "sqlite \<Rightarrow> string list \<Rightarrow> datetime \<Rightarrow> ('u database, string list) op" where
  "sqlite_resume_workflows Q ids now db =
     (if ids = [] then (Inr [], db)
      else
        let hit = (\<lambda>r. sw_workflow_uuid r \<in> set ids \<and> sql_resumable r) in
        and_then (update_status Q hit (sql_resume_row (timestamp_millis now)))
          (\<lambda>_. ok (map sw_workflow_uuid (filter hit (db_status db)))) db)"

definition sqlite_enqueue_existing :: "sqlite \<Rightarrow> string \<Rightarrow> string \<Rightarrow> datetime \<Rightarrow> ('u database, unit) op" where
  "sqlite_enqueue_existing Q wid queue now =
     and_then (update_status Q (\<lambda>r. sw_workflow_uuid r = wid)
       (\<lambda>r. r \<lparr> sw_status := STATUS_ENQUEUED, sw_queue_name := Some queue, sw_executor_id := [],
                sw_started_at_epoch_ms := None, sw_updated_at := timestamp_millis now \<rparr>)) (\<lambda>_. ok ())"

text \<open>
  \<open>WITH RECURSIVE targets\<close>: the children of the ids so far are added until nothing is new, which takes
  at most as many rounds as there are rows.
\<close>

definition children_of :: "status_row list \<Rightarrow> string list \<Rightarrow> string list" where
  "children_of t ids = map sw_workflow_uuid (filter (\<lambda>r. col_in (sw_parent_workflow_id r) ids) t)"

fun sql_descendants :: "nat \<Rightarrow> status_row list \<Rightarrow> string list \<Rightarrow> string list" where
  "sql_descendants 0 t ids = ids"
| "sql_descendants (Suc n) t ids = sql_descendants n t (remdups (ids @ children_of t ids))"

text \<open>Deleting workflow rows cascades to every table that refers to them.\<close>

definition delete_status :: "(status_row \<Rightarrow> bool) \<Rightarrow> 'u database \<Rightarrow> 'u database" where
  "delete_status p db =
     (let gone = map sw_workflow_uuid (filter p (db_status db)) in
      db \<lparr> db_status := sql_delete p (db_status db),
           db_outputs := sql_delete (\<lambda>r. oo_workflow_uuid r \<in> set gone) (db_outputs db),
           db_notifications := sql_delete (\<lambda>n. no_destination_uuid n \<in> set gone) (db_notifications db),
           db_events := sql_delete (\<lambda>r. we_workflow_uuid r \<in> set gone) (db_events db),
           db_streams := sql_delete (\<lambda>r. sm_workflow_uuid r \<in> set gone) (db_streams db) \<rparr>)"

definition sqlite_delete_workflows :: "sqlite \<Rightarrow> string list \<Rightarrow> bool \<Rightarrow> ('u database, unit) op" where
  "sqlite_delete_workflows Q ids delete_children db =
     (if ids = [] then (Inr (), db)
      else
        let t = db_status db;
            targets = (if delete_children
              then sql_descendants (length t) t (map sw_workflow_uuid (filter (\<lambda>r. sw_workflow_uuid r \<in> set ids) t))
              else ids)
        in (Inr (), delete_status (\<lambda>r. sw_workflow_uuid r \<in> set targets) db))"

definition sqlite_set_workflow_delay :: "sqlite \<Rightarrow> string \<Rightarrow> int \<Rightarrow> datetime \<Rightarrow> ('u database, bool) op" where
  "sqlite_set_workflow_delay Q wid delay_until_ms now =
     and_then (update_status Q (\<lambda>r. sw_workflow_uuid r = wid \<and> sw_status r = STATUS_DELAYED)
       (\<lambda>r. r \<lparr> sw_delay_until_epoch_ms := Some delay_until_ms, sw_updated_at := timestamp_millis now \<rparr>))
     (\<lambda>n. ok (n > 0))"

definition sql_forked_row :: "fork_params \<Rightarrow> int \<Rightarrow> status_row \<Rightarrow> status_row" where
  "sql_forked_row params now r =
     \<lparr> sw_workflow_uuid = fp_new_id params, sw_status = STATUS_ENQUEUED, sw_name = sw_name r,
       sw_authenticated_user = sw_authenticated_user r, sw_assumed_role = sw_assumed_role r,
       sw_authenticated_roles = sw_authenticated_roles r, sw_output = None, sw_error = None,
       sw_executor_id = [], sw_created_at = now, sw_updated_at = now,
       sw_application_version = unwrap_or (fp_app_version params) (sw_application_version r),
       sw_class_name = sw_class_name r, sw_config_name = sw_config_name r, sw_recovery_attempts = 0,
       sw_queue_name = Some (fp_queue_name params), sw_workflow_timeout_ms = None,
       sw_workflow_deadline_epoch_ms = None, sw_inputs = sw_inputs r, sw_started_at_epoch_ms = None,
       sw_deduplication_id = None, sw_priority = 0, sw_queue_partition_key = fp_partition_key params,
       sw_forked_from = Some (fp_original_id params), sw_parent_workflow_id = None,
       sw_delay_until_epoch_ms = None, sw_serialization = sw_serialization r, sw_was_forked_from = False,
       sw_rate_limited = False, sw_completed_at = None \<rparr>"

definition copied_outputs :: "fork_params \<Rightarrow> output_row list \<Rightarrow> output_row list" where
  "copied_outputs params t =
     (if fp_start_step params > 0
      then map (\<lambda>r. r \<lparr> oo_workflow_uuid := fp_new_id params, oo_started_at_epoch_ms := None,
                        oo_completed_at_epoch_ms := None \<rparr>)
        (filter (\<lambda>r. oo_workflow_uuid r = fp_original_id params \<and> oo_function_id r < fp_start_step params) t)
      else [])"

definition sqlite_fork_workflow :: "sqlite \<Rightarrow> fork_params \<Rightarrow> datetime \<Rightarrow> ('u database, unit) op" where
  "sqlite_fork_workflow Q params now db =
     (case find_status (fp_original_id params) db of
        None \<Rightarrow> (Inl (nonexistent_workflow (fp_original_id params)), db)
      | Some r \<Rightarrow>
          if has_workflow (fp_new_id params) db then (Inl (Db (unique_violation Q)), db)
          else (Inr (), db
            \<lparr> db_status := sql_update (\<lambda>r. sw_workflow_uuid r = fp_original_id params)
                 (\<lambda>r. r \<lparr> sw_was_forked_from := True \<rparr>)
                 (db_status db @ [sql_forked_row params (timestamp_millis now) r]),
              db_outputs := db_outputs db @ copied_outputs params (db_outputs db) \<rparr>))"

definition sqlite_bump_recovery_attempts :: "sqlite \<Rightarrow> string \<Rightarrow> int \<Rightarrow> datetime \<Rightarrow> ('u database, int) op" where
  "sqlite_bump_recovery_attempts Q wid mx now =
     transactional
       (and_then (update_status Q (\<lambda>r. sw_workflow_uuid r = wid)
          (\<lambda>r. r \<lparr> sw_recovery_attempts := sw_recovery_attempts r + 1, sw_updated_at := timestamp_millis now \<rparr>))
        (\<lambda>_ db.
          let attempts = i32_wrap (unwrap_or (map_option sw_recovery_attempts (find_status wid db)) 0) in
          if attempts > mx
          then and_then (update_status Q (\<lambda>r. sw_workflow_uuid r = wid)
            (\<lambda>r. r \<lparr> sw_status := STATUS_MAX_RECOVERY_ATTEMPTS_EXCEEDED, sw_deduplication_id := None \<rparr>))
            (\<lambda>_. ok attempts) db
          else (Inr attempts, db)))"

section \<open>Listing\<close>

definition sql_in :: "'a list \<Rightarrow> 'a option \<Rightarrow> bool" where
  "sql_in vs c \<longleftrightarrow> vs = [] \<or> col_in c vs"

text \<open>The WHERE clause of \<open>push_list_filters\<close>.\<close>

definition push_list_filters :: "list_filter \<Rightarrow> status_row \<Rightarrow> bool" where
  "push_list_filters f r \<longleftrightarrow>
     sql_in (lf_workflow_ids f) (Some (sw_workflow_uuid r)) \<and>
     sql_in (lf_name f) (Some (sw_name r)) \<and>
     sql_in (lf_status f) (Some (sw_status r)) \<and>
     sql_in (lf_queue_name f) (sw_queue_name r) \<and>
     sql_in (lf_app_version f) (Some (sw_application_version r)) \<and>
     sql_in (lf_executor_ids f) (Some (sw_executor_id r)) \<and>
     sql_in (lf_authenticated_users f) (sw_authenticated_user r) \<and>
     sql_in (lf_forked_from f) (sw_forked_from r) \<and>
     sql_in (lf_parent_workflow_ids f) (sw_parent_workflow_id r) \<and>
     (lf_workflow_id_prefix f = [] \<or> list_ex (like_prefix (sw_workflow_uuid r)) (lf_workflow_id_prefix f)) \<and>
     is_none_or (\<lambda>wf. sw_was_forked_from r = wf) (lf_was_forked_from f) \<and>
     is_none_or (\<lambda>t. sw_created_at r \<ge> t) (lf_start_time_ms f) \<and>
     is_none_or (\<lambda>t. sw_created_at r \<le> t) (lf_end_time_ms f) \<and>
     is_none_or (\<lambda>t. is_some_and (\<lambda>c. c \<ge> t) (sw_completed_at r)) (lf_completed_after_ms f) \<and>
     is_none_or (\<lambda>t. is_some_and (\<lambda>c. c \<le> t) (sw_completed_at r)) (lf_completed_before_ms f) \<and>
     is_none_or (\<lambda>t. is_some_and (\<lambda>s. s \<ge> t) (sw_started_at_epoch_ms r)) (lf_dequeued_after_ms f) \<and>
     is_none_or (\<lambda>t. is_some_and (\<lambda>s. s \<le> t) (sw_started_at_epoch_ms r)) (lf_dequeued_before_ms f) \<and>
     is_none_or (\<lambda>hp. (sw_parent_workflow_id r \<noteq> None) = hp) (lf_has_parent f) \<and>
     (\<not> lf_queues_only f \<or> sw_queue_name r \<noteq> None)"

text \<open>\<open>NULL AS inputs\<close> and \<open>NULL AS output\<close> for the payloads not asked for.\<close>

definition list_select_cols :: "list_filter \<Rightarrow> status_row \<Rightarrow> status_row" where
  "list_select_cols f r =
     (let r1 = (if lf_load_input f then r else r \<lparr> sw_inputs := None \<rparr>)
      in if lf_load_output f then r1 else r1 \<lparr> sw_output := None \<rparr>)"

text \<open>A negative limit is no limit; an OFFSET without a LIMIT is not SQLite syntax.\<close>

definition sql_limit :: "int option \<Rightarrow> 'r list \<Rightarrow> 'r list" where
  "sql_limit lim rs = (case lim of Some l \<Rightarrow> if l < 0 then rs else take (nat l) rs | None \<Rightarrow> rs)"

definition sqlite_list_workflows :: "sqlite \<Rightarrow> list_filter \<Rightarrow> ('u database, workflow_status list) op" where
  "sqlite_list_workflows Q f db =
     (if lf_limit f = None \<and> lf_offset f \<noteq> None then (Inl (Db (syntax_error Q)), db)
      else
        let rows = filter (push_list_filters f) (db_status db);
            rows = (if lf_sort_desc f then sort_key (\<lambda>r. - sw_created_at r) rows else sort_key sw_created_at rows);
            rows = (case lf_offset f of Some off \<Rightarrow> drop (nat off) rows | None \<Rightarrow> rows)
        in (Inr (map (row_to_status Q \<circ> list_select_cols f) (sql_limit (lf_limit f) rows)), db))"

section \<open>Registries\<close>

definition encode_schedule_context :: "sqlite \<Rightarrow> json option \<Rightarrow> string" where
  "encode_schedule_context Q ctx =
     (case ctx of Some v \<Rightarrow> jt_to_string (ce_json (sl_codec Q)) v | None \<Rightarrow> ''null'')"

definition decode_schedule_context :: "sqlite \<Rightarrow> string \<Rightarrow> json option" where
  "decode_schedule_context Q txt =
     (case jt_from_str (ce_json (sl_codec Q)) txt of
        Inr v \<Rightarrow> if is_null v then None else Some v
      | Inl _ \<Rightarrow> None)"

definition schedule_row_of :: "sqlite \<Rightarrow> workflow_schedule \<Rightarrow> schedule_row" where
  "schedule_row_of Q s =
     \<lparr> sc_schedule_id = sch_schedule_id s, sc_schedule_name = sch_schedule_name s,
       sc_workflow_name = sch_workflow_name s, sc_schedule = sch_schedule s,
       sc_status = schedule_status_as_str (sch_status s), sc_context = encode_schedule_context Q (sch_context s),
       sc_last_fired_at = map_option (sl_to_rfc3339 Q) (sch_last_fired_at s),
       sc_automatic_backfill = sch_automatic_backfill s, sc_cron_timezone = sch_cron_timezone s,
       sc_queue_name = sch_queue_name s \<rparr>"

definition row_to_schedule :: "sqlite \<Rightarrow> schedule_row \<Rightarrow> workflow_schedule" where
  "row_to_schedule Q r =
     \<lparr> sch_schedule_id = sc_schedule_id r, sch_schedule_name = sc_schedule_name r,
       sch_workflow_name = sc_workflow_name r, sch_schedule = sc_schedule r,
       sch_status = schedule_status_parse (sc_status r), sch_context = decode_schedule_context Q (sc_context r),
       sch_last_fired_at = Option.bind (sc_last_fired_at r) (sl_parse_rfc3339 Q),
       sch_automatic_backfill = sc_automatic_backfill r, sch_cron_timezone = sc_cron_timezone r,
       sch_queue_name = sc_queue_name r \<rparr>"

text \<open>The id and the name of a schedule are unique.\<close>

definition sqlite_create_schedule :: "sqlite \<Rightarrow> workflow_schedule \<Rightarrow> ('u database, unit) op" where
  "sqlite_create_schedule Q s db =
     (let row = schedule_row_of Q s in
      if list_ex (\<lambda>r. sc_schedule_name r = sc_schedule_name row \<or> sc_schedule_id r = sc_schedule_id row) (db_schedules db)
      then (Inl (Db (unique_violation Q)), db)
      else (Inr (), db \<lparr> db_schedules := db_schedules db @ [row] \<rparr>))"

fun apply_schedule_loop :: "sqlite \<Rightarrow> workflow_schedule list \<Rightarrow> ('u database, unit) op" where
  "apply_schedule_loop Q [] = ok ()"
| "apply_schedule_loop Q (s # ss) =
     (\<lambda>db. and_then (sqlite_create_schedule Q s) (\<lambda>_. apply_schedule_loop Q ss)
        (db \<lparr> db_schedules := sql_delete (\<lambda>r. sc_schedule_name r = sch_schedule_name s) (db_schedules db) \<rparr>))"

definition sqlite_apply_schedules :: "sqlite \<Rightarrow> workflow_schedule list \<Rightarrow> ('u database, unit) op" where
  "sqlite_apply_schedules Q ss = transactional (apply_schedule_loop Q ss)"

definition sqlite_list_schedules :: "sqlite \<Rightarrow> schedule_filter \<Rightarrow> ('u database, workflow_schedule list) op" where
  "sqlite_list_schedules Q f db =
     (Inr (map (row_to_schedule Q) (sort_key sc_schedule_name (filter (\<lambda>r.
        sql_in (map schedule_status_as_str (sf_statuses f)) (Some (sc_status r)) \<and>
        sql_in (sf_workflow_names f) (Some (sc_workflow_name r)) \<and>
        (sf_name_prefixes f = [] \<or> list_ex (like_prefix (sc_schedule_name r)) (sf_name_prefixes f)))
        (db_schedules db)))), db)"

definition sqlite_set_schedule_status ::
    "sqlite \<Rightarrow> string \<Rightarrow> schedule_status \<Rightarrow> ('u database, bool) op" where
  "sqlite_set_schedule_status Q name status db =
     (let hit = (\<lambda>r. sc_schedule_name r = name) in
      (Inr (rows_affected hit (db_schedules db) > 0),
       db \<lparr> db_schedules := sql_update hit (\<lambda>r. r \<lparr> sc_status := schedule_status_as_str status \<rparr>) (db_schedules db) \<rparr>))"

definition sqlite_set_schedule_last_fired :: "sqlite \<Rightarrow> string \<Rightarrow> int \<Rightarrow> ('u database, unit) op" where
  "sqlite_set_schedule_last_fired Q name at_ms db =
     (Inr (), db \<lparr> db_schedules := sql_update (\<lambda>r. sc_schedule_name r = name)
        (\<lambda>r. r \<lparr> sc_last_fired_at := map_option (sl_to_rfc3339 Q) (sl_from_ms Q at_ms) \<rparr>) (db_schedules db) \<rparr>)"

definition sqlite_delete_schedule :: "sqlite \<Rightarrow> string \<Rightarrow> ('u database, bool) op" where
  "sqlite_delete_schedule Q name db =
     (let hit = (\<lambda>r. sc_schedule_name r = name) in
      (Inr (rows_affected hit (db_schedules db) > 0), db \<lparr> db_schedules := sql_delete hit (db_schedules db) \<rparr>))"

definition row_to_version :: "sqlite \<Rightarrow> version_row \<Rightarrow> version_info" where
  "row_to_version Q r =
     \<lparr> vi_version_id = ve_version_id r, vi_version_name = ve_version_name r,
       vi_version_timestamp = ms_to_dt Q (ve_version_timestamp r), vi_created_at = ms_to_dt Q (ve_created_at r) \<rparr>"

definition sqlite_create_application_version ::
    "sqlite \<Rightarrow> string \<Rightarrow> string \<Rightarrow> datetime \<Rightarrow> ('u database, unit) op" where
  "sqlite_create_application_version Q version_name fresh now db =
     (Inr (), db \<lparr> db_versions := insert_or_ignore ve_version_name
        \<lparr> ve_version_id = fresh, ve_version_name = version_name, ve_version_timestamp = timestamp_millis now,
          ve_created_at = timestamp_millis now \<rparr> (db_versions db) \<rparr>)"

definition sqlite_list_application_versions :: "sqlite \<Rightarrow> ('u database, version_info list) op" where
  "sqlite_list_application_versions Q db =
     (Inr (map (row_to_version Q) (sort_key (\<lambda>v. - ve_version_timestamp v) (db_versions db))), db)"

definition sqlite_get_latest_application_version :: "sqlite \<Rightarrow> ('u database, version_info option) op" where
  "sqlite_get_latest_application_version Q db = (Inr (map_option (row_to_version Q) (latest_version_row db)), db)"

definition sqlite_set_latest_application_version ::
    "sqlite \<Rightarrow> string \<Rightarrow> datetime \<Rightarrow> ('u database, bool) op" where
  "sqlite_set_latest_application_version Q version_name now db =
     (let hit = (\<lambda>v. ve_version_name v = version_name) in
      (Inr (rows_affected hit (db_versions db) > 0),
       db \<lparr> db_versions := sql_update hit (\<lambda>v. v \<lparr> ve_version_timestamp := timestamp_millis now \<rparr>) (db_versions db) \<rparr>))"

definition queue_row_of :: "sqlite \<Rightarrow> workflow_queue \<Rightarrow> queue_row" where
  "queue_row_of Q q =
     \<lparr> qu_name = q_name q, qu_concurrency = q_global_concurrency q,
       qu_worker_concurrency = map_option (\<lambda>n. i64_wrap (int n)) (q_worker_concurrency q),
       qu_rate_limit_max = map_option rl_limit (q_rate_limit q),
       qu_rate_limit_period_sec = map_option (\<lambda>l. sl_as_secs_f64 Q (rl_period l)) (q_rate_limit q),
       qu_priority_enabled = q_priority_enabled q, qu_partition_queue = q_partitioned q,
       qu_polling_interval_sec = sl_as_secs_f64 Q (q_base_polling_interval q) \<rparr>"

definition row_to_queue :: "sqlite \<Rightarrow> queue_row \<Rightarrow> workflow_queue" where
  "row_to_queue Q r =
     (workflow_queue_new (qu_name r))
       \<lparr> q_global_concurrency := qu_concurrency r,
         q_worker_concurrency := map_option (\<lambda>n. unat (word_of_int n :: 64 word)) (qu_worker_concurrency r),
         q_rate_limit :=
           (case (qu_rate_limit_max r, qu_rate_limit_period_sec r) of
              (Some limit, Some p) \<Rightarrow> Some \<lparr> rl_limit = limit, rl_period = sl_from_secs_f64 Q p \<rparr>
            | _ \<Rightarrow> None),
         q_priority_enabled := qu_priority_enabled r, q_partitioned := qu_partition_queue r,
         q_base_polling_interval := sl_from_secs_f64 Q (qu_polling_interval_sec r) \<rparr>"

definition sqlite_upsert_queue :: "sqlite \<Rightarrow> workflow_queue \<Rightarrow> bool \<Rightarrow> ('u database, unit) op" where
  "sqlite_upsert_queue Q q update_existing db =
     (let row = queue_row_of Q q in
      (Inr (), db \<lparr> db_queues :=
         (if update_existing then insert_or_replace qu_name row (\<lambda>_. row) (db_queues db)
          else insert_or_ignore qu_name row (db_queues db)) \<rparr>))"

definition sqlite_list_queues :: "sqlite \<Rightarrow> ('u database, workflow_queue list) op" where
  "sqlite_list_queues Q db = (Inr (map (row_to_queue Q) (sort_key qu_name (db_queues db))), db)"

section \<open>Aggregates\<close>

text \<open>
  The WHERE clause of \<open>push_agg_filters\<close> and the selected columns of a row. A query with no group column
  or nothing selected has an empty GROUP BY or SELECT list, which is not SQL.
\<close>

definition push_agg_filters :: "workflow_aggregate_query \<Rightarrow> status_row \<Rightarrow> bool" where
  "push_agg_filters q r \<longleftrightarrow>
     sql_in (wq_status q) (Some (sw_status r)) \<and>
     sql_in (wq_name q) (Some (sw_name r)) \<and>
     sql_in (wq_app_version q) (Some (sw_application_version r)) \<and>
     sql_in (wq_executor_ids q) (Some (sw_executor_id r)) \<and>
     sql_in (wq_queue_names q) (sw_queue_name r) \<and>
     is_none_or (like_prefix (sw_workflow_uuid r)) (wq_workflow_id_prefix q) \<and>
     is_none_or (\<lambda>t. sw_created_at r \<ge> t) (wq_start_time_ms q) \<and>
     is_none_or (\<lambda>t. sw_created_at r \<le> t) (wq_end_time_ms q) \<and>
     is_none_or (\<lambda>t. is_some_and (\<lambda>c. c \<ge> t) (sw_completed_at r)) (wq_completed_after_ms q) \<and>
     is_none_or (\<lambda>t. is_some_and (\<lambda>c. c \<le> t) (sw_completed_at r)) (wq_completed_before_ms q) \<and>
     is_none_or (\<lambda>t. is_some_and (\<lambda>s. s \<ge> t) (sw_started_at_epoch_ms r)) (wq_dequeued_after_ms q) \<and>
     is_none_or (\<lambda>t. is_some_and (\<lambda>s. s \<le> t) (sw_started_at_epoch_ms r)) (wq_dequeued_before_ms q)"

definition status_col :: "status_row \<Rightarrow> string \<Rightarrow> string option" where
  "status_col r col =
     (if col = ''status'' then Some (sw_status r)
      else if col = ''name'' then Some (sw_name r)
      else if col = ''queue_name'' then sw_queue_name r
      else if col = ''executor_id'' then Some (sw_executor_id r)
      else if col = ''application_version'' then Some (sw_application_version r)
      else None)"

definition row_group :: "workflow_aggregate_query \<Rightarrow> status_row \<Rightarrow> group_key" where
  "row_group q r =
     map (\<lambda>(key, col). (key, status_col r col)) (enabled_columns q)
     @ (case option_filter (\<lambda>b. b > 0) (wq_time_bucket_ms q) of
          Some b \<Rightarrow> [(''time_bucket'', Some (int_to_string (tdiv (sw_created_at r) b * b)))]
        | None \<Rightarrow> [])"

text \<open>\<open>MAX\<close> over the rows of a group whose value is not NULL.\<close>

definition sql_max :: "('r \<Rightarrow> int option) \<Rightarrow> 'r list \<Rightarrow> int option" where
  "sql_max f rs = (case List.map_filter f rs of [] \<Rightarrow> None | x # xs \<Rightarrow> Some (fold max xs x))"

definition sql_min :: "('r \<Rightarrow> int) \<Rightarrow> 'r list \<Rightarrow> int option" where
  "sql_min f rs = (case map f rs of [] \<Rightarrow> None | x # xs \<Rightarrow> Some (fold min xs x))"

definition sqlite_get_workflow_aggregates ::
    "sqlite \<Rightarrow> workflow_aggregate_query \<Rightarrow> ('u database, workflow_aggregate list) op" where
  "sqlite_get_workflow_aggregates Q q db =
     (if enabled_columns q = [] \<and> option_filter (\<lambda>b. b > 0) (wq_time_bucket_ms q) = None \<or> workflow_agg_selects q = []
      then (Inl (Db (syntax_error Q)), db)
      else
      let rows = filter (push_agg_filters q) (db_status db);
          aggregate = (\<lambda>k. let rs = filter (\<lambda>r. row_group q r = k) rows in
            \<lparr> wa_group = bt_of_list k,
              wa_count = then_some (wq_select_count q) (int (length rs)),
              wa_min_created_at = (if wq_select_min_created_at q then sql_min sw_created_at rs else None),
              wa_max_queue_wait_ms = (if wq_select_max_queue_wait_ms q
                then sql_max (\<lambda>r. map_option (\<lambda>s. s - sw_created_at r) (sw_started_at_epoch_ms r)) rs else None),
              wa_max_total_latency_ms = (if wq_select_max_total_latency_ms q
                then sql_max (\<lambda>r. map_option (\<lambda>c. c - sw_created_at r) (sw_completed_at r)) rs else None) \<rparr>)
      in (Inr (sql_limit (wq_limit q) (map aggregate (remdups (map (row_group q) rows)))), db))"

definition step_status :: "output_row \<Rightarrow> string" where
  "step_status r = (if oo_error r = None then ''SUCCESS'' else ''ERROR'')"

definition push_step_agg_filters :: "step_aggregate_query \<Rightarrow> output_row \<Rightarrow> bool" where
  "push_step_agg_filters q r \<longleftrightarrow>
     sql_in (sq_status q) (Some (step_status r)) \<and>
     sql_in (sq_function_name q) (Some (oo_function_name r)) \<and>
     is_none_or (like_prefix (oo_workflow_uuid r)) (sq_workflow_id_prefix q) \<and>
     is_none_or (\<lambda>t. is_some_and (\<lambda>c. c \<ge> t) (oo_completed_at_epoch_ms r)) (sq_completed_after_ms q) \<and>
     is_none_or (\<lambda>t. is_some_and (\<lambda>c. c \<le> t) (oo_completed_at_epoch_ms r)) (sq_completed_before_ms q)"

definition step_group :: "step_aggregate_query \<Rightarrow> output_row \<Rightarrow> group_key" where
  "step_group q r =
     map (\<lambda>(key, _). (key, Some (if key = ''status'' then step_status r else oo_function_name r))) (group_exprs q)
     @ (case option_filter (\<lambda>b. b > 0) (sq_time_bucket_ms q) of
          Some b \<Rightarrow> [(''time_bucket'',
            map_option (\<lambda>c. int_to_string (tdiv c b * b)) (oo_completed_at_epoch_ms r))]
        | None \<Rightarrow> [])"

definition step_duration :: "output_row \<Rightarrow> int option" where
  "step_duration r =
     (case (oo_started_at_epoch_ms r, oo_completed_at_epoch_ms r) of
        (Some st, Some en) \<Rightarrow> Some (en - st) | _ \<Rightarrow> None)"

definition sqlite_get_step_aggregates ::
    "sqlite \<Rightarrow> step_aggregate_query \<Rightarrow> ('u database, step_aggregate list) op" where
  "sqlite_get_step_aggregates Q q db =
     (if group_exprs q = [] \<and> option_filter (\<lambda>b. b > 0) (sq_time_bucket_ms q) = None \<or> sq_no_select q
      then (Inl (Db (syntax_error Q)), db)
      else
      let rows = filter (push_step_agg_filters q) (db_outputs db);
          aggregate = (\<lambda>k. let rs = filter (\<lambda>r. step_group q r = k) rows in
            \<lparr> sa_group = bt_of_list k,
              sa_count = then_some (sq_select_count q) (int (length rs)),
              sa_max_duration_ms = (if sq_select_max_duration_ms q then sql_max step_duration rs else None) \<rparr>)
      in (Inr (sql_limit (sq_limit q) (map aggregate (remdups (map (step_group q) rows)))), db))"

section \<open>The provider\<close>

definition sqlite_provider :: "sqlite \<Rightarrow> 'u database provider" where
  "sqlite_provider Q =
     \<lparr> pv_serializer = sl_serializer Q,
       pv_supports_listen_notify = False,
       pv_insert_workflow_status = sqlite_insert_workflow_status Q,
       pv_get_deduplicated_workflow = sqlite_get_deduplicated_workflow Q,
       pv_get_workflow_status = sqlite_get_workflow_status Q,
       pv_set_workflow_status = sqlite_set_workflow_status Q,
       pv_get_step_result = sqlite_get_step_result Q,
       pv_record_step_result = sqlite_record_step_result Q,
       pv_dequeue_workflows = (\<lambda>req now upd db. Some (sqlite_dequeue_workflows Q req now db)),
       pv_transition_delayed_workflows = (\<lambda>now_ms upd. sqlite_transition_delayed_workflows Q now_ms),
       pv_queue_partitions = sqlite_queue_partitions Q,
       pv_insert_notification = sqlite_insert_notification Q,
       pv_consume_notification = sqlite_consume_notification Q,
       pv_upsert_event = sqlite_upsert_event Q,
       pv_get_event_value = sqlite_get_event_value Q,
       pv_list_workflows = sqlite_list_workflows Q,
       pv_get_workflow_aggregates = sqlite_get_workflow_aggregates Q,
       pv_get_step_aggregates = sqlite_get_step_aggregates Q,
       pv_cancel_workflow = sqlite_cancel_workflow Q,
       pv_resume_workflow = sqlite_resume_workflow Q,
       pv_enqueue_existing = sqlite_enqueue_existing Q,
       pv_cancel_workflows = sqlite_cancel_workflows Q,
       pv_resume_workflows = sqlite_resume_workflows Q,
       pv_delete_workflows = sqlite_delete_workflows Q,
       pv_set_workflow_delay = sqlite_set_workflow_delay Q,
       pv_fork_workflow = sqlite_fork_workflow Q,
       pv_bump_recovery_attempts = sqlite_bump_recovery_attempts Q,
       pv_record_child_workflow = sqlite_record_child_workflow Q,
       pv_check_child_workflow = sqlite_check_child_workflow Q,
       pv_get_workflow_steps = sqlite_get_workflow_steps Q,
       pv_get_step_name = sqlite_get_step_name Q,
       pv_record_patch = sqlite_record_patch Q,
       pv_write_stream = sqlite_write_stream Q,
       pv_read_stream = sqlite_read_stream Q,
       pv_list_workflow_events = sqlite_list_workflow_events Q,
       pv_list_workflow_notifications = sqlite_list_workflow_notifications Q,
       pv_list_workflow_streams = sqlite_list_workflow_streams Q,
       pv_create_schedule = sqlite_create_schedule Q,
       pv_apply_schedules = sqlite_apply_schedules Q,
       pv_list_schedules = sqlite_list_schedules Q,
       pv_set_schedule_status = sqlite_set_schedule_status Q,
       pv_set_schedule_last_fired = sqlite_set_schedule_last_fired Q,
       pv_delete_schedule = sqlite_delete_schedule Q,
       pv_create_application_version = sqlite_create_application_version Q,
       pv_list_application_versions = sqlite_list_application_versions Q,
       pv_get_latest_application_version = sqlite_get_latest_application_version Q,
       pv_set_latest_application_version = sqlite_set_latest_application_version Q,
       pv_upsert_queue = sqlite_upsert_queue Q,
       pv_list_queues = sqlite_list_queues Q \<rparr>"

text \<open>The provider's own garbage collection: one statement after the cutoff is resolved.\<close>

definition sqlite_garbage_collect ::
    "sqlite \<Rightarrow> int option \<Rightarrow> int option \<Rightarrow> ('u database, nat) op" where
  "sqlite_garbage_collect Q cutoff_epoch_ms rows_threshold =
     and_then (resolve_gc_cutoff (sqlite_provider Q) cutoff_epoch_ms rows_threshold)
     (\<lambda>c db. case c of
        None \<Rightarrow> (Inr 0, db)
      | Some cutoff \<Rightarrow>
          let old = (\<lambda>r. sw_created_at r < cutoff \<and>
                sw_status r \<notin> {STATUS_PENDING, STATUS_ENQUEUED, STATUS_DELAYED})
          in (Inr (rows_affected old (db_status db)), delete_status old db))"

end
