(* ===== verification/Sqlite_Refine.thy ===== *)
theory Sqlite_Refine
  imports Sqlite_Ops
begin

text \<open>
  The SQLite provider refines the in-memory one. The abstraction reads every table back through the
  provider's own row readers; on well-formed databases an operation of the SQLite provider followed by
  the abstraction is the abstraction followed by the operation of the in-memory provider, with the same
  answer. Where the two providers disagree, the call is excluded by \<open>call_ok\<close>, which says how.
\<close>

section \<open>The abstraction\<close>

definition step_of :: "sqlite \<Rightarrow> output_row \<Rightarrow> step_row" where
  "step_of Q r =
     \<lparr> sr_name = oo_function_name r,
       sr_output = (case decode_opt (sl_codec Q) (sl_serializer Q) (oo_serialization r) (oo_output r) of
                      Inr out \<Rightarrow> out | Inl _ \<Rightarrow> None),
       sr_error = map_option (\<lambda>e. fst (decode_error (sl_codec Q) (oo_serialization r) e)) (oo_error r),
       sr_child_workflow_id = oo_child_workflow_id r, sr_started_at_ms = oo_started_at_epoch_ms r,
       sr_completed_at_ms = oo_completed_at_epoch_ms r \<rparr>"

definition event_of :: "sqlite \<Rightarrow> event_row \<Rightarrow> json" where
  "event_of Q r = (case decode (sl_codec Q) (sl_serializer Q) (we_serialization r) (we_value r) of Inr v \<Rightarrow> v | Inl _ \<Rightarrow> JNull)"

definition abs_db :: "sqlite \<Rightarrow> 'u database \<Rightarrow> inner" where
  "abs_db Q db =
     \<lparr> workflows = map (\<lambda>r. (sw_workflow_uuid r, row_to_status Q r)) (db_status db),
       steps = map (\<lambda>r. (output_key r, step_of Q r)) (db_outputs db),
       notifications = [],
       events = map (\<lambda>r. (event_key r, event_of Q r)) (db_events db),
       streams = [],
       schedules = map (\<lambda>r. (sc_schedule_name r, row_to_schedule Q r)) (db_schedules db),
       versions = map (\<lambda>r. (ve_version_name r, row_to_version Q r)) (db_versions db),
       queues = map (\<lambda>r. (qu_name r, row_to_queue Q r)) (db_queues db) \<rparr>"

text \<open>What the provider writes can be read back: values, instants to the millisecond, plain error texts.\<close>

definition storable :: "sqlite \<Rightarrow> json \<Rightarrow> bool" where
  "storable Q v \<longleftrightarrow> (\<exists>enc. encode (sl_codec Q) (sl_serializer Q) v = Inr enc \<and>
     decode (sl_codec Q) (sl_serializer Q) (Some (serializer_name (sl_serializer Q))) enc = Inr v)"

definition whole_ms :: "sqlite \<Rightarrow> datetime \<Rightarrow> bool" where
  "whole_ms Q t \<longleftrightarrow> ms_to_dt Q (timestamp_millis t) = t"

definition plain_format :: "sqlite \<Rightarrow> bool" where
  "plain_format Q \<longleftrightarrow> serializer_name (sl_serializer Q) \<noteq> PORTABLE"

definition decodes :: "sqlite \<Rightarrow> string option \<Rightarrow> string option \<Rightarrow> bool" where
  "decodes Q fmt col \<longleftrightarrow> (\<forall>t. col = Some t \<longrightarrow> (\<exists>v. decode (sl_codec Q) (sl_serializer Q) fmt t = Inr v))"

definition sql_wf :: "sqlite \<Rightarrow> 'u database \<Rightarrow> bool" where
  "sql_wf Q db \<longleftrightarrow>
     distinct (map sw_workflow_uuid (db_status db)) \<and> distinct (map output_key (db_outputs db)) \<and>
     distinct (map event_key (db_events db)) \<and> slots_unique (db_status db) \<and>
     (\<forall>r \<in> set (db_status db). sw_serialization r = Some (serializer_name (sl_serializer Q))) \<and>
     (\<forall>r \<in> set (db_outputs db). oo_serialization r \<noteq> Some PORTABLE \<and> decodes Q (oo_serialization r) (oo_output r) \<and>
        has_workflow (oo_workflow_uuid r) db \<and> (oo_output r = None \<or> oo_error r = None)) \<and>
     (\<forall>r \<in> set (db_events db). decodes Q (we_serialization r) (Some (we_value r)) \<and> has_workflow (we_workflow_uuid r) db)"

section \<open>Tables and maps\<close>

lemma hm_get_map_rows: "hm_get (map (\<lambda>r. (k r, f r)) t) key = map_option f (find (\<lambda>r. k r = key) t)"
  by (induction t) auto

lemma hm_modify_map_rows:
  "(\<And>r. r \<in> set t \<Longrightarrow> k r = key \<Longrightarrow> f (g r) = h (f r) \<and> k (g r) = k r) \<Longrightarrow>
   hm_modify key h (map (\<lambda>r. (k r, f r)) t) = map (\<lambda>r. (k r, f r)) (sql_update (\<lambda>r. k r = key) g t)"
  by (induction t) (auto simp: hm_modify_def sql_update_def)

lemma hm_insert_map_rows:
  "key \<notin> k ` set t \<Longrightarrow> k r = key \<Longrightarrow> hm_insert key (f r) (map (\<lambda>r. (k r, f r)) t) = map (\<lambda>r. (k r, f r)) (t @ [r])"
  by (induction t) auto

lemma hm_insert_map_update:
  "distinct (map k t) \<Longrightarrow> key \<in> k ` set t \<Longrightarrow> (\<And>r. k r = key \<Longrightarrow> f (g r) = v \<and> k (g r) = key) \<Longrightarrow>
   hm_insert key v (map (\<lambda>r. (k r, f r)) t) = map (\<lambda>r. (k r, f r)) (sql_update (\<lambda>r. k r = key) g t)"
proof (induction t)
  case (Cons r t)
  show ?case
  proof (cases "k r = key")
    case True
    hence "k x \<noteq> key" if "x \<in> set t" for x using Cons.prems(1) that by (metis distinct.simps(2) image_eqI list.simps(9) set_map)
    hence "sql_update (\<lambda>r. k r = key) g t = t" by (auto simp: sql_update_def intro!: map_idI)
    with True Cons.prems(3) show ?thesis by (simp add: sql_update_def)
  next
    case False
    with Cons show ?thesis by (auto simp: sql_update_def)
  qed
qed simp

text \<open>With unique keys, an update of one row under a condition is the update of the row or none.\<close>

lemma find_key:
  "distinct (map k t) \<Longrightarrow> find (\<lambda>r. k r = key) t = Some r0 \<longleftrightarrow> r0 \<in> set t \<and> k r0 = key"
  by (induction t) auto

lemma find_key_and:
  "distinct (map k t) \<Longrightarrow> find (\<lambda>r. k r = key) t = Some r \<Longrightarrow> p r \<Longrightarrow> find (\<lambda>r. k r = key \<and> p r) t = Some r"
  by (induction t) (auto split: if_splits)

lemma sql_update_one:
  assumes "distinct (map k t)" and "find (\<lambda>r. k r = key) t = Some r0"
  shows "sql_update (\<lambda>r. k r = key \<and> p r) g t = (if p r0 then sql_update (\<lambda>r. k r = key) g t else t)"
proof -
  have "r = r0" if "r \<in> set t" and "k r = key" for r
    using assms that by (metis find_key option.inject)
  thus ?thesis by (auto simp: sql_update_def intro!: map_idI)
qed

lemma sql_update_none:
  "find (\<lambda>r. k r = key) t = None \<Longrightarrow> sql_update (\<lambda>r. k r = key \<and> p r) g t = t"
  by (auto simp: sql_update_def find_None_iff intro!: map_idI)

lemma rows_affected_one:
  "distinct (map k t) \<Longrightarrow> rows_affected (\<lambda>r. k r = key \<and> p r) t =
     (case find (\<lambda>r. k r = key) t of Some r0 \<Rightarrow> if p r0 then 1 else 0 | None \<Rightarrow> 0)"
  by (induction t) (auto simp: rows_affected_def find_Some_iff filter_empty_conv split: option.splits)

lemma abs_workflow [simp]: "hm_get (workflows (abs_db Q db)) wid = map_option (row_to_status Q) (find_status wid db)"
  by (simp add: abs_db_def hm_get_map_rows find_status_def)

lemma abs_step [simp]: "hm_get (steps (abs_db Q db)) (wid, i) = map_option (step_of Q) (find_output wid i db)"
  by (simp add: abs_db_def hm_get_map_rows find_output_def output_key_def)

lemma abs_event [simp]:
  "hm_get (events (abs_db Q db)) (wid, key) = map_option (event_of Q) (find (\<lambda>r. event_key r = (wid, key)) (db_events db))"
  by (simp add: abs_db_def hm_get_map_rows)

lemma find_status_key: "find_status wid db = None \<longleftrightarrow> \<not> has_workflow wid db"
  by (auto simp: find_status_def find_None_iff has_workflow_def)

lemma find_status_Some: "find_status wid db = Some r \<Longrightarrow> r \<in> set (db_status db) \<and> sw_workflow_uuid r = wid"
  by (auto simp: find_status_def find_Some_iff)

section \<open>Workflow rows\<close>

lemma row_to_status_id [simp]: "ws_id (row_to_status Q r) = sw_workflow_uuid r"
  by (simp add: row_to_status_def Let_def split: prod.splits)

lemma row_to_status_cols [simp]:
  "ws_status (row_to_status Q r) = sw_status r"
  "ws_queue_name (row_to_status Q r) = sw_queue_name r"
  "ws_dedup_id (row_to_status Q r) = sw_deduplication_id r"
  "ws_delay_until_ms (row_to_status Q r) = sw_delay_until_epoch_ms r"
  by (simp_all add: row_to_status_def Let_def split: prod.splits)

lemma slots_subset:
  "\<forall>r \<in> set t. p r \<longrightarrow> slot (f r) = None \<or> slot (f r) = slot r \<Longrightarrow>
   set (List.map_filter slot (sql_update p f t)) \<subseteq> set (List.map_filter slot t)"
  by (induction t) (auto simp: sql_update_def map_filter_simps split: option.splits)

lemma slots_unique_update:
  "slots_unique t \<Longrightarrow> \<forall>r \<in> set t. p r \<longrightarrow> slot (f r) = None \<or> slot (f r) = slot r \<Longrightarrow>
   slots_unique (sql_update p f t)"
proof (induction t)
  case (Cons r t)
  with slots_subset [of t p f] show ?case
    by (auto simp: slots_unique_def sql_update_def map_filter_simps split: option.splits if_splits)
qed (simp add: slots_unique_def sql_update_def map_filter_simps)

lemma sql_wf_rows:
  "sql_wf Q db \<Longrightarrow> slots_unique t \<Longrightarrow> map sw_workflow_uuid t = map sw_workflow_uuid (db_status db) \<Longrightarrow>
   \<forall>r \<in> set t. sw_serialization r = Some (serializer_name (sl_serializer Q)) \<Longrightarrow> sql_wf Q (db \<lparr> db_status := t \<rparr>)"
  unfolding sql_wf_def has_workflow_def by (simp flip: set_map)

text \<open>
  A row update that reads back as the in-memory one: same key, same format, and it takes no slot.
\<close>

definition row_refines :: "sqlite \<Rightarrow> (status_row \<Rightarrow> status_row) \<Rightarrow> (workflow_status \<Rightarrow> workflow_status) \<Rightarrow> status_row \<Rightarrow> bool" where
  "row_refines Q f h r \<longleftrightarrow>
     row_to_status Q (f r) = h (row_to_status Q r) \<and> sw_workflow_uuid (f r) = sw_workflow_uuid r \<and>
     sw_serialization (f r) = sw_serialization r \<and> (slot (f r) = None \<or> slot (f r) = slot r)"

lemma update_status_all:
  assumes "sql_wf Q db" and "\<And>r. r \<in> set (db_status db) \<Longrightarrow> p r \<Longrightarrow> row_refines Q f h r"
  shows "update_status Q p f db = (Inr (rows_affected p (db_status db)), db \<lparr> db_status := sql_update p f (db_status db) \<rparr>)"
    and "sql_wf Q (db \<lparr> db_status := sql_update p f (db_status db) \<rparr>)"
proof -
  have u: "slots_unique (sql_update p f (db_status db))"
    using assms by (intro slots_unique_update) (auto simp: sql_wf_def row_refines_def)
  thus "update_status Q p f db = (Inr (rows_affected p (db_status db)), db \<lparr> db_status := sql_update p f (db_status db) \<rparr>)"
    by (simp add: update_status_def)
  show "sql_wf Q (db \<lparr> db_status := sql_update p f (db_status db) \<rparr>)"
    using assms by (intro sql_wf_rows u) (auto simp: sql_update_def row_refines_def sql_wf_def)
qed

lemma update_status_one:
  assumes wf: "sql_wf Q db" and r: "find_status wid db = Some r" and ref: "p r \<Longrightarrow> row_refines Q f h r"
  shows "\<exists>db'. update_status Q (\<lambda>r. sw_workflow_uuid r = wid \<and> p r) f db = (Inr (if p r then 1 else 0), db') \<and>
    abs_db Q db' = (if p r then update_row wid h (abs_db Q db) else abs_db Q db) \<and> sql_wf Q db'"
proof -
  let ?t = "db_status db"
  let ?p = "\<lambda>r. sw_workflow_uuid r = wid \<and> p r"
  have d: "distinct (map sw_workflow_uuid ?t)" using wf by (simp add: sql_wf_def)
  have only: "r' = r" if "r' \<in> set ?t" "sw_workflow_uuid r' = wid" for r'
    using d r that by (metis find_key find_status_def option.inject)
  have rr: "row_refines Q f h r'" if "r' \<in> set ?t" "sw_workflow_uuid r' = wid \<and> p r'" for r'
    using ref only that by blast
  note all = update_status_all [of Q db ?p f h, OF wf rr]
  have u: "sql_update ?p f ?t = (if p r then sql_update (\<lambda>r. sw_workflow_uuid r = wid) f ?t else ?t)"
    using d r by (simp add: sql_update_one find_status_def)
  have n: "rows_affected ?p ?t = (if p r then 1 else 0)"
    using d r by (simp add: rows_affected_one find_status_def)
  have m: "abs_db Q (db \<lparr> db_status := sql_update (\<lambda>r. sw_workflow_uuid r = wid) f ?t \<rparr>) = update_row wid h (abs_db Q db)"
    if "p r"
  proof -
    have "row_to_status Q (f r') = h (row_to_status Q r') \<and> sw_workflow_uuid (f r') = sw_workflow_uuid r'"
      if "r' \<in> set ?t" "sw_workflow_uuid r' = wid" for r'
      using ref \<open>p r\<close> only [OF that] by (simp add: row_refines_def)
    from hm_modify_map_rows [of ?t sw_workflow_uuid wid "row_to_status Q" f h, OF this]
    show ?thesis by (simp add: abs_db_def update_row_def)
  qed
  show ?thesis
    using all by (intro exI [of _ "db \<lparr> db_status := sql_update ?p f ?t \<rparr>"]) (auto simp: u n m)
qed

lemma update_status_absent:
  assumes "sql_wf Q db" and "find_status wid db = None"
  shows "update_status Q (\<lambda>r. sw_workflow_uuid r = wid \<and> p r) f db = (Inr 0, db)"
    and "update_row wid h (abs_db Q db) = abs_db Q db"
proof -
  have "sql_update (\<lambda>r. sw_workflow_uuid r = wid \<and> p r) f (db_status db) = db_status db"
    using assms(2) by (simp add: sql_update_none find_status_def)
  moreover have "rows_affected (\<lambda>r. sw_workflow_uuid r = wid \<and> p r) (db_status db) = 0"
    using assms(2) by (auto simp: rows_affected_def find_status_def find_None_iff filter_empty_conv)
  ultimately show "update_status Q (\<lambda>r. sw_workflow_uuid r = wid \<and> p r) f db = (Inr 0, db)"
    using assms(1) by (simp add: update_status_def sql_wf_def)
  have "hm_modify wid h (workflows (abs_db Q db)) = workflows (abs_db Q db)"
    using assms(2) by (auto simp: abs_db_def hm_modify_def find_status_def find_None_iff)
  thus "update_row wid h (abs_db Q db) = abs_db Q db" by (simp add: update_row_def)
qed

text \<open>Both providers answer the same and stay related.\<close>

definition agrees :: "sqlite \<Rightarrow> ('u database, 'a) op \<Rightarrow> (inner, 'a) op \<Rightarrow> 'u database \<Rightarrow> bool" where
  "agrees Q f g db \<longleftrightarrow> (case f db of (r, db') \<Rightarrow> g (abs_db Q db) = (r, abs_db Q db') \<and> sql_wf Q db')"

lemma update_row_same:
  assumes "sql_wf Q db" and "find_status wid db = Some r" and "h (row_to_status Q r) = row_to_status Q r"
  shows "update_row wid h (abs_db Q db) = abs_db Q db"
proof -
  have "distinct (map sw_workflow_uuid (db_status db))" using assms(1) by (simp add: sql_wf_def)
  hence "r' = r" if "r' \<in> set (db_status db)" "sw_workflow_uuid r' = wid" for r'
    using assms(2) that by (metis find_key find_status_def option.inject)
  hence "hm_modify wid h (workflows (abs_db Q db)) = workflows (abs_db Q db)"
    using assms(3) by (auto simp: abs_db_def hm_modify_def)
  thus ?thesis by (simp add: update_row_def)
qed

lemma ms_to_dt_whole [simp]: "whole_ms Q t \<Longrightarrow> ms_to_dt Q (timestamp_millis t) = t"
  by (simp add: whole_ms_def)

lemma update_agrees:
  assumes wf: "sql_wf Q db" and ref: "\<And>r. find_status wid db = Some r \<Longrightarrow> p r \<Longrightarrow> row_refines Q f h r"
    and m: "m (abs_db Q db) =
      (if \<exists>r. find_status wid db = Some r \<and> p r then (Inr (k 1), update_row wid h (abs_db Q db)) else (Inr (k 0), abs_db Q db))"
  shows "agrees Q (and_then (update_status Q (\<lambda>r. sw_workflow_uuid r = wid \<and> p r) f) (\<lambda>n. ok (k n))) m db"
proof (cases "find_status wid db")
  case None
  thus ?thesis using wf m by (simp add: agrees_def and_then_def ok_def update_status_absent)
next
  case (Some r)
  from update_status_one [of Q db wid r p, OF wf Some ref [OF Some]] obtain db' where
    "update_status Q (\<lambda>r. sw_workflow_uuid r = wid \<and> p r) f db = (Inr (if p r then 1 else 0), db')"
    "abs_db Q db' = (if p r then update_row wid h (abs_db Q db) else abs_db Q db)" "sql_wf Q db'" by blast
  with m Some show ?thesis by (simp add: agrees_def and_then_def ok_def)
qed

lemmas row_read = row_to_status_def Let_def case_prod_unfold

lemma cancel_agrees:
  assumes wf: "sql_wf Q db" and w: "whole_ms Q now"
    and s: "\<forall>r. find_status wid db = Some r \<longrightarrow> sw_status r \<noteq> STATUS_MAX_RECOVERY_ATTEMPTS_EXCEEDED"
  shows "agrees Q (sqlite_cancel_workflow Q wid now) (cancel_workflow wid now) db"
  unfolding sqlite_cancel_workflow_def
proof (rule update_agrees [where h = "cancel_row now" and k = "\<lambda>_. ()", OF wf])
  fix r assume "find_status wid db = Some r" "sql_cancellable r"
  thus "row_refines Q (sql_cancel_row (timestamp_millis now)) (cancel_row now) r"
    using s w by (simp add: row_refines_def cancel_row_def sql_cancellable_def is_terminal_def)
      (simp add: sql_cancel_row_def row_read slot_def)
next
  have "update_row wid (cancel_row now) (abs_db Q db) = abs_db Q db"
    if "find_status wid db = Some r" "\<not> sql_cancellable r" for r
    using that(2) by (intro update_row_same [OF wf that(1)]) (auto simp: cancel_row_def sql_cancellable_def is_terminal_def)
  thus "cancel_workflow wid now (abs_db Q db) =
      (if \<exists>r. find_status wid db = Some r \<and> sql_cancellable r then (Inr (), update_row wid (cancel_row now) (abs_db Q db))
       else (Inr (), abs_db Q db))"
    by (cases "find_status wid db") (auto simp: cancel_workflow_def update_status_absent(2) [OF wf])
qed

lemma resume_agrees:
  assumes wf: "sql_wf Q db" and w: "whole_ms Q now"
    and s: "\<forall>r. find_status wid db = Some r \<longrightarrow> sw_status r \<noteq> STATUS_MAX_RECOVERY_ATTEMPTS_EXCEEDED"
  shows "agrees Q (sqlite_resume_workflow Q wid now) (resume_workflow wid now) db"
  unfolding sqlite_resume_workflow_def
proof (rule update_agrees [where h = "resume_row now" and k = "\<lambda>n. n > 0", OF wf])
  fix r
  show "row_refines Q (sql_resume_row (timestamp_millis now)) (resume_row now) r"
    using w by (simp add: row_refines_def resume_row_def sql_resume_row_def row_read slot_def i32_wrap_id
      i32_min_def i32_max_def split: option.splits)
next
  show "resume_workflow wid now (abs_db Q db) =
      (if \<exists>r. find_status wid db = Some r \<and> sql_resumable r then (Inr (0 < (1::nat)), update_row wid (resume_row now) (abs_db Q db))
       else (Inr (0 < (0::nat)), abs_db Q db))"
    using s by (cases "find_status wid db") (auto simp: resume_workflow_def resumable_def sql_resumable_def is_terminal_def)
qed

lemma enqueue_existing_agrees:
  assumes wf: "sql_wf Q db" and w: "whole_ms Q now"
    and s: "\<forall>r. find_status wid db = Some r \<longrightarrow> sw_deduplication_id r = None"
  shows "agrees Q (sqlite_enqueue_existing Q wid queue now) (enqueue_existing wid queue now) db"
proof -
  let ?f = "\<lambda>r. r \<lparr> sw_status := STATUS_ENQUEUED, sw_queue_name := Some queue, sw_executor_id := [],
    sw_started_at_epoch_ms := None, sw_updated_at := timestamp_millis now \<rparr>"
  let ?h = "\<lambda>row. row \<lparr> ws_status := STATUS_ENQUEUED, ws_queue_name := Some queue,
    ws_executor_id := [], ws_started_at_ms := None, ws_updated_at := now \<rparr>"
  have "row_refines Q ?f ?h r" if "find_status wid db = Some r" for r
    using w s that by (simp add: row_refines_def row_read slot_def)
  moreover have "enqueue_existing wid queue now (abs_db Q db) =
      (if \<exists>r. find_status wid db = Some r then (Inr (), update_row wid ?h (abs_db Q db)) else (Inr (), abs_db Q db))"
    by (cases "find_status wid db") (auto simp: enqueue_existing_def update_status_absent(2) [OF wf])
  ultimately show ?thesis
    using update_agrees [of Q db wid "\<lambda>_. True" ?f ?h "enqueue_existing wid queue now" "\<lambda>_. ()", OF wf]
    by (simp add: sqlite_enqueue_existing_def)
qed

lemma set_delay_agrees:
  assumes wf: "sql_wf Q db" and w: "whole_ms Q now"
  shows "agrees Q (sqlite_set_workflow_delay Q wid t now) (set_workflow_delay wid t now) db"
  unfolding sqlite_set_workflow_delay_def
proof (rule update_agrees [where h = "\<lambda>row. row \<lparr> ws_delay_until_ms := Some t, ws_updated_at := now \<rparr>" and k = "\<lambda>n. n > 0", OF wf])
  fix r
  show "row_refines Q (\<lambda>r. r \<lparr> sw_delay_until_epoch_ms := Some t, sw_updated_at := timestamp_millis now \<rparr>)
      (\<lambda>row. row \<lparr> ws_delay_until_ms := Some t, ws_updated_at := now \<rparr>) r"
    using w by (simp add: row_refines_def row_read slot_def split: option.splits)
qed (cases "find_status wid db"; auto simp: set_workflow_delay_def)

lemma decode_storable:
  "storable Q v \<Longrightarrow> encode (sl_codec Q) (sl_serializer Q) v = Inr enc \<Longrightarrow>
   decode (sl_codec Q) (sl_serializer Q) (Some (serializer_name (sl_serializer Q))) enc = Inr v"
  by (auto simp: storable_def)

lemma set_status_row_refines:
  assumes "plain_format Q" "whole_ms Q now" "sw_serialization r = Some (serializer_name (sl_serializer Q))"
    and "case output of None \<Rightarrow> out = None
      | Some v \<Rightarrow> storable Q v \<and> (\<exists>enc. encode (sl_codec Q) (sl_serializer Q) v = Inr enc \<and> out = Some enc)"
  shows "row_refines Q (set_status_row status out err (timestamp_millis now)) (status_transition status output err now) r"
  using assms
  by (auto simp: row_refines_def set_status_row_def status_transition_def row_read slot_def decode_opt_def
    decode_storable decode_error_opt_def decode_error_def plain_format_def or_else_def split: option.splits)

lemma set_status_agrees:
  assumes wf: "sql_wf Q db" and p: "plain_format Q" and w: "whole_ms Q now" and out: "\<forall>v. output = Some v \<longrightarrow> storable Q v"
  shows "agrees Q (sqlite_set_workflow_status Q wid status output err now) (set_workflow_status wid status output err now) db"
proof -
  define compl where "compl \<longleftrightarrow> status = STATUS_SUCCESS \<or> status = STATUS_ERROR"
  define hit where "hit r \<longleftrightarrow> \<not> (sw_status r = STATUS_CANCELLED \<and> compl)" for r :: status_row
  obtain enc where enc: "(case output of None \<Rightarrow> Inr None
        | Some v \<Rightarrow> map_sum id Some (encode (sl_codec Q) (sl_serializer Q) v)) = (Inr enc :: string option result)"
    and c: "case output of None \<Rightarrow> enc = None
      | Some v \<Rightarrow> storable Q v \<and> (\<exists>t. encode (sl_codec Q) (sl_serializer Q) v = Inr t \<and> enc = Some t)"
    using out by (cases "output") (auto simp: storable_def)
  let ?f = "set_status_row status enc err (timestamp_millis now)"
  let ?h = "status_transition status output err now"
  let ?m = "set_workflow_status wid status output err now"
  have run: "sqlite_set_workflow_status Q wid status output err now =
      and_then (update_status Q (\<lambda>r. sw_workflow_uuid r = wid \<and> hit r) ?f)
        (\<lambda>n. if compl \<and> n = 0
             then and_then (sqlite_get_workflow_status Q wid)
               (\<lambda>w. if is_some_and (\<lambda>w. ws_status w = STATUS_CANCELLED) w then fail (Cancelled wid) else ok ())
             else ok ())"
    by (simp add: sqlite_set_workflow_status_def enc compl_def hit_def Let_def)
  have mem: "?m (abs_db Q db) = (case find_status wid db of None \<Rightarrow> (Inr (), abs_db Q db)
      | Some r \<Rightarrow> if hit r then (Inr (), update_row wid ?h (abs_db Q db)) else (Inl (Cancelled wid), abs_db Q db))"
    by (auto simp: set_workflow_status_def hit_def compl_def split: option.splits)
  show ?thesis
  proof (cases "find_status wid db")
    case None
    with wf mem show ?thesis
      by (simp add: agrees_def run and_then_def ok_def sqlite_get_workflow_status_def update_status_absent is_some_and_def)
  next
    case (Some r)
    hence "row_refines Q ?f ?h r"
      using wf find_status_Some [OF Some] by (intro set_status_row_refines [OF p w _ c]) (simp add: sql_wf_def)
    from update_status_one [of Q db wid r hit, OF wf Some this] obtain db' where
      u: "update_status Q (\<lambda>r. sw_workflow_uuid r = wid \<and> hit r) ?f db = (Inr (if hit r then 1 else 0), db')"
      "abs_db Q db' = (if hit r then update_row wid ?h (abs_db Q db) else abs_db Q db)" "sql_wf Q db'" by blast
    have f: "map_option (row_to_status Q) (find_status wid db') = Some (row_to_status Q r)" if "\<not> hit r"
      using that u(2) Some abs_workflow [of Q db' wid] abs_workflow [of Q db wid] by simp
    show ?thesis
    proof (cases "hit r")
      case True
      thus ?thesis using Some mem u by (simp add: agrees_def run and_then_def ok_def)
    next
      case False
      hence "compl" "sw_status r = STATUS_CANCELLED" by (simp_all add: hit_def)
      moreover from f [OF False] obtain z where "find_status wid db' = Some z" "row_to_status Q z = row_to_status Q r"
        by auto
      moreover from this(2) have "sw_status z = sw_status r" by (metis row_to_status_cols(1))
      ultimately show ?thesis using False Some mem u
        by (simp add: agrees_def run and_then_def fail_def sqlite_get_workflow_status_def is_some_and_def)
    qed
  qed
qed

text \<open>A row as a start or an enqueue builds it: nothing has happened to it yet, and it can be written.\<close>

definition fresh_row :: "sqlite \<Rightarrow> workflow_status \<Rightarrow> bool" where
  "fresh_row Q s \<longleftrightarrow>
     ws_output s = None \<and> ws_error s = None \<and> ws_error_info s = None \<and> ws_recovery_attempts s = 0 \<and>
     ws_started_at_ms s = None \<and> \<not> ws_rate_limited s \<and> ws_completed_at_ms s = None \<and> ws_forked_from s = None \<and>
     i32_min \<le> ws_priority s \<and> ws_priority s \<le> i32_max \<and> whole_ms Q (ws_created_at s) \<and> whole_ms Q (ws_updated_at s) \<and>
     storable Q (ws_input s) \<and>
     decode_roles (ce_json (sl_codec Q)) (encode_roles (ce_json (sl_codec Q)) (ws_authenticated_roles s)) = ws_authenticated_roles s"

lemma fresh_row_reads_back:
  assumes "plain_format Q" "fresh_row Q s" "encode (sl_codec Q) (sl_serializer Q) (ws_input s) = Inr enc"
  shows "row_to_status Q (status_row_of Q s enc) = s"
  using assms decode_storable [of Q "ws_input s" enc]
  by (simp add: fresh_row_def row_read status_row_of_def decode_input_opt_def decode_input_def decode_opt_def
    decode_error_opt_def plain_format_def i32_wrap_id i32_min_def i32_max_def)

lemma slots_unique_append:
  assumes "slots_unique t"
  shows "slots_unique (t @ [r]) \<longleftrightarrow> slot r = None \<or> slot r \<notin> slot ` set t"
  using assms
  by (cases "slot r") (fastforce simp: slots_unique_def map_filter_simps map_filter_def image_iff split: option.splits)+

lemma dedup_conflict_abs:
  assumes "\<not> has_workflow (ws_id s) db" and "sw_queue_name r = ws_queue_name s" "sw_deduplication_id r = ws_dedup_id s"
  shows "dedup_conflict (abs_db Q db) s =
    (if slot r = None \<or> slot r \<notin> slot ` set (db_status db) then None
     else Some (queue_deduplicated (unwrap_or (ws_queue_name s) []) (unwrap_or (ws_dedup_id s) [])))"
proof -
  have "sw_workflow_uuid w \<noteq> ws_id s" if "w \<in> set (db_status db)" for w
    using assms(1) that by (metis has_workflow_def image_eqI)
  with assms(2,3) show ?thesis
    by (auto simp: dedup_conflict_def slot_def abs_db_def hm_values_def list_ex_iff image_iff split: option.splits)
qed

lemma abs_append_status:
  assumes "\<not> has_workflow (sw_workflow_uuid r) db"
  shows "abs_db Q (db \<lparr> db_status := db_status db @ [r] \<rparr>) =
    abs_db Q db \<lparr> workflows := hm_or_insert (sw_workflow_uuid r) (row_to_status Q r) (workflows (abs_db Q db)) \<rparr>"
proof -
  have "hm_insert (sw_workflow_uuid r) (row_to_status Q r) (map (\<lambda>r. (sw_workflow_uuid r, row_to_status Q r)) (db_status db)) =
      map (\<lambda>r. (sw_workflow_uuid r, row_to_status Q r)) (db_status db @ [r])"
    using assms by (intro hm_insert_map_rows) (auto simp: has_workflow_def)
  moreover have "\<not> hm_contains (workflows (abs_db Q db)) (sw_workflow_uuid r)"
    using assms by (simp add: hm_contains_def find_status_key [symmetric])
  ultimately show ?thesis by (simp add: hm_or_insert_def abs_db_def)
qed

lemma insert_agrees:
  assumes wf: "sql_wf Q db" and p: "plain_format Q" and f: "fresh_row Q s"
    and d: "ws_dedup_id s = None \<or> \<not> has_workflow (ws_id s) db"
  shows "agrees Q (sqlite_insert_workflow_status Q s) (insert_workflow_status s) db"
proof -
  obtain enc where e: "encode (sl_codec Q) (sl_serializer Q) (ws_input s) = Inr enc"
    using f by (auto simp: fresh_row_def storable_def)
  have ei: "encode_input (sl_codec Q) (sl_serializer Q) (ws_input s) = Inr enc"
    using p e by (cases "sl_serializer Q") (auto simp: encode_input_def plain_format_def)
  show ?thesis
  proof (cases "find_status (ws_id s) db")
    case (Some r)
    hence "dedup_conflict (abs_db Q db) s = None"
      using d find_status_key [of "ws_id s" db] by (auto simp: dedup_conflict_def split: option.splits)
    with Some wf show ?thesis
      by (simp add: agrees_def sqlite_insert_workflow_status_def ei insert_workflow_status_def hm_contains_def
        hm_or_insert_def Let_def)
  next
    case None
    let ?r = "status_row_of Q s enc"
    have n: "\<not> has_workflow (ws_id s) db" using None by (simp add: find_status_key)
    have r: "sw_workflow_uuid ?r = ws_id s" "sw_queue_name ?r = ws_queue_name s" "sw_deduplication_id ?r = ws_dedup_id s"
      "sw_serialization ?r = Some (serializer_name (sl_serializer Q))"
      by (simp_all add: status_row_of_def)
    have u: "slots_unique (db_status db)" using wf by (simp add: sql_wf_def)
    have w: "sql_wf Q (db \<lparr> db_status := db_status db @ [?r] \<rparr>)" if "slots_unique (db_status db @ [?r])"
      using wf that n by (auto simp: sql_wf_def has_workflow_def r)
    show ?thesis
      using None dedup_conflict_abs [of s db ?r Q, OF n r(2,3)] abs_append_status [of ?r db Q] n w wf
      by (auto simp: agrees_def sqlite_insert_workflow_status_def ei insert_workflow_status_def Let_def r
        fresh_row_reads_back [OF p f e] slots_unique_append [OF u] hm_contains_def dedup_or_def unique_violation_def)
  qed
qed

lemma read_agrees:
  "sql_wf Q db \<Longrightarrow> agrees Q (sqlite_get_workflow_status Q wid) (get_workflow_status wid) db"
  by (simp add: agrees_def sqlite_get_workflow_status_def get_workflow_status_def)

lemma find_map: "find p (map f xs) = map_option f (find (\<lambda>x. p (f x)) xs)"
  by (induction xs) auto

lemma deduplicated_agrees:
  "sql_wf Q db \<Longrightarrow> agrees Q (sqlite_get_deduplicated_workflow Q queue dedup) (get_deduplicated_workflow queue dedup) db"
  by (simp add: agrees_def sqlite_get_deduplicated_workflow_def get_deduplicated_workflow_def abs_db_def hm_values_def
    o_def find_map option.map_comp)

section \<open>Steps\<close>

lemma abs_append_output:
  assumes "find_output (oo_workflow_uuid r) (oo_function_id r) db = None"
  shows "abs_db Q (db \<lparr> db_outputs := db_outputs db @ [r] \<rparr>) =
    abs_db Q db \<lparr> steps := hm_or_insert (output_key r) (step_of Q r) (steps (abs_db Q db)) \<rparr>"
proof -
  have n: "output_key r \<notin> output_key ` set (db_outputs db)"
    using assms by (auto simp: find_output_def find_None_iff output_key_def)
  have "hm_insert (output_key r) (step_of Q r) (map (\<lambda>r. (output_key r, step_of Q r)) (db_outputs db)) =
      map (\<lambda>r. (output_key r, step_of Q r)) (db_outputs db @ [r])"
    using n by (intro hm_insert_map_rows) auto
  moreover have "\<not> hm_contains (steps (abs_db Q db)) (output_key r)"
    using assms by (simp add: hm_contains_def output_key_def)
  ultimately show ?thesis by (simp add: hm_or_insert_def abs_db_def)
qed

text \<open>An insert of a step row that can be read back.\<close>

definition output_ok :: "sqlite \<Rightarrow> output_row \<Rightarrow> bool" where
  "output_ok Q r \<longleftrightarrow>
     oo_serialization r \<noteq> Some PORTABLE \<and> decodes Q (oo_serialization r) (oo_output r) \<and>
     (oo_output r = None \<or> oo_error r = None)"

lemma insert_output_refines:
  assumes wf: "sql_wf Q db" and h: "has_workflow (oo_workflow_uuid r) db" and o: "output_ok Q r"
  shows "\<exists>db'. insert_output Q r db = (Inr (), db') \<and> sql_wf Q db' \<and>
    abs_db Q db' = snd (step_or_insert (oo_workflow_uuid r) (oo_function_id r) (step_of Q r) (abs_db Q db)) \<and>
    find_output (oo_workflow_uuid r) (oo_function_id r) db' =
      Some (unwrap_or (find_output (oo_workflow_uuid r) (oo_function_id r) db) r)"
proof (cases "find_output (oo_workflow_uuid r) (oo_function_id r) db")
  case None
  hence n: "output_key r \<notin> output_key ` set (db_outputs db)"
    by (auto simp: find_output_def find_None_iff output_key_def)
  have "sql_wf Q (db \<lparr> db_outputs := db_outputs db @ [r] \<rparr>)"
    using wf h o n by (auto simp: sql_wf_def output_ok_def has_workflow_def)
  with None n h abs_append_output [OF None] show ?thesis
    by (simp add: insert_output_def step_or_insert_def output_key_def find_output_def find_append)
next
  case (Some r')
  hence "output_key r \<in> output_key ` set (db_outputs db)"
    by (auto simp: find_output_def find_Some_iff output_key_def image_iff intro!: bexI [OF _ nth_mem])
  with Some wf show ?thesis
    by (auto simp: insert_output_def step_or_insert_def hm_or_insert_def hm_contains_def)
qed

lemma step_outcome_abs:
  assumes "output_ok Q r" and "oo_output r \<noteq> None \<or> oo_error r \<noteq> None"
  shows "output_outcome Q r = Inr (Some (step_row_outcome (step_of Q r)))"
  using assms
  by (auto simp: output_outcome_def step_outcome_from_def step_row_outcome_def step_of_def output_ok_def decodes_def
    decode_error_def decode_opt_def split: option.splits)

lemma outputs_ok: "sql_wf Q db \<Longrightarrow> find_output wid seq db = Some r \<Longrightarrow> output_ok Q r"
  by (auto simp: sql_wf_def output_ok_def find_output_def find_Some_iff)

lemma get_step_agrees:
  assumes wf: "sql_wf Q db"
    and m: "\<forall>r. find_output wid seq db = Some r \<longrightarrow> oo_output r \<noteq> None \<or> oo_error r \<noteq> None"
  shows "agrees Q (sqlite_get_step_result Q wid seq) (get_step_result wid seq) db"
  using wf m
  by (cases "find_output wid seq db")
    (auto simp: agrees_def sqlite_get_step_result_def get_step_result_def step_outcome_abs outputs_ok step_of_def)

text \<open>A marker row reads as the output null in both.\<close>

lemma outcome_or_null:
  assumes "output_ok Q r"
  shows "map_sum id (\<lambda>out. unwrap_or out (Output JNull)) (output_outcome Q r) = Inr (step_row_outcome (step_of Q r))"
proof (cases "oo_output r = None \<and> oo_error r = None")
  case True
  thus ?thesis by (simp add: output_outcome_def step_outcome_from_def step_row_outcome_def step_of_def decode_opt_def)
next
  case False
  with step_outcome_abs [OF assms] show ?thesis by simp
qed

lemma record_step_agrees:
  assumes wf: "sql_wf Q db" and p: "plain_format Q" and h: "has_workflow wid db" and v: "err = None \<longrightarrow> storable Q v"
  shows "agrees Q (sqlite_record_step_result Q wid seq name v err started now) (record_step_result wid seq name v err started now) db"
proof -
  obtain oc ec where c: "(case err of Some e \<Rightarrow> Inr (None, Some e)
        | None \<Rightarrow> map_sum id (\<lambda>txt. (Some txt, None)) (encode (sl_codec Q) (sl_serializer Q) v)) =
      (Inr (oc, ec) :: (string option \<times> string option) result)"
    and oc: "err = None \<and> ec = None \<and> (\<exists>t. oc = Some t \<and> encode (sl_codec Q) (sl_serializer Q) v = Inr t) \<or>
      (\<exists>e. err = Some e \<and> ec = Some e \<and> oc = None)"
    using v by (cases err) (auto simp: storable_def)
  let ?r = "(output_row_new wid seq name) \<lparr> oo_output := oc, oo_error := ec,
    oo_serialization := Some (serializer_name (sl_serializer Q)), oo_started_at_epoch_ms := started,
    oo_completed_at_epoch_ms := Some (timestamp_millis now) \<rparr>"
  let ?s = "\<lparr> sr_name = name, sr_output = (case err of Some _ \<Rightarrow> None | None \<Rightarrow> Some v), sr_error = err,
    sr_child_workflow_id = None, sr_started_at_ms = started, sr_completed_at_ms = Some (timestamp_millis now) \<rparr>"
  have k: "oo_workflow_uuid ?r = wid" "oo_function_id ?r = seq" by (simp_all add: output_row_new_def)
  have ok: "output_ok Q ?r"
    using oc p v decode_storable by (fastforce simp: output_ok_def decodes_def plain_format_def output_row_new_def)
  have st: "step_of Q ?r = ?s"
    using oc p v decode_storable
    by (auto simp: step_of_def decode_opt_def decode_error_def plain_format_def output_row_new_def)
  from insert_output_refines [OF wf _ ok] h k obtain db' where i: "insert_output Q ?r db = (Inr (), db')" "sql_wf Q db'"
    "abs_db Q db' = snd (step_or_insert wid seq ?s (abs_db Q db))"
    "find_output wid seq db' = Some (unwrap_or (find_output wid seq db) ?r)" by (auto simp: st)
  have o: "step_row_outcome (fst (step_or_insert wid seq ?s (abs_db Q db))) =
      step_row_outcome (step_of Q (unwrap_or (find_output wid seq db) ?r))"
    by (cases "find_output wid seq db") (simp_all add: step_or_insert_def st)
  have "output_ok Q (unwrap_or (find_output wid seq db) ?r)"
    using outputs_ok [OF i(2,4)] .
  from outcome_or_null [OF this] i have "sqlite_record_step_result Q wid seq name v err started now db =
      (Inr (step_row_outcome (step_of Q (unwrap_or (find_output wid seq db) ?r))), db')"
    by (simp add: sqlite_record_step_result_def c and_then_def)
  moreover have "record_step_result wid seq name v err started now (abs_db Q db) =
      (Inr (step_row_outcome (fst (step_or_insert wid seq ?s (abs_db Q db)))), snd (step_or_insert wid seq ?s (abs_db Q db)))"
    by (cases err) (simp_all add: record_step_result_def case_prod_unfold Let_def)
  ultimately show ?thesis using i o by (simp add: agrees_def)
qed

lemma marker_agrees:
  assumes wf: "sql_wf Q db" and h: "has_workflow wid db"
  shows "agrees Q (sqlite_record_child_workflow Q wid seq name cid) (record_child_workflow wid seq name cid) db"
    and "agrees Q (sqlite_record_patch Q wid seq name) (record_patch wid seq name) db"
proof -
  have o: "output_ok Q ((output_row_new wid seq name) \<lparr> oo_child_workflow_id := c \<rparr>)" for c
    by (simp add: output_ok_def decodes_def output_row_new_def)
  have st: "step_of Q ((output_row_new wid seq name) \<lparr> oo_child_workflow_id := c \<rparr>) =
      step_row_default \<lparr> sr_name := name, sr_output := None, sr_child_workflow_id := c \<rparr>" for c
    by (simp add: step_of_def output_row_new_def decode_opt_def step_row_default_def)
  have k: "oo_workflow_uuid ((output_row_new wid seq name) \<lparr> oo_child_workflow_id := c \<rparr>) = wid"
    "oo_function_id ((output_row_new wid seq name) \<lparr> oo_child_workflow_id := c \<rparr>) = seq" for c
    by (simp_all add: output_row_new_def)
  have r: "\<exists>db'. insert_output Q ((output_row_new wid seq name) \<lparr> oo_child_workflow_id := c \<rparr>) db = (Inr (), db') \<and> sql_wf Q db' \<and>
      abs_db Q db' = snd (step_or_insert wid seq
        (step_row_default \<lparr> sr_name := name, sr_output := None, sr_child_workflow_id := c \<rparr>) (abs_db Q db))" for c
    using insert_output_refines [OF wf _ o [of c]] h by (auto simp: k st)
  show "agrees Q (sqlite_record_child_workflow Q wid seq name cid) (record_child_workflow wid seq name cid) db"
    using r [of "Some cid"] by (auto simp: agrees_def sqlite_record_child_workflow_def record_child_workflow_def)
  have n: "(output_row_new wid seq name) \<lparr> oo_child_workflow_id := None \<rparr> = output_row_new wid seq name"
    by (simp add: output_row_new_def)
  show "agrees Q (sqlite_record_patch Q wid seq name) (record_patch wid seq name) db"
    using r [of None] by (auto simp: n agrees_def sqlite_record_patch_def record_patch_def)
qed

lemma step_reads_agree:
  "sql_wf Q db \<Longrightarrow> agrees Q (sqlite_check_child_workflow Q wid seq) (check_child_workflow wid seq) db"
  "sql_wf Q db \<Longrightarrow> agrees Q (sqlite_get_step_name Q wid seq) (get_step_name wid seq) db"
  by (simp_all add: agrees_def sqlite_check_child_workflow_def check_child_workflow_def sqlite_get_step_name_def
    get_step_name_def step_of_def option.map_comp o_def bind_map_option)

section \<open>Events\<close>

lemma get_event_agrees:
  assumes wf: "sql_wf Q db"
  shows "agrees Q (sqlite_get_event_value Q wid key) (get_event_value wid key) db"
proof (cases "find (\<lambda>r. event_key r = (wid, key)) (db_events db)")
  case (Some r)
  hence "decodes Q (we_serialization r) (Some (we_value r))"
    using wf by (auto simp: sql_wf_def find_Some_iff)
  with Some wf show ?thesis
    by (auto simp: agrees_def sqlite_get_event_value_def get_event_value_def decodes_def event_of_def)
qed (use wf in \<open>simp add: agrees_def sqlite_get_event_value_def get_event_value_def\<close>)

lemma upsert_event_agrees:
  assumes wf: "sql_wf Q db" and h: "has_workflow wid db" and v: "storable Q v"
  shows "agrees Q (sqlite_upsert_event Q wid key v) (upsert_event wid key v) db"
proof -
  obtain t where t: "encode (sl_codec Q) (sl_serializer Q) v = Inr t" using v by (auto simp: storable_def)
  note d = decode_storable [OF v t]
  let ?r = "\<lparr> we_workflow_uuid = wid, we_key = key, we_value = t, we_serialization = Some (serializer_name (sl_serializer Q)) \<rparr>"
  let ?u = "\<lambda>r. r \<lparr> we_value := t, we_serialization := Some (serializer_name (sl_serializer Q)) \<rparr>"
  let ?e = "insert_or_replace event_key ?r ?u (db_events db)"
  have k: "event_key ?r = (wid, key)" "event_of Q ?r = v" by (simp_all add: event_key_def event_of_def d)
  have ku: "event_key (?u r) = event_key r" "event_of Q (?u r) = v" for r
    by (simp_all add: event_key_def event_of_def d)
  have m: "map (\<lambda>r. (event_key r, event_of Q r)) ?e = hm_insert (wid, key) v (map (\<lambda>r. (event_key r, event_of Q r)) (db_events db))"
  proof (cases "(wid, key) \<in> event_key ` set (db_events db)")
    case True
    have "hm_insert (wid, key) v (map (\<lambda>r. (event_key r, event_of Q r)) (db_events db)) =
        map (\<lambda>r. (event_key r, event_of Q r)) (sql_update (\<lambda>r. event_key r = (wid, key)) ?u (db_events db))"
      using True wf by (intro hm_insert_map_update) (simp_all add: ku sql_wf_def)
    with True show ?thesis by (simp add: insert_or_replace_def k)
  next
    case False
    with hm_insert_map_rows [of "(wid, key)" event_key "db_events db" ?r "event_of Q"] show ?thesis
      by (simp add: insert_or_replace_def k)
  qed
  have ks: "distinct (map event_key ?e)"
  proof -
    have "map event_key (sql_update p ?u t) = map event_key t" for p t
      by (simp add: sql_update_def ku cong: map_cong)
    with wf show ?thesis by (auto simp: insert_or_replace_def k sql_wf_def)
  qed
  have "sql_wf Q (db \<lparr> db_events := ?e \<rparr>)"
    using wf ks h d by (auto simp: sql_wf_def insert_or_replace_def sql_update_def decodes_def has_workflow_def split: if_splits)
  with m h show ?thesis
    by (simp add: agrees_def sqlite_upsert_event_def upsert_event_def t Let_def abs_db_def)
qed

section \<open>Queues\<close>

lemma promote_agrees:
  assumes wf: "sql_wf Q db" and w: "whole_ms Q now"
  shows "agrees Q (sqlite_transition_delayed_workflows Q (timestamp_millis now))
    (transition_delayed_workflows (timestamp_millis now) (\<lambda>_. now)) db"
proof -
  let ?ms = "timestamp_millis now"
  let ?p = "\<lambda>r. sw_status r = STATUS_DELAYED \<and> is_some_and (\<lambda>t. t \<le> ?ms) (sw_delay_until_epoch_ms r)"
  let ?f = "\<lambda>r. r \<lparr> sw_status := STATUS_ENQUEUED, sw_delay_until_epoch_ms := None, sw_updated_at := ?ms \<rparr>"
  have due: "due ?ms (row_to_status Q r) = ?p r" for r by (simp add: due_def)
  have ref: "row_refines Q ?f (promote_row ?ms now) r" if "?p r" for r
    using that w due [of r] by (simp add: row_refines_def promote_row_def) (simp add: row_read slot_def split: option.splits)
  have "map (\<lambda>(k, w). (k, promote_row ?ms now w)) (workflows (abs_db Q db)) =
      workflows (abs_db Q (db \<lparr> db_status := sql_update ?p ?f (db_status db) \<rparr>))"
    using ref due by (auto simp: abs_db_def sql_update_def row_refines_def promote_row_def)
  hence "abs_db Q (db \<lparr> db_status := sql_update ?p ?f (db_status db) \<rparr>) =
      abs_db Q db \<lparr> workflows := map (\<lambda>(k, w). (k, promote_row ?ms now w)) (workflows (abs_db Q db)) \<rparr>"
    by (simp add: abs_db_def)
  moreover have "length (filter (due ?ms) (hm_values (workflows (abs_db Q db)))) = rows_affected ?p (db_status db)"
    by (simp add: abs_db_def hm_values_def o_def filter_map rows_affected_def due)
  ultimately show ?thesis
    using update_status_all [of Q db ?p ?f "promote_row ?ms now", OF wf ref]
    by (simp add: agrees_def sqlite_transition_delayed_workflows_def transition_delayed_workflows_def)
qed

text \<open>The claims: same budget, same candidates in the same order, same rows written.\<close>

lemma budget_agrees: "sql_claim_budget req ms (db_status db) = claim_budget req ms (abs_db Q db)"
proof -
  have c: "count_rows p (abs_db Q db) = sql_count (\<lambda>r. p (row_to_status Q r)) (db_status db)" for p
    by (simp add: count_rows_def sql_count_def abs_db_def hm_values_def o_def filter_map)
  have part: "ws_queue_partition_key (row_to_status Q r) = sw_queue_partition_key r"
    "ws_rate_limited (row_to_status Q r) = sw_rate_limited r"
    "ws_started_at_ms (row_to_status Q r) = sw_started_at_epoch_ms r" for r
    by (simp_all add: row_read)
  have "recent_start req cut (row_to_status Q r) = sql_recent_start req cut r" for cut r
    by (auto simp: recent_start_def sql_recent_start_def on_queue_def in_partition_def sql_in_partition_def part)
  moreover have "running req (row_to_status Q r) = sql_running req r" for r
    by (auto simp: running_def sql_running_def on_queue_def in_partition_def sql_in_partition_def part)
  ultimately show ?thesis
    by (simp add: sql_claim_budget_def claim_budget_def c Let_def split: option.splits)
qed

text \<open>Instants that are read back to the millisecond; versions marked at different instants.\<close>

definition reads_back :: "sqlite \<Rightarrow> int \<Rightarrow> bool" where
  "reads_back Q ms \<longleftrightarrow> timestamp_millis (ms_to_dt Q ms) = ms"

definition versions_ok :: "sqlite \<Rightarrow> 'u database \<Rightarrow> bool" where
  "versions_ok Q db \<longleftrightarrow> list_all (\<lambda>v. reads_back Q (ve_version_timestamp v)) (db_versions db) \<and>
     distinct (map ve_version_timestamp (db_versions db))"

lemma latest_agrees:
  assumes "versions_ok Q db"
  shows "max_by_key vi_version_timestamp (hm_values (versions (abs_db Q db))) = map_option (row_to_version Q) (latest_version_row db)"
proof -
  let ?vs = "db_versions db"
  have vals: "hm_values (versions (abs_db Q db)) = map (row_to_version Q) ?vs"
    by (simp add: abs_db_def hm_values_def)
  show ?thesis
  proof (cases "sort_key (\<lambda>v. - ve_version_timestamp v) ?vs")
    case Nil
    hence "?vs = []" by (metis length_0_conv length_sort)
    thus ?thesis by (simp add: vals latest_version_row_def)
  next
    case (Cons v rest)
    have s: "set (v # rest) = set ?vs" "sorted (map (\<lambda>v. - ve_version_timestamp v) (v # rest))"
      unfolding Cons [symmetric] by (simp_all only: set_sort sorted_sort_key)
    from s(1) have "?vs \<noteq> []" by auto
    hence "max_by_key vi_version_timestamp (map (row_to_version Q) ?vs) \<noteq> None" by simp
    then obtain m where m: "max_by_key vi_version_timestamp (map (row_to_version Q) ?vs) = Some m" by blast
    from max_by_key_max [OF m] obtain v' where v': "v' \<in> set ?vs" "m = row_to_version Q v'"
      "\<And>y. y \<in> set ?vs \<Longrightarrow> ms_to_dt Q (ve_version_timestamp y) \<le> ms_to_dt Q (ve_version_timestamp v')"
      by (auto simp: row_to_version_def)
    have "ve_version_timestamp v \<le> ve_version_timestamp v'"
      using timestamp_millis_mono [OF v'(3) [of v]] assms s(1) v'(1)
      by (auto simp: versions_ok_def list_all_iff reads_back_def)
    moreover have "ve_version_timestamp v' \<le> ve_version_timestamp v" using s v'(1) by auto
    ultimately have "v' = v"
      using assms v'(1) s(1) by (auto simp: versions_ok_def distinct_map inj_on_def)
    with m v'(2) show ?thesis by (simp add: vals latest_version_row_def Cons)
  qed
qed

text \<open>Rows that both providers order alike: distinct in priority and creation time.\<close>

definition order_ok :: "sqlite \<Rightarrow> status_row list \<Rightarrow> bool" where
  "order_ok Q rows \<longleftrightarrow>
     distinct (map (\<lambda>r. (sw_priority r, sw_created_at r)) rows) \<and>
     list_all (\<lambda>r. i32_min \<le> sw_priority r \<and> sw_priority r \<le> i32_max \<and> reads_back Q (sw_created_at r)) rows"

lemma sort_claim_keys:
  assumes "order_ok Q rows"
  shows "sort (map claim_key (map (row_to_status Q) rows)) =
    map (\<lambda>r. claim_key (row_to_status Q r)) (sort_key (\<lambda>r. (sw_priority r, sw_created_at r)) rows)"
proof -
  let ?k = "\<lambda>r. (sw_priority r, sw_created_at r)"
  let ?rs = "sort_key ?k rows"
  let ?c = "\<lambda>r. claim_key (row_to_status Q r)"
  have c: "?c r = (sw_priority r, sw_created_at r, sw_workflow_uuid r)" if "r \<in> set ?rs" for r
    using assms that by (simp add: order_ok_def list_all_iff claim_key_def i32_wrap_id reads_back_def)
      (simp add: row_read i32_wrap_id)
  have d: "distinct (map ?k ?rs)" and so: "sorted (map ?k ?rs)"
    using assms by (simp_all add: order_ok_def distinct_map)
  have "sorted (map (\<lambda>r. (sw_priority r, sw_created_at r, sw_workflow_uuid r)) ?rs)"
  proof (unfold sorted_iff_nth_mono_less length_map, intro allI impI)
    fix i j assume ij: "i < j" "j < length ?rs"
    have "map ?k ?rs ! i \<le> map ?k ?rs ! j" using so ij by (intro sorted_nth_mono) simp_all
    moreover have "map ?k ?rs ! i \<noteq> map ?k ?rs ! j" using d ij by (simp only: nth_eq_iff_index_eq length_map)
    ultimately show "map (\<lambda>r. (sw_priority r, sw_created_at r, sw_workflow_uuid r)) ?rs ! i \<le>
        map (\<lambda>r. (sw_priority r, sw_created_at r, sw_workflow_uuid r)) ?rs ! j"
      using ij by (auto simp: less_eq_prod_def)
  qed
  hence "sorted (map ?c ?rs)" using c by (metis (mono_tags, lifting) map_eq_conv)
  moreover have "distinct (map ?c ?rs)"
    using d c by (auto simp: distinct_map inj_on_def)
  moreover have "distinct (map claim_key (map (row_to_status Q) rows))"
    using calculation(2) by (simp add: distinct_map inj_on_def)
  ultimately show ?thesis
    by (intro sorted_distinct_set_unique) (simp_all add: distinct_map image_comp o_def)
qed

text \<open>The deadline that a claim computes fits the column.\<close>

definition deadline_fits :: "int \<Rightarrow> workflow_status \<Rightarrow> bool" where
  "deadline_fits ms w \<longleftrightarrow>
     (\<forall>t. ws_timeout_ms w = Some t \<longrightarrow> ws_deadline_ms w = None \<longrightarrow> i64_wrap (ms + t) = ms + t)"

lemma claim_row_refines:
  assumes "whole_ms Q now" and "deadline_fits (timestamp_millis now) (row_to_status Q r)"
  shows "row_refines Q (sql_claim_row req (timestamp_millis now))
    (\<lambda>_. claim_row req (timestamp_millis now) now (row_to_status Q r)) r"
proof -
  have "ws_timeout_ms (row_to_status Q r) = sw_workflow_timeout_ms r"
    "ws_deadline_ms (row_to_status Q r) = sw_workflow_deadline_epoch_ms r" by (simp_all add: row_read)
  with assms show ?thesis
    by (auto simp: row_refines_def sql_claim_row_def claim_row_def row_read slot_def deadline_fits_def split: option.splits)
qed

lemma claim_loop_agrees:
  assumes "sql_wf Q db" "whole_ms Q now" "distinct (map cand_id cands)"
    and "\<forall>x \<in> set cands. \<exists>w. hm_get (workflows (abs_db Q db)) (cand_id x) = Some w \<and> ws_status w = STATUS_ENQUEUED \<and>
      deadline_fits (timestamp_millis now) w"
  shows "\<exists>claimed db'. sql_claim_loop Q req (timestamp_millis now) (map cand_id cands) db = (Inr claimed, db') \<and> sql_wf Q db' \<and>
    claim_loop req (timestamp_millis now) (\<lambda>_. now) i cands (abs_db Q db) = Some (claimed, abs_db Q db')"
  using assms
proof (induction cands arbitrary: db i)
  case Nil
  thus ?case by (simp add: ok_def)
next
  case (Cons x cands)
  obtain a b wid where x: "x = (a, b, wid)" by (cases x) auto
  from Cons.prems(4) obtain r where r: "find_status wid db = Some r" "sw_status r = STATUS_ENQUEUED"
    "deadline_fits (timestamp_millis now) (row_to_status Q r)"
    by (auto simp: x simp del: option.map_sel)
  let ?w = "claim_row req (timestamp_millis now) now (row_to_status Q r)"
  let ?hit = "\<lambda>r. sw_workflow_uuid r = wid \<and> sw_status r = STATUS_ENQUEUED"
  note ref = claim_row_refines [OF Cons.prems(2) r(3), of req]
  from update_status_one [of Q db wid r "\<lambda>r. sw_status r = STATUS_ENQUEUED", OF Cons.prems(1) r(1) ref] r(2)
  obtain db1 where u: "update_status Q ?hit (sql_claim_row req (timestamp_millis now)) db = (Inr 1, db1)"
    "abs_db Q db1 = update_row wid (\<lambda>_. ?w) (abs_db Q db)" "sql_wf Q db1" by auto
  have "\<forall>y \<in> set cands. cand_id y \<noteq> wid" using Cons.prems(3) by (auto simp: x)
  hence "\<forall>y \<in> set cands. \<exists>w. hm_get (workflows (abs_db Q db1)) (cand_id y) = Some w \<and> ws_status w = STATUS_ENQUEUED \<and>
      deadline_fits (timestamp_millis now) w"
    using Cons.prems(4) unfolding u(2) update_row_def by simp
  from Cons.IH [OF u(3) Cons.prems(2) _ this, of "Suc i"] Cons.prems(3) obtain claimed db' where
    c: "sql_claim_loop Q req (timestamp_millis now) (map cand_id cands) db1 = (Inr claimed, db')" "sql_wf Q db'"
    "claim_loop req (timestamp_millis now) (\<lambda>_. now) (Suc i) cands (abs_db Q db1) = Some (claimed, abs_db Q db')"
    by auto
  have "find ?hit (db_status db) = Some r"
    using r(1,2) Cons.prems(1) by (intro find_key_and) (simp_all add: find_status_def sql_wf_def)
  moreover have "row_to_status Q (sql_claim_row req (timestamp_millis now) r) = ?w" using ref by (simp add: row_refines_def)
  ultimately show ?case
    using c u r(1) by (intro exI [of _ "?w # claimed"] exI [of _ db']) (simp add: x Let_def and_then_def ok_def)
qed

definition sql_claimables :: "dequeue_request \<Rightarrow> 'u database \<Rightarrow> status_row list" where
  "sql_claimables req db =
     filter (sql_claimable req (is_none_or (\<lambda>v. ve_version_name v = dr_app_version req) (latest_version_row db))) (db_status db)"

definition claims_ok :: "sqlite \<Rightarrow> dequeue_request \<Rightarrow> datetime \<Rightarrow> 'u database \<Rightarrow> bool" where
  "claims_ok Q req now db \<longleftrightarrow>
     versions_ok Q db \<and> order_ok Q (sql_claimables req db) \<and>
     list_all (\<lambda>r. deadline_fits (timestamp_millis now) (row_to_status Q r)) (sql_claimables req db)"

lemma candidates_agree:
  assumes "versions_ok Q db" and "order_ok Q (sql_claimables req db)"
  shows "claim_candidates req (abs_db Q db) =
    map (\<lambda>r. claim_key (row_to_status Q r)) (sort_key (\<lambda>r. (sw_priority r, sw_created_at r)) (sql_claimables req db))"
proof -
  have l: "is_latest_version req (abs_db Q db) = is_none_or (\<lambda>v. ve_version_name v = dr_app_version req) (latest_version_row db)"
    using latest_agrees [OF assms(1)]
    by (cases "latest_version_row db") (simp_all add: is_latest_version_def row_to_version_def)
  have "ws_queue_partition_key (row_to_status Q r) = sw_queue_partition_key r"
    "ws_app_version (row_to_status Q r) = sw_application_version r" for r by (simp_all add: row_read)
  hence "claimable req (abs_db Q db) (row_to_status Q r) =
      sql_claimable req (is_none_or (\<lambda>v. ve_version_name v = dr_app_version req) (latest_version_row db)) r" for r
    by (auto simp: claimable_def sql_claimable_def on_queue_def in_partition_def sql_in_partition_def l)
  hence "filter (claimable req (abs_db Q db)) (hm_values (workflows (abs_db Q db))) = map (row_to_status Q) (sql_claimables req db)"
    by (simp add: abs_db_def hm_values_def o_def filter_map sql_claimables_def)
  with sort_claim_keys [OF assms(2)] show ?thesis by (simp add: claim_candidates_def)
qed

lemma dequeue_agrees:
  assumes wf: "sql_wf Q db" and w: "whole_ms Q now" and c: "claims_ok Q req now db"
  shows "\<exists>claimed db'. sqlite_dequeue_workflows Q req now db = (Inr claimed, db') \<and> sql_wf Q db' \<and>
    dequeue_workflows req now (\<lambda>_. now) (abs_db Q db) = Some (Inr claimed, abs_db Q db')"
proof (cases "sql_claim_budget req (timestamp_millis now) (db_status db) \<le> 0")
  case True
  with wf show ?thesis
    by (simp add: sqlite_dequeue_workflows_def dequeue_workflows_def Let_def budget_agrees [of _ _ db Q])
next
  case False
  let ?n = "nat (sql_claim_budget req (timestamp_millis now) (db_status db))"
  let ?rs = "take ?n (sort_key (\<lambda>r. (sw_priority r, sw_created_at r)) (sql_claimables req db))"
  let ?cands = "map (\<lambda>r. claim_key (row_to_status Q r)) ?rs"
  have sub: "set ?rs \<subseteq> set (sql_claimables req db)" by (metis set_sort set_take_subset)
  have d: "distinct (map sw_workflow_uuid (db_status db))" using wf by (simp add: sql_wf_def)
  hence "distinct (map sw_workflow_uuid (sql_claimables req db))"
    by (simp add: sql_claimables_def distinct_map_filter)
  hence "distinct (map sw_workflow_uuid ?rs)"
    using sub by (auto simp: distinct_map intro: inj_on_subset)
  hence dc: "distinct (map cand_id ?cands)" by (simp add: o_def)
  have "\<forall>x \<in> set ?cands. \<exists>w. hm_get (workflows (abs_db Q db)) (cand_id x) = Some w \<and> ws_status w = STATUS_ENQUEUED \<and>
      deadline_fits (timestamp_millis now) w"
  proof
    fix x assume "x \<in> set ?cands"
    then obtain r where r: "r \<in> set (sql_claimables req db)" "x = claim_key (row_to_status Q r)" using sub by auto
    hence "find_status (sw_workflow_uuid r) db = Some r"
      using d by (simp add: find_status_def find_key sql_claimables_def)
    with r c show "\<exists>w. hm_get (workflows (abs_db Q db)) (cand_id x) = Some w \<and> ws_status w = STATUS_ENQUEUED \<and>
        deadline_fits (timestamp_millis now) w"
      by (auto simp: claims_ok_def list_all_iff sql_claimables_def sql_claimable_def)
  qed
  from claim_loop_agrees [OF wf w dc this, of req 0] obtain claimed db' where
    l: "sql_claim_loop Q req (timestamp_millis now) (map cand_id ?cands) db = (Inr claimed, db')" "sql_wf Q db'"
      "claim_loop req (timestamp_millis now) (\<lambda>_. now) 0 ?cands (abs_db Q db) = Some (claimed, abs_db Q db')" by blast
  have "sql_candidates req (sql_claim_budget req (timestamp_millis now) (db_status db)) db = map cand_id ?cands"
    by (simp add: sql_candidates_def sql_claimables_def Let_def o_def)
  moreover have "take ?n (claim_candidates req (abs_db Q db)) = ?cands"
    using c by (simp add: candidates_agree claims_ok_def take_map)
  ultimately show ?thesis
    using False l
    by (simp add: sqlite_dequeue_workflows_def dequeue_workflows_def Let_def transactional_def budget_agrees [of _ _ db Q])
qed

end
