(* ===== verification/Tx.thy ===== *)
theory Tx
  imports Sqlite_Ops Context
begin

text \<open>
  Transactional steps: the options and the statement texts of \<open>src/src/tx.rs\<close>, the transactional step of
  the SQLite provider (\<open>run_transaction_step\<close> in \<open>src/src/sqlite.rs\<close>) and the context operation over it
  (\<open>transaction_with\<close> in \<open>src/src/context.rs\<close>). The body of such a step acts on the user's tables; its
  writes and the checkpoint commit together.
\<close>

section \<open>Parameters and placeholders\<close>

text \<open>\<open>Float\<close> carries the bit pattern of an \<open>f64\<close>.\<close>

datatype param =
    Param_Null
  | Param_Int int
  | Param_Float "64 word"
  | Param_Text string
  | Param_Bool bool
  | Param_Bytes "8 word list"

definition param_of_option :: "('a \<Rightarrow> param) \<Rightarrow> 'a option \<Rightarrow> param" where
  "param_of_option f x = (case x of Some v \<Rightarrow> f v | None \<Rightarrow> Param_Null)"

text \<open>The rewriting of \<open>?\<close> to \<open>$1\<close>, \<open>$2\<close>, ... outside quoted literals; the counter is a \<open>u32\<close>.\<close>

fun placeholders_loop :: "nat \<Rightarrow> bool \<Rightarrow> string \<Rightarrow> string" where
  "placeholders_loop n in_str [] = []"
| "placeholders_loop n in_str (c # cs) =
     (if c = CHR 0x27 then c # placeholders_loop n (\<not> in_str) cs
      else if c = CHR 0x3F \<and> \<not> in_str
      then CHR 0x24 # nat_to_string (Suc n) @ placeholders_loop (Suc n) in_str cs
      else c # placeholders_loop n in_str cs)"

definition to_pg_placeholders :: "string \<Rightarrow> string" where
  "to_pg_placeholders sql = placeholders_loop 0 False sql"

section \<open>Options\<close>

datatype isolation_level = ReadCommitted | RepeatableRead | Serializable

fun pg_sql :: "isolation_level \<Rightarrow> string" where
  "pg_sql ReadCommitted = ''READ COMMITTED''"
| "pg_sql RepeatableRead = ''REPEATABLE READ''"
| "pg_sql Serializable = ''SERIALIZABLE''"

record transaction_options =
  to_name :: string
  to_isolation :: isolation_level
  to_read_only :: bool
  to_max_retries :: nat
  to_backoff_factor :: "64 word"
  to_base_interval :: duration
  to_max_interval :: duration
  to_retry_if :: "(error \<Rightarrow> bool) option"

definition transaction_options_new :: "string \<Rightarrow> transaction_options" where
  "transaction_options_new name =
     \<lparr> to_name = name, to_isolation = ReadCommitted, to_read_only = False, to_max_retries = 0,
       to_backoff_factor = 0x4000000000000000, to_base_interval = from_millis 100,
       to_max_interval = from_secs 5, to_retry_if = None \<rparr>"

text \<open>
  \<open>backoff\<close> is \<open>Duration::from_secs_f64(base.as_secs_f64() * factor.powi(attempt))\<close>, which panics (here:
  is nothing) on a value out of range, before the cap applies.
\<close>

definition user_retry_backoff ::
    "(duration \<Rightarrow> 64 word \<Rightarrow> nat \<Rightarrow> duration option) \<Rightarrow> transaction_options \<Rightarrow> nat \<Rightarrow> duration option" where
  "user_retry_backoff backoff opts attempt =
     map_option (\<lambda>d. min d (to_max_interval opts)) (backoff (to_base_interval opts) (to_backoff_factor opts) attempt)"

definition should_user_retry :: "transaction_options \<Rightarrow> error \<Rightarrow> nat \<Rightarrow> bool" where
  "should_user_retry opts err attempt \<longleftrightarrow>
     \<not> is_tx_conflict err \<and> attempt < to_max_retries opts \<and> is_none_or (\<lambda>p. p err) (to_retry_if opts)"

section \<open>The transactional step of the SQLite provider\<close>

text \<open>
  A commit goes through, fails, or (a lost connection, say) goes through although an error is reported.
\<close>

datatype commit_result = Commit_Ok | Commit_Failed sqlx_error | Commit_Lost sqlx_error

text \<open>
  What the surroundings do at the \<open>n\<close>-th point where the step meets them: whether beginning, the
  checkpoint insert, committing or rolling back fails, whether the status can be read, the clock, what
  other writers do to the database while the step sleeps, and the float backoff.
\<close>

record 'u tx_env =
  te_begin :: "nat \<Rightarrow> sqlx_error option"
  te_insert :: "nat \<Rightarrow> sqlx_error option"
  te_commit :: "nat \<Rightarrow> commit_result"
  te_rollback :: "nat \<Rightarrow> sqlx_error option"
  te_status_readable :: "nat \<Rightarrow> bool"
  te_clock :: "nat \<Rightarrow> datetime"
  te_others :: "nat \<Rightarrow> 'u database \<Rightarrow> 'u database"
  te_backoff :: "duration \<Rightarrow> 64 word \<Rightarrow> nat \<Rightarrow> duration option"

type_synonym 'u tx_body = "'u \<Rightarrow> json result \<times> 'u"

definition transient :: "error \<Rightarrow> bool" where
  "transient e \<longleftrightarrow> is_tx_conflict e \<or> is_retryable e"

definition success_row :: "sqlite \<Rightarrow> string \<Rightarrow> int \<Rightarrow> string \<Rightarrow> string \<Rightarrow> int \<Rightarrow> datetime \<Rightarrow> output_row" where
  "success_row Q wid seq name enc started now =
     (output_row_new wid seq name)
       \<lparr> oo_output := Some enc, oo_serialization := Some (serializer_name (sl_serializer Q)),
         oo_started_at_epoch_ms := Some started, oo_completed_at_epoch_ms := Some (timestamp_millis now) \<rparr>"

definition failure_row :: "sqlite \<Rightarrow> string \<Rightarrow> int \<Rightarrow> string \<Rightarrow> error \<Rightarrow> int \<Rightarrow> datetime \<Rightarrow> output_row" where
  "failure_row Q wid seq name err started now =
     (output_row_new wid seq name)
       \<lparr> oo_error := Some (encode_error (sl_codec Q) (sl_serializer Q) err),
         oo_serialization := Some (serializer_name (sl_serializer Q)),
         oo_started_at_epoch_ms := Some started, oo_completed_at_epoch_ms := Some (timestamp_millis now) \<rparr>"

text \<open>One attempt: the database changes only if the commit goes through.\<close>

definition tx_attempt ::
    "sqlite \<Rightarrow> 'u tx_env \<Rightarrow> string \<Rightarrow> int \<Rightarrow> int \<Rightarrow> transaction_options \<Rightarrow> 'u tx_body \<Rightarrow> nat
       \<Rightarrow> ('u database, json) op" where
  "tx_attempt Q T wid seq started opts body n db =
     (case te_begin T n of
        Some e \<Rightarrow> (Inl (Db e), db)
      | None \<Rightarrow>
          (case body (db_user db) of
             (Inr v, u) \<Rightarrow>
               (case encode (sl_codec Q) (sl_serializer Q) v of
                  Inl e \<Rightarrow> (Inl e, db)
                | Inr enc \<Rightarrow>
                    (case te_insert T n of
                       Some e \<Rightarrow> (Inl (Db e), db)
                     | None \<Rightarrow>
                         (case insert_output Q (success_row Q wid seq (to_name opts) enc started (te_clock T n))
                            (db \<lparr> db_user := u \<rparr>) of
                            (Inl e, _) \<Rightarrow> (Inl e, db)
                          | (Inr _, db') \<Rightarrow>
                              (case te_commit T n of
                                 Commit_Ok \<Rightarrow> (Inr v, db')
                               | Commit_Failed e \<Rightarrow> (Inl (Db e), db)
                               | Commit_Lost e \<Rightarrow> (Inl (Db e), db')))))
           | (Inl e, _) \<Rightarrow>
               if transient e then (Inl e, db)
               else (case te_rollback T n of Some e' \<Rightarrow> (Inl (Db e'), db) | None \<Rightarrow> (Inl e, db))))"

definition conflict_backoff_ms :: "nat \<Rightarrow> nat" where
  "conflict_backoff_ms attempt = min (2 ^ min attempt 10) 1000"

text \<open>A cancelled workflow ends the wait; an unreadable status does not.\<close>

definition conflict_retry_wait :: "'u tx_env \<Rightarrow> string \<Rightarrow> nat \<Rightarrow> ('u database, unit) op" where
  "conflict_retry_wait T wid n db =
     (if te_status_readable T n \<and> is_some_and (\<lambda>r. sw_status r = STATUS_CANCELLED) (find_status wid db)
      then (Inl (Cancelled wid), db)
      else (Inr (), te_others T n db))"

text \<open>
  The two retry loops; \<open>n\<close> counts the attempts of both. The conflict loop has no bound, so the loop takes
  fuel. A backoff out of range panics.
\<close>

fun tx_loop ::
    "sqlite \<Rightarrow> 'u tx_env \<Rightarrow> string \<Rightarrow> int \<Rightarrow> int \<Rightarrow> transaction_options \<Rightarrow> 'u tx_body \<Rightarrow> nat \<Rightarrow> nat \<Rightarrow> nat
       \<Rightarrow> 'u database \<Rightarrow> (json body_result \<times> 'u database) option" where
  "tx_loop Q T wid seq started opts body 0 user_attempt n db = None"
| "tx_loop Q T wid seq started opts body (Suc fuel) user_attempt n db =
     (case tx_attempt Q T wid seq started opts body n db of
        (Inr v, db1) \<Rightarrow> Some (Returned (Inr v), db1)
      | (Inl e, db1) \<Rightarrow>
          if transient e
          then (case conflict_retry_wait T wid n db1 of
                  (Inl c, db2) \<Rightarrow> Some (Returned (Inl c), db2)
                | (Inr _, db2) \<Rightarrow> tx_loop Q T wid seq started opts body fuel user_attempt (Suc n) db2)
          else if should_user_retry opts e user_attempt
          then (case user_retry_backoff (te_backoff T) opts user_attempt of
                  None \<Rightarrow> Some (Panicked (Panic_Text
                    ''cannot convert float seconds to Duration: value is either too big or NaN''), db1)
                | Some _ \<Rightarrow> tx_loop Q T wid seq started opts body fuel (Suc user_attempt) (Suc n) (te_others T n db1))
          else
            (case te_insert T n of
               Some e' \<Rightarrow> Some (Returned (Inl (Db e')), db1)
             | None \<Rightarrow>
                 (case insert_output Q (failure_row Q wid seq (to_name opts) e started (te_clock T n)) db1 of
                    (Inl e', db2) \<Rightarrow> Some (Returned (Inl e'), db2)
                  | (Inr _, db2) \<Rightarrow> Some (Returned (Inl e), db2))))"

text \<open>A recorded outcome is returned before any attempt.\<close>

definition sqlite_run_transaction_step ::
    "sqlite \<Rightarrow> 'u tx_env \<Rightarrow> string \<Rightarrow> int \<Rightarrow> int \<Rightarrow> transaction_options \<Rightarrow> 'u tx_body \<Rightarrow> nat \<Rightarrow> 'u database
       \<Rightarrow> (json body_result \<times> 'u database) option" where
  "sqlite_run_transaction_step Q T wid seq started opts body fuel db =
     (let run = tx_loop Q T wid seq started opts body fuel 0 0 db in
      case find_output wid seq db of
        None \<Rightarrow> run
      | Some r \<Rightarrow>
          (case output_outcome Q r of
             Inl e \<Rightarrow> Some (Returned (Inl e), db)
           | Inr None \<Rightarrow> run
           | Inr (Some so) \<Rightarrow>
               if oo_function_name r \<noteq> to_name opts
               then Some (Returned (Inl (unexpected_step wid seq (to_name opts) (oo_function_name r))), db)
               else Some (Returned (into_value_result so), db)))"

section \<open>The context operation\<close>

text \<open>
  \<open>run\<close> is the provider's \<open>run_transaction_step\<close>; the flag is \<open>in_transaction\<close> of the context, set for
  the time of the call.
\<close>

definition serialized_body :: "'a serde \<Rightarrow> ('u \<Rightarrow> 'a result \<times> 'u) \<Rightarrow> 'u tx_body" where
  "serialized_body d f u = (case f u of (Inl e, u') \<Rightarrow> (Inl e, u') | (Inr a, u') \<Rightarrow> (sd_to_value d a, u'))"

definition transaction_with ::
    "'s ctx_env \<Rightarrow> 'a serde
       \<Rightarrow> (string \<Rightarrow> int \<Rightarrow> int \<Rightarrow> transaction_options \<Rightarrow> 'u tx_body \<Rightarrow> 's \<Rightarrow> (json body_result \<times> 's) option)
       \<Rightarrow> transaction_options \<Rightarrow> ('u \<Rightarrow> 'a result \<times> 'u) \<Rightarrow> bool \<Rightarrow> ('s, 'x) ctx_state
       \<Rightarrow> ('a body_result \<times> bool \<times> ('s, 'x) ctx_state) option" where
  "transaction_with C d run opts f in_transaction s =
     (if in_transaction
      then Some (Returned (Inl (app ''cannot start a transaction inside another transaction'')), True, s)
      else
        let seq = cs_seq s;
            started = timestamp_millis (cx_clock C (cs_ticks s));
            s1 = s \<lparr> cs_seq := i32_wrap (cs_seq s + 1), cs_ticks := Suc (cs_ticks s) \<rparr>
        in case run (cx_workflow_id C) seq started opts (serialized_body d f) (cs_store s1) of
             None \<Rightarrow> None
           | Some (Panicked p, st) \<Rightarrow> Some (Panicked p, False, s1 \<lparr> cs_store := st \<rparr>)
           | Some (Returned (Inl e), st) \<Rightarrow> Some (Returned (Inl e), False, s1 \<lparr> cs_store := st \<rparr>)
           | Some (Returned (Inr v), st) \<Rightarrow> Some (Returned (sd_from_value d v), False, s1 \<lparr> cs_store := st \<rparr>))"

definition transaction ::
    "'s ctx_env \<Rightarrow> 'a serde
       \<Rightarrow> (string \<Rightarrow> int \<Rightarrow> int \<Rightarrow> transaction_options \<Rightarrow> 'u tx_body \<Rightarrow> 's \<Rightarrow> (json body_result \<times> 's) option)
       \<Rightarrow> string \<Rightarrow> ('u \<Rightarrow> 'a result \<times> 'u) \<Rightarrow> bool \<Rightarrow> ('s, 'x) ctx_state
       \<Rightarrow> ('a body_result \<times> bool \<times> ('s, 'x) ctx_state) option" where
  "transaction C d run name f = transaction_with C d run (transaction_options_new name) f"

section \<open>Attempts\<close>

definition no_lost_commit :: "'u tx_env \<Rightarrow> bool" where
  "no_lost_commit T \<longleftrightarrow> (\<forall>n e. te_commit T n \<noteq> Commit_Lost e)"

lemma find_output_key: "find_output wid seq db = None \<longleftrightarrow> (wid, seq) \<notin> output_key ` set (db_outputs db)"
  by (auto simp: find_output_def find_None_iff output_key_def image_iff)

lemma find_output_append:
  "find_output wid seq db = None \<Longrightarrow> oo_workflow_uuid r = wid \<Longrightarrow> oo_function_id r = seq \<Longrightarrow>
   find_output wid seq (db \<lparr> db_outputs := db_outputs db @ [r] \<rparr>) = Some r"
  by (simp add: find_output_def find_append)

lemma row_keys [simp]:
  "output_key (success_row Q wid seq name enc st now) = (wid, seq)"
  "output_key (failure_row Q wid seq name e st now) = (wid, seq)"
  "oo_workflow_uuid (success_row Q wid seq name enc st now) = wid"
  "oo_workflow_uuid (failure_row Q wid seq name e st now) = wid"
  "oo_function_id (success_row Q wid seq name enc st now) = seq"
  "oo_function_id (failure_row Q wid seq name e st now) = seq"
  "oo_function_name (success_row Q wid seq name enc st now) = name"
  "oo_function_name (failure_row Q wid seq name e st now) = name"
  by (simp_all add: success_row_def failure_row_def output_row_new_def output_key_def)

lemma insert_output_fresh:
  "find_output (oo_workflow_uuid r) (oo_function_id r) db = None \<Longrightarrow> has_workflow (oo_workflow_uuid r) db \<Longrightarrow>
   insert_output Q r db = (Inr (), db \<lparr> db_outputs := db_outputs db @ [r] \<rparr>)"
  by (simp add: insert_output_def find_output_key output_key_def)

lemma tx_attempt_error:
  assumes "tx_attempt Q T wid seq st opts body n db = (Inl e, db')" "no_lost_commit T"
  shows "db' = db"
  using assms
  by (auto simp: tx_attempt_def no_lost_commit_def split: option.splits prod.splits sum.splits if_splits
    commit_result.splits)

lemma tx_attempt_success:
  assumes "tx_attempt Q T wid seq st opts body n db = (Inr v, db')"
    and "find_output wid seq db = None" "has_workflow wid db"
  shows "\<exists>u enc. body (db_user db) = (Inr v, u) \<and> encode (sl_codec Q) (sl_serializer Q) v = Inr enc \<and>
    db' = db \<lparr> db_user := u,
      db_outputs := db_outputs db @ [success_row Q wid seq (to_name opts) enc st (te_clock T n)] \<rparr>"
proof -
  have i: "insert_output Q (success_row Q wid seq (to_name opts) enc st (te_clock T n)) (db \<lparr> db_user := u \<rparr>) =
      (Inr (), db \<lparr> db_user := u,
         db_outputs := db_outputs db @ [success_row Q wid seq (to_name opts) enc st (te_clock T n)] \<rparr>)" for enc u
    using insert_output_fresh [of "success_row Q wid seq (to_name opts) enc st (te_clock T n)" "db \<lparr> db_user := u \<rparr>" Q]
      assms(2,3) by (simp add: find_output_def has_workflow_def)
  show ?thesis
    using assms(1)
    by (auto simp: tx_attempt_def i split: option.splits prod.splits sum.splits if_splits commit_result.splits)
qed

text \<open>Where nothing fails any more, an attempt fails only as the body does.\<close>

definition settled_from :: "nat \<Rightarrow> 'u tx_env \<Rightarrow> bool" where
  "settled_from N T \<longleftrightarrow>
     (\<forall>n \<ge> N. te_begin T n = None \<and> te_insert T n = None \<and> te_commit T n = Commit_Ok \<and> te_rollback T n = None)"

definition body_settles :: "sqlite \<Rightarrow> 'u tx_body \<Rightarrow> bool" where
  "body_settles Q body \<longleftrightarrow>
     (\<forall>u e. fst (body u) = Inl e \<longrightarrow> \<not> transient e) \<and>
     (\<forall>u v. fst (body u) = Inr v \<longrightarrow> (\<exists>enc. encode (sl_codec Q) (sl_serializer Q) v = Inr enc \<and>
        decode (sl_codec Q) (sl_serializer Q) (Some (serializer_name (sl_serializer Q))) enc = Inr v))"

lemma tx_attempt_settled:
  assumes "tx_attempt Q T wid seq st opts body n db = (Inl e, db')" "settled_from N T" "N \<le> n"
    and "body_settles Q body" "find_output wid seq db = None" "has_workflow wid db"
  shows "\<not> transient e"
proof -
  have t: "te_begin T n = None" "te_insert T n = None" "te_commit T n = Commit_Ok" "te_rollback T n = None"
    using assms(2,3) by (simp_all add: settled_from_def)
  obtain r u where b: "body (db_user db) = (r, u)" by fastforce
  show ?thesis
  proof (cases r)
    case (Inl e')
    have "fst (body (db_user db)) = Inl e'" using b Inl by simp
    then have n: "\<not> transient e'" using assms(4) by (auto simp: body_settles_def)
    moreover have "e' = e" using assms(1) b t n by (simp add: Inl tx_attempt_def)
    ultimately show ?thesis by simp
  next
    case (Inr v)
    have "fst (body (db_user db)) = Inr v" using b Inr by simp
    then obtain enc where x: "encode (sl_codec Q) (sl_serializer Q) v = Inr enc"
      using assms(4) unfolding body_settles_def by blast
    have "insert_output Q (success_row Q wid seq (to_name opts) enc st (te_clock T n)) (db \<lparr> db_user := u \<rparr>) =
        (Inr (), db \<lparr> db_user := u,
           db_outputs := db_outputs db @ [success_row Q wid seq (to_name opts) enc st (te_clock T n)] \<rparr>)"
      using insert_output_fresh [of "success_row Q wid seq (to_name opts) enc st (te_clock T n)" "db \<lparr> db_user := u \<rparr>" Q]
        assms(5,6) by (simp add: find_output_def has_workflow_def)
    then show ?thesis using assms(1) b t x by (simp add: Inr tx_attempt_def)
  qed
qed

section \<open>The loop\<close>

text \<open>The other writers leave this position and the workflow's row in place.\<close>

definition single_writer :: "'u tx_env \<Rightarrow> string \<Rightarrow> int \<Rightarrow> bool" where
  "single_writer T wid seq \<longleftrightarrow>
     (\<forall>n db. find_output wid seq (te_others T n db) = find_output wid seq db \<and>
             has_workflow wid (te_others T n db) = has_workflow wid db)"

lemma conflict_retry_wait_cases:
  "conflict_retry_wait T wid n db = (Inl c, db') \<Longrightarrow> c = Cancelled wid \<and> db' = db"
  "conflict_retry_wait T wid n db = (Inr x, db') \<Longrightarrow> db' = te_others T n db"
  by (auto simp: conflict_retry_wait_def split: if_splits)

lemma tx_loop_mono:
  "tx_loop Q T wid seq st opts body fuel ua n db = Some x \<Longrightarrow> fuel \<le> fuel' \<Longrightarrow>
   tx_loop Q T wid seq st opts body fuel' ua n db = Some x"
proof (induction fuel arbitrary: fuel' ua n db)
  case (Suc fuel)
  then obtain f' where f': "fuel' = Suc f'" "fuel \<le> f'" by (cases fuel') auto
  show ?case
    using Suc.prems(1) Suc.IH [OF _ f'(2)]
    by (auto simp: f'(1) split: prod.splits sum.splits if_splits option.splits)
qed simp

lemma tx_loop_returns:
  assumes "settled_from N T" "body_settles Q body" "no_lost_commit T" "single_writer T wid seq"
  shows "find_output wid seq db = None \<Longrightarrow> has_workflow wid db \<Longrightarrow>
    (N - n) + (to_max_retries opts - ua) < fuel \<Longrightarrow> \<exists>x. tx_loop Q T wid seq st opts body fuel ua n db = Some x"
proof (induction fuel arbitrary: ua n db)
  case (Suc fuel)
  obtain r db1 where a: "tx_attempt Q T wid seq st opts body n db = (r, db1)" by fastforce
  show ?case
  proof (cases r)
    case (Inl e)
    have [simp]: "db1 = db" using tx_attempt_error a assms(3) by (simp add: Inl)
    have o: "find_output wid seq (te_others T n db) = None" "has_workflow wid (te_others T n db)"
      using assms(4) Suc.prems(1,2) by (simp_all add: single_writer_def)
    consider (conflict) "transient e" | (user) "\<not> transient e" "should_user_retry opts e ua"
      | (last) "\<not> transient e" "\<not> should_user_retry opts e ua" by blast
    then show ?thesis
    proof cases
      case conflict
      then have "n < N"
        using tx_attempt_settled [OF a [unfolded Inl] assms(1) _ assms(2) Suc.prems(1,2)] by (meson linorder_not_less)
      then have "(N - Suc n) + (to_max_retries opts - ua) < fuel" using Suc.prems(3) by simp
      from Suc.IH [OF o this] show ?thesis
        using conflict_retry_wait_cases(2) [of T wid n db]
        by (auto simp: a Inl conflict split: prod.splits sum.splits)
    next
      case user
      then have "ua < to_max_retries opts" by (simp add: should_user_retry_def)
      then have "(N - Suc n) + (to_max_retries opts - Suc ua) < fuel" using Suc.prems(3) by simp
      from Suc.IH [OF o this] show ?thesis by (auto simp: a Inl user split: option.splits)
    next
      case last
      then show ?thesis by (auto simp: a Inl split: option.splits prod.splits sum.splits)
    qed
  qed (simp add: a)
qed simp

text \<open>How the loop ends, from the database the other writers have made of the first one.\<close>

definition after_others :: "'u tx_env \<Rightarrow> nat \<Rightarrow> nat \<Rightarrow> 'u database \<Rightarrow> 'u database" where
  "after_others T n m db = fold (te_others T) [n ..< m] db"

lemma after_others_Suc: "n < m \<Longrightarrow> after_others T n m db = after_others T (Suc n) m (te_others T n db)"
  by (simp add: after_others_def upt_conv_Cons)

definition committed_once ::
    "sqlite \<Rightarrow> string \<Rightarrow> int \<Rightarrow> int \<Rightarrow> string \<Rightarrow> 'u tx_body \<Rightarrow> 'u database \<Rightarrow> json \<Rightarrow> 'u database \<Rightarrow> bool" where
  "committed_once Q wid seq st name body d v db' \<longleftrightarrow>
     (\<exists>u enc now. body (db_user d) = (Inr v, u) \<and> encode (sl_codec Q) (sl_serializer Q) v = Inr enc \<and>
        db' = d \<lparr> db_user := u, db_outputs := db_outputs d @ [success_row Q wid seq name enc st now] \<rparr>)"

definition failed_clean ::
    "sqlite \<Rightarrow> string \<Rightarrow> int \<Rightarrow> int \<Rightarrow> string \<Rightarrow> 'u database \<Rightarrow> error \<Rightarrow> 'u database \<Rightarrow> bool" where
  "failed_clean Q wid seq st name d e db' \<longleftrightarrow>
     db' = d \<or> (\<exists>now. db' = d \<lparr> db_outputs := db_outputs d @ [failure_row Q wid seq name e st now] \<rparr>)"

lemma tx_loop_ends:
  assumes "no_lost_commit T" "single_writer T wid seq"
  shows "tx_loop Q T wid seq st opts body fuel ua n db = Some (b, db') \<Longrightarrow>
    find_output wid seq db = None \<Longrightarrow> has_workflow wid db \<Longrightarrow>
    \<exists>m \<ge> n. (\<exists>v. b = Returned (Inr v) \<and> committed_once Q wid seq st (to_name opts) body (after_others T n m db) v db') \<or>
      (\<exists>e. b = Returned (Inl e) \<and> failed_clean Q wid seq st (to_name opts) (after_others T n m db) e db') \<or>
      (\<exists>p. b = Panicked p \<and> db' = after_others T n m db)"
proof (induction fuel arbitrary: ua n db)
  case (Suc fuel)
  obtain r db1 where a: "tx_attempt Q T wid seq st opts body n db = (r, db1)" by fastforce
  have z: "after_others T n n db = db" by (simp add: after_others_def)
  show ?case
  proof (cases r)
    case (Inr v)
    have "committed_once Q wid seq st (to_name opts) body (after_others T n n db) v db1"
      using tx_attempt_success [OF a [unfolded Inr] Suc.prems(2,3)] unfolding committed_once_def z by blast
    then show ?thesis using Suc.prems(1) by (auto simp: a Inr)
  next
    case (Inl e)
    have [simp]: "db1 = db" using tx_attempt_error a assms(1) by (simp add: Inl)
    have o: "find_output wid seq (te_others T n db) = None" "has_workflow wid (te_others T n db)"
      using assms(2) Suc.prems(2,3) by (simp_all add: single_writer_def)
    have again: ?thesis if "tx_loop Q T wid seq st opts body fuel ua' (Suc n) (te_others T n db) = Some (b, db')" for ua'
      using Suc.IH [OF that o] by (metis Suc_leD Suc_le_lessD after_others_Suc)
    have f: "insert_output Q (failure_row Q wid seq (to_name opts) e st (te_clock T n)) db =
        (Inr (), db \<lparr> db_outputs := db_outputs db @ [failure_row Q wid seq (to_name opts) e st (te_clock T n)] \<rparr>)"
      by (rule insert_output_fresh) (use Suc.prems(2,3) in simp_all)
    show ?thesis
    proof (cases "transient e \<or> should_user_retry opts e ua")
      case True
      then show ?thesis
        using Suc.prems(1) again z conflict_retry_wait_cases [of T wid n db]
        by (auto simp: a Inl failed_clean_def split: prod.splits sum.splits if_splits option.splits)
    next
      case False
      then have "(b = Returned (Inl e) \<or> db' = db) \<and> (\<exists>e'. b = Returned (Inl e')) \<and>
          (b = Returned (Inl e) \<longrightarrow> failed_clean Q wid seq st (to_name opts) db e db')"
        using Suc.prems(1) by (auto simp: a Inl f failed_clean_def split: option.splits)
      then show ?thesis using z by (auto simp: failed_clean_def intro!: exI [of _ n])
    qed
  qed
qed simp

section \<open>Exactly once\<close>

lemma output_outcome_rows:
  "decode (sl_codec Q) (sl_serializer Q) (Some (serializer_name (sl_serializer Q))) enc = Inr v \<Longrightarrow>
     output_outcome Q (success_row Q wid seq name enc st now) = Inr (Some (Output v))"
  "\<exists>m info. output_outcome Q (failure_row Q wid seq name e st now) = Inr (Some (Failure m info))"
  by (simp_all add: output_outcome_def step_outcome_from_def success_row_def failure_row_def output_row_new_def
    split: prod.splits)

lemma replay_recorded:
  assumes "find_output wid seq d = Some r" "output_outcome Q r = Inr (Some out)" "oo_function_name r = to_name opts"
  shows "sqlite_run_transaction_step Q T wid seq st opts body fuel d = Some (Returned (into_value_result out), d)"
  using assms by (simp add: sqlite_run_transaction_step_def)

text \<open>What a later call at a position finds there, whatever its body and surroundings.\<close>

definition replays_as ::
    "sqlite \<Rightarrow> string \<Rightarrow> int \<Rightarrow> transaction_options \<Rightarrow> 'u database \<Rightarrow> (json result \<Rightarrow> bool) \<Rightarrow> bool" where
  "replays_as Q wid seq opts db P \<longleftrightarrow>
     (\<forall>(T :: 'u tx_env) st body fuel d. find_output wid seq d = find_output wid seq db \<longrightarrow>
        (\<exists>r. P r \<and> sqlite_run_transaction_step Q T wid seq st opts body fuel d = Some (Returned r, d)))"

lemma committed_replays:
  assumes "committed_once Q wid seq st (to_name opts) body d v db'" "find_output wid seq d = None"
    and "body_settles Q body"
  shows "replays_as Q wid seq opts db' (\<lambda>r. r = Inr v)"
proof -
  obtain u enc now where c: "body (db_user d) = (Inr v, u)" "encode (sl_codec Q) (sl_serializer Q) v = Inr enc"
      "db' = d \<lparr> db_user := u, db_outputs := db_outputs d @ [success_row Q wid seq (to_name opts) enc st now] \<rparr>"
    using assms(1) unfolding committed_once_def by blast
  have "fst (body (db_user d)) = Inr v" using c(1) by simp
  then have "decode (sl_codec Q) (sl_serializer Q) (Some (serializer_name (sl_serializer Q))) enc = Inr v"
    using assms(3) c(2) unfolding body_settles_def by fastforce
  note out = output_outcome_rows(1) [OF this, of wid seq "to_name opts" st now]
  have "find_output wid seq db' = Some (success_row Q wid seq (to_name opts) enc st now)"
    using assms(2) by (simp add: c(3) find_output_def find_append)
  then show ?thesis using replay_recorded [OF _ out, where opts = opts] by (auto simp: replays_as_def)
qed

lemma failed_replays:
  assumes "failed_clean Q wid seq st (to_name opts) d e db'" "find_output wid seq d = None"
    and "find_output wid seq db' \<noteq> None"
  shows "replays_as Q wid seq opts db' (\<lambda>r. \<exists>e'. r = Inl e')"
proof -
  obtain now where db': "db' = d \<lparr> db_outputs := db_outputs d @ [failure_row Q wid seq (to_name opts) e st now] \<rparr>"
    using assms by (auto simp: failed_clean_def)
  obtain k info where f: "output_outcome Q (failure_row Q wid seq (to_name opts) e st now) = Inr (Some (Failure k info))"
    using output_outcome_rows(2) by blast
  have "find_output wid seq db' = Some (failure_row Q wid seq (to_name opts) e st now)"
    using assms(2) by (simp add: db' find_output_def find_append)
  note r = replay_recorded [OF _ f, where opts = opts and wid = wid and seq = seq, folded this]
  show ?thesis
    unfolding replays_as_def by (intro allI impI exI [of _ "into_value_result (Failure k info)"] conjI) (simp_all add: r)
qed


definition wit_sqlite :: sqlite where
  "wit_sqlite =
     \<lparr> sl_serializer = Ser_Json, sl_codec = plain_env (JInt 1), sl_from_ms = wit_from_ms, sl_now = 0,
       sl_to_rfc3339 = (\<lambda>_. ''t''), sl_parse_rfc3339 = (\<lambda>_. None), sl_as_secs_f64 = (\<lambda>_. 0),
       sl_from_secs_f64 = (\<lambda>_. 0), sl_unique_text = ''unique'', sl_foreign_key_text = ''fk'',
       sl_syntax_text = ''syntax'' \<rparr>"

definition wit_db :: "nat database" where
  "wit_db = (empty_database 0) \<lparr> db_status := [status_row_of wit_sqlite (wit_queued ''c'' 0) ''text''] \<rparr>"

definition wit_busy :: sqlx_error where
  "wit_busy = Sqlx_Error (Sqlx_Database (Some ''5'') False False) ''database is locked''"

text \<open>The first attempt meets a locked database.\<close>

definition wit_tx :: "nat tx_env" where
  "wit_tx =
     \<lparr> te_begin = (\<lambda>n. if n = 0 then Some wit_busy else None), te_insert = (\<lambda>_. None),
       te_commit = (\<lambda>_. Commit_Ok), te_rollback = (\<lambda>_. None), te_status_readable = (\<lambda>_. True),
       te_clock = (\<lambda>_. 0), te_others = (\<lambda>_ db. db), te_backoff = (\<lambda>d _ _. Some d) \<rparr>"

definition wit_opts :: transaction_options where
  "wit_opts =
     \<lparr> to_name = ''debit'', to_isolation = Serializable, to_read_only = False, to_max_retries = 0,
       to_backoff_factor = 0, to_base_interval = 1, to_max_interval = 1, to_retry_if = None \<rparr>"

definition wit_tx_body :: "nat tx_body" where
  "wit_tx_body u = (Inr (JInt 1), Suc u)"

lemma wit_db_facts: "find_output ''c'' i wit_db = None" "has_workflow ''c'' wit_db" "db_user wit_db = 0"
    "is_none_or (\<lambda>r. sw_status r \<noteq> STATUS_CANCELLED) (find_status ''c'' wit_db)"
  by (simp_all add: wit_db_def empty_database_def find_output_def has_workflow_def find_status_def status_row_of_def
    wit_queued_def workflow_status_new_def status_defs)

lemma wit_body_settles: "body_settles wit_sqlite wit_tx_body"
proof -
  have "encode (sl_codec wit_sqlite) (sl_serializer wit_sqlite) (JInt 1) = Inr ''text''"
    "decode (sl_codec wit_sqlite) (sl_serializer wit_sqlite) (Some (serializer_name (sl_serializer wit_sqlite))) ''text'' = Inr (JInt 1)"
    by code_simp+
  then show ?thesis by (auto simp: body_settles_def wit_tx_body_def)
qed




end
