(* ===== verification/Provider_Agreement.thy ===== *)
theory Provider_Agreement
  imports Sqlite_Refine Tx
begin

text \<open>
  A program that uses the storage interface cannot tell the SQLite provider from the in-memory one:
  any sequence of the calls below gets the same answers from both, and the databases stay related by
  the abstraction of \<open>Sqlite_Refine\<close>. The calls are the workflow rows, step checkpoints, queue claims,
  events and the single-row management calls of the trait. \<open>call_ok\<close> is the contract under which the
  two agree; each of its clauses excludes a call on which they do not.
\<close>

section \<open>Calls\<close>

datatype store_call =
  Insert_Workflow workflow_status
| Find_Deduplicated string string
| Read_Workflow string
| Set_Status string string "json option" "string option" datetime
| Read_Step string int
| Record_Step string int string json "string option" "int option" datetime
| Claim dequeue_request datetime
| Promote datetime
| Put_Event string string json
| Read_Event string string
| Cancel_Call string datetime
| Resume_Call string datetime
| Reenqueue string string datetime
| Set_Delay string int datetime
| Record_Child string int string string
| Read_Child string int
| Read_Step_Name string int
| Record_Patch string int string

datatype answer =
  A_Done
| A_Created workflow_status bool
| A_Row "workflow_status option"
| A_Text "string option"
| A_Step "recorded_step option"
| A_Outcome step_outcome
| A_Rows "workflow_status list"
| A_Count nat
| A_Value "json option"
| A_Flag bool
| A_Child "(string \<times> string) option"

definition answered :: "('a \<Rightarrow> answer) \<Rightarrow> 'a result \<times> 's \<Rightarrow> answer result \<times> 's" where
  "answered k x = (map_sum id k (fst x), snd x)"

text \<open>One call of the interface; a panic of the claim is \<^const>\<open>None\<close>.\<close>

fun provider_call :: "'s provider \<Rightarrow> store_call \<Rightarrow> 's \<Rightarrow> (answer result \<times> 's) option" where
  "provider_call P (Insert_Workflow w) s = Some (answered (case_prod A_Created) (pv_insert_workflow_status P w s))"
| "provider_call P (Find_Deduplicated q d) s = Some (answered A_Text (pv_get_deduplicated_workflow P q d s))"
| "provider_call P (Read_Workflow wid) s = Some (answered A_Row (pv_get_workflow_status P wid s))"
| "provider_call P (Set_Status wid st out err now) s = Some (answered (\<lambda>_. A_Done) (pv_set_workflow_status P wid st out err now s))"
| "provider_call P (Read_Step wid seq) s = Some (answered A_Step (pv_get_step_result P wid seq s))"
| "provider_call P (Record_Step wid seq name v err st now) s =
     Some (answered A_Outcome (pv_record_step_result P wid seq name v err st now s))"
| "provider_call P (Claim req now) s = map_option (answered A_Rows) (pv_dequeue_workflows P req now (\<lambda>_. now) s)"
| "provider_call P (Promote now) s = Some (answered A_Count (pv_transition_delayed_workflows P (timestamp_millis now) (\<lambda>_. now) s))"
| "provider_call P (Put_Event wid key v) s = Some (answered (\<lambda>_. A_Done) (pv_upsert_event P wid key v s))"
| "provider_call P (Read_Event wid key) s = Some (answered A_Value (pv_get_event_value P wid key s))"
| "provider_call P (Cancel_Call wid now) s = Some (answered (\<lambda>_. A_Done) (pv_cancel_workflow P wid now s))"
| "provider_call P (Resume_Call wid now) s = Some (answered A_Flag (pv_resume_workflow P wid now s))"
| "provider_call P (Reenqueue wid q now) s = Some (answered (\<lambda>_. A_Done) (pv_enqueue_existing P wid q now s))"
| "provider_call P (Set_Delay wid t now) s = Some (answered A_Flag (pv_set_workflow_delay P wid t now s))"
| "provider_call P (Record_Child wid seq name cid) s = Some (answered (\<lambda>_. A_Done) (pv_record_child_workflow P wid seq name cid s))"
| "provider_call P (Read_Child wid seq) s = Some (answered A_Child (pv_check_child_workflow P wid seq s))"
| "provider_call P (Read_Step_Name wid seq) s = Some (answered A_Text (pv_get_step_name P wid seq s))"
| "provider_call P (Record_Patch wid seq name) s = Some (answered (\<lambda>_. A_Done) (pv_record_patch P wid seq name s))"

text \<open>
  The contract. Clock readings are whole milliseconds in the range of chrono, which is what the columns
  hold, and values are ones the serializer reads back. Steps and events belong to an existing workflow
  (the foreign key). Beyond that: a repeated insert carries no deduplication id, since SQLite answers it
  with the stored row before it looks at the slot; a row parked by the recovery cap is neither cancelled
  nor resumed (SQLite does both, the in-memory provider neither); a re-enqueued row holds no slot on
  another queue; the outcome of a marker row is not asked for (nothing against null); and the claimable
  rows differ in priority or creation time, since SQLite breaks ties by no rule.
\<close>

fun call_ok :: "sqlite \<Rightarrow> store_call \<Rightarrow> 'u database \<Rightarrow> bool" where
  "call_ok Q (Insert_Workflow w) db \<longleftrightarrow> fresh_row Q w \<and> (ws_dedup_id w = None \<or> \<not> has_workflow (ws_id w) db)"
| "call_ok Q (Set_Status wid st out err now) db \<longleftrightarrow> whole_ms Q now \<and> (case out of None \<Rightarrow> True | Some v \<Rightarrow> storable Q v)"
| "call_ok Q (Read_Step wid seq) db \<longleftrightarrow>
     is_none_or (\<lambda>r. oo_output r \<noteq> None \<or> oo_error r \<noteq> None) (find_output wid seq db)"
| "call_ok Q (Record_Step wid seq name v err st now) db \<longleftrightarrow> has_workflow wid db \<and> (err \<noteq> None \<or> storable Q v)"
| "call_ok Q (Claim req now) db \<longleftrightarrow> whole_ms Q now \<and> claims_ok Q req now db"
| "call_ok Q (Promote now) db \<longleftrightarrow> whole_ms Q now"
| "call_ok Q (Put_Event wid key v) db \<longleftrightarrow> has_workflow wid db \<and> storable Q v"
| "call_ok Q (Cancel_Call wid now) db \<longleftrightarrow>
     whole_ms Q now \<and> is_none_or (\<lambda>r. sw_status r \<noteq> STATUS_MAX_RECOVERY_ATTEMPTS_EXCEEDED) (find_status wid db)"
| "call_ok Q (Resume_Call wid now) db \<longleftrightarrow>
     whole_ms Q now \<and> is_none_or (\<lambda>r. sw_status r \<noteq> STATUS_MAX_RECOVERY_ATTEMPTS_EXCEEDED) (find_status wid db)"
| "call_ok Q (Reenqueue wid q now) db \<longleftrightarrow>
     whole_ms Q now \<and> is_none_or (\<lambda>r. sw_deduplication_id r = None) (find_status wid db)"
| "call_ok Q (Set_Delay wid t now) db \<longleftrightarrow> whole_ms Q now"
| "call_ok Q (Record_Child wid seq name cid) db \<longleftrightarrow> has_workflow wid db"
| "call_ok Q (Record_Patch wid seq name) db \<longleftrightarrow> has_workflow wid db"
| "call_ok Q (Find_Deduplicated q d) db \<longleftrightarrow> True"
| "call_ok Q (Read_Workflow wid) db \<longleftrightarrow> True"
| "call_ok Q (Read_Event wid key) db \<longleftrightarrow> True"
| "call_ok Q (Read_Child wid seq) db \<longleftrightarrow> True"
| "call_ok Q (Read_Step_Name wid seq) db \<longleftrightarrow> True"

section \<open>Agreement\<close>

lemma agrees_answered:
  "agrees Q f g db \<Longrightarrow>
   \<exists>r db'. Some (answered k (f db)) = Some (r, db') \<and> sql_wf Q db' \<and>
     Some (answered k (g (abs_db Q db))) = Some (r, abs_db Q db')"
  by (cases "f db") (auto simp: agrees_def answered_def)

lemma is_none_or_all: "is_none_or p x \<longleftrightarrow> (\<forall>v. x = Some v \<longrightarrow> p v)"
  by (cases x) auto

lemmas call_agrees = insert_agrees deduplicated_agrees read_agrees set_status_agrees get_step_agrees record_step_agrees
  promote_agrees upsert_event_agrees get_event_agrees cancel_agrees resume_agrees enqueue_existing_agrees set_delay_agrees
  marker_agrees step_reads_agree

lemma provider_call_agrees:
  assumes wf: "sql_wf Q db" and p: "plain_format Q" and c: "call_ok Q c db"
  shows "\<exists>r db'. provider_call (sqlite_provider Q) c db = Some (r, db') \<and> sql_wf Q db' \<and>
    provider_call (memory_provider from_ms) c (abs_db Q db) = Some (r, abs_db Q db')"
proof (cases c)
  case (Claim req now)
  with c dequeue_agrees [OF wf, of now req] show ?thesis
    by (auto simp: sqlite_provider_def memory_provider_def answered_def)
qed (use c wf p in \<open>auto simp: sqlite_provider_def memory_provider_def is_none_or_all split: option.splits
  intro!: agrees_answered call_agrees simp del: option.inject\<close>)

section \<open>Sequences of calls\<close>

fun run_calls :: "('c \<Rightarrow> 's \<Rightarrow> ('r \<times> 's) option) \<Rightarrow> 'c list \<Rightarrow> 's \<Rightarrow> ('r list \<times> 's) option" where
  "run_calls call [] s = Some ([], s)"
| "run_calls call (c # cs) s =
     (case call c s of
        None \<Rightarrow> None
      | Some (r, s1) \<Rightarrow> map_option (\<lambda>(rs, s2). (r # rs, s2)) (run_calls call cs s1))"

text \<open>A contract along a run.\<close>

fun calls_within :: "('c \<Rightarrow> 's \<Rightarrow> ('r \<times> 's) option) \<Rightarrow> ('c \<Rightarrow> 's \<Rightarrow> bool) \<Rightarrow> 'c list \<Rightarrow> 's \<Rightarrow> bool" where
  "calls_within call pre [] s \<longleftrightarrow> True"
| "calls_within call pre (c # cs) s \<longleftrightarrow> pre c s \<and> is_none_or (\<lambda>(_, s'). calls_within call pre cs s') (call c s)"

text \<open>One implementation of an interface simulates another call by call, hence on every sequence.\<close>

locale call_simulation =
  fixes concrete :: "'c \<Rightarrow> 'd \<Rightarrow> ('r \<times> 'd) option"
    and abstract :: "'c \<Rightarrow> 'a \<Rightarrow> ('r \<times> 'a) option"
    and abs :: "'d \<Rightarrow> 'a" and inv :: "'d \<Rightarrow> bool" and pre :: "'c \<Rightarrow> 'd \<Rightarrow> bool"
  assumes simulates:
    "inv d \<Longrightarrow> pre c d \<Longrightarrow> \<exists>r d'. concrete c d = Some (r, d') \<and> inv d' \<and> abstract c (abs d) = Some (r, abs d')"
begin

lemma runs_agree:
  "inv d \<Longrightarrow> calls_within concrete pre cs d \<Longrightarrow>
   \<exists>answers d'. run_calls concrete cs d = Some (answers, d') \<and> inv d' \<and> run_calls abstract cs (abs d) = Some (answers, abs d')"
proof (induction cs arbitrary: d)
  case (Cons c cs)
  from Cons.prems(2) have "pre c d" by simp
  from simulates [OF Cons.prems(1) this] obtain r d1 where
    1: "concrete c d = Some (r, d1)" "inv d1" "abstract c (abs d) = Some (r, abs d1)" by blast
  moreover from 1(1) Cons.prems(2) have "calls_within concrete pre cs d1" by simp
  ultimately show ?case using Cons.IH [OF 1(2)] by fastforce
qed simp

end

interpretation sql: call_simulation "provider_call (sqlite_provider Q)" "provider_call (memory_provider from_ms)"
    "abs_db Q" "\<lambda>db. sql_wf Q db \<and> plain_format Q" "call_ok Q" for Q from_ms
  by unfold_locales (use provider_call_agrees in blast)

abbreviation calls_ok :: "sqlite \<Rightarrow> store_call list \<Rightarrow> 'u database \<Rightarrow> bool" where
  "calls_ok Q \<equiv> calls_within (provider_call (sqlite_provider Q)) (call_ok Q)"

lemma empty_related: "sql_wf Q (empty_database u)" "abs_db Q (empty_database u) = inner_default"
  by (simp_all add: sql_wf_def empty_database_def abs_db_def inner_default_def slots_unique_def map_filter_simps)


definition wit_calls :: "store_call list" where
  "wit_calls =
     [Insert_Workflow (wit_queued ''c'' 0), Record_Step ''c'' 0 ''s'' (JInt 1) None None 5000000,
      Read_Step ''c'' 0, Cancel_Call ''c'' 5000000]"

lemma wit_whole_ms: "whole_ms wit_sqlite 0" "whole_ms wit_sqlite 5000000"
  by (simp_all add: whole_ms_def ms_to_dt_def wit_sqlite_def wit_from_ms_def timestamp_millis_def)

lemma wit_storable: "storable wit_sqlite (JInt 1)" "storable wit_sqlite JNull"
  by (simp_all add: storable_def wit_sqlite_def decode_def plain_env_def one_value_text_def custom_named_def
    DBOS_JSON_def PORTABLE_def NIL_MARKER_def)

lemma wit_fresh: "fresh_row wit_sqlite (wit_queued ''c'' 0)"
  by (simp add: fresh_row_def wit_queued_def workflow_status_new_def wit_whole_ms wit_storable i32_min_def i32_max_def
    encode_roles_def decode_roles_def)

definition wit_row0 :: status_row where
  "wit_row0 = status_row_of wit_sqlite (wit_queued ''c'' 0) NIL_MARKER"

lemma wit_format: "plain_format wit_sqlite"
  by (simp add: plain_format_def wit_sqlite_def PORTABLE_def DBOS_JSON_def)

lemma wit_encode:
  "encode (sl_codec wit_sqlite) (sl_serializer wit_sqlite) (JInt 1) = Inr ''text''"
  "encode_input (sl_codec wit_sqlite) (sl_serializer wit_sqlite) (ws_input (wit_queued ''c'' 0)) = Inr NIL_MARKER"
  by (simp_all add: wit_sqlite_def wit_queued_def workflow_status_new_def encode_input_def plain_env_def one_value_text_def)

definition wit_output0 :: output_row where
  "wit_output0 =
     (output_row_new ''c'' 0 ''s'')
       \<lparr> oo_output := Some ''text'', oo_serialization := Some (serializer_name (sl_serializer wit_sqlite)),
         oo_completed_at_epoch_ms := Some (timestamp_millis 5000000) \<rparr>"

definition wit_db1 :: "nat database" where
  "wit_db1 = (empty_database 0) \<lparr> db_status := [wit_row0] \<rparr>"

definition wit_db2 :: "nat database" where
  "wit_db2 = wit_db1 \<lparr> db_outputs := [wit_output0] \<rparr>"

lemma wit_insert:
  "\<exists>r. provider_call (sqlite_provider wit_sqlite) (Insert_Workflow (wit_queued ''c'' 0)) (empty_database 0) = Some (r, wit_db1)"
  by (simp add: sqlite_provider_def sqlite_insert_workflow_status_def wit_encode find_status_def empty_database_def
    slots_unique_def map_filter_simps wit_row0_def [symmetric] wit_db1_def Let_def answered_def split: option.splits)

lemma wit_record:
  "\<exists>r. provider_call (sqlite_provider wit_sqlite) (Record_Step ''c'' 0 ''s'' (JInt 1) None None 5000000) wit_db1 = Some (r, wit_db2)"
  by (simp add: sqlite_provider_def sqlite_record_step_result_def wit_encode insert_output_def and_then_def answered_def
    has_workflow_def empty_database_def find_output_def output_row_new_def wit_output0_def wit_row0_def status_row_of_def
    wit_queued_def workflow_status_new_def wit_db1_def wit_db2_def)

lemma wit_read:
  "\<exists>r. provider_call (sqlite_provider wit_sqlite) (Read_Step ''c'' 0) wit_db2 = Some (r, wit_db2)"
  by (simp add: sqlite_provider_def sqlite_get_step_result_def answered_def split: option.splits)

lemma wit_db_reads:
  "has_workflow ''c'' wit_db1" "find_output ''c'' 0 wit_db2 = Some wit_output0" "oo_output wit_output0 = Some ''text''"
  "find_status ''c'' wit_db2 = Some wit_row0" "sw_status wit_row0 = STATUS_ENQUEUED"
  by (simp_all add: has_workflow_def wit_db1_def wit_db2_def wit_row0_def status_row_of_def wit_queued_def
    workflow_status_new_def wit_output0_def output_row_new_def find_output_def find_status_def empty_database_def)

lemma wit_calls_ok: "calls_ok wit_sqlite wit_calls (empty_database (0 :: nat))"
proof -
  have t: "is_none_or (\<lambda>(_, db). calls_ok wit_sqlite [] db) x" for x :: "(answer result \<times> nat database) option"
    by (cases x) auto
  have d: "ws_dedup_id (wit_queued ''c'' 0) = None" by (simp add: wit_queued_def workflow_status_new_def)
  from wit_insert wit_record wit_read show ?thesis
    by (auto simp: wit_calls_def wit_fresh wit_storable wit_whole_ms wit_db_reads d t status_defs simp del: provider_call.simps)
qed


end
