(* ===== verification/Conductor_Wire.thy ===== *)
theory Conductor_Wire
  imports Engine_Admin "HOL-Library.Monad_Syntax"
begin

text \<open>
  The wire format of the conductor client, \<open>src/src/conductor.rs\<close>: reading the fields of a request the
  way the derived deserializers do, the filters and queries built from request bodies, and the rendering
  of rows in responses. A request that does not deserialize is \<^const>\<open>None\<close>: its handler ends with an
  error that is logged, and nothing is sent. Requests and bodies are JSON
  objects with distinct keys; the positional form that serde also reads is left out.
\<close>

section \<open>Parameters\<close>

text \<open>
  The packages: JSON text, RFC 3339 instants (with the parser's error text), and the float values of a
  duration and of a count.
\<close>

record wire_env =
  wi_text :: json_text
  wi_parse_rfc3339 :: "string \<Rightarrow> string + datetime"
  wi_rfc3339_nanos :: "datetime \<Rightarrow> string"
  wi_as_secs_f64 :: "duration \<Rightarrow> 64 word"
  wi_f64 :: "int \<Rightarrow> 64 word"

section \<open>Reading requests\<close>

text \<open>A field with \<open>serde(default)\<close>, an optional field, and \<open>null_default\<close>.\<close>

definition field :: "(json \<Rightarrow> 'a option) \<Rightarrow> 'a \<Rightarrow> string \<Rightarrow> json_map \<Rightarrow> 'a option" where
  "field conv dflt key m = (case hm_get m key of None \<Rightarrow> Some dflt | Some v \<Rightarrow> conv v)"

definition option_of :: "(json \<Rightarrow> 'a option) \<Rightarrow> json \<Rightarrow> 'a option option" where
  "option_of conv v = (if is_null v then Some None else map_option Some (conv v))"

definition null_default :: "(json \<Rightarrow> 'a option) \<Rightarrow> 'a \<Rightarrow> json \<Rightarrow> 'a option" where
  "null_default conv dflt v = map_option (\<lambda>x. unwrap_or x dflt) (option_of conv v)"

fun string_or_list :: "json \<Rightarrow> string list option" where
  "string_or_list JNull = Some []"
| "string_or_list (JString s) = Some [s]"
| "string_or_list (JArray vs) = those (map as_str vs)"
| "string_or_list _ = None"

definition sol_first :: "string list \<Rightarrow> string option" where
  "sol_first vs = (case vs of [] \<Rightarrow> None | s # _ \<Rightarrow> Some s)"

text \<open>\<open>Option<DateTime<Utc>>\<close> mapped to epoch milliseconds.\<close>

definition instant_of :: "wire_env \<Rightarrow> json \<Rightarrow> datetime option" where
  "instant_of W v = Option.bind (as_str v) (\<lambda>s. case wi_parse_rfc3339 W s of Inl _ \<Rightarrow> None | Inr t \<Rightarrow> Some t)"

definition ms_field :: "wire_env \<Rightarrow> string \<Rightarrow> json_map \<Rightarrow> int option option" where
  "ms_field W key m = map_option (map_option timestamp_millis) (field (option_of (instant_of W)) None key m)"

abbreviation "str_field \<equiv> field as_str []"
abbreviation "bool_field \<equiv> field as_bool False"
abbreviation "list_field \<equiv> field string_or_list []"
abbreviation "opt_str_field \<equiv> field (option_of as_str) None"
abbreviation "opt_int_field \<equiv> field (option_of as_i64) None"
abbreviation "opt_bool_field \<equiv> field (option_of as_bool) None"
abbreviation "body_field \<equiv> field as_object [] ''body''"

definition list_body_to_filter :: "wire_env \<Rightarrow> json_map \<Rightarrow> bool \<Rightarrow> list_filter option" where
  "list_body_to_filter W b force_queued = do {
     workflow_uuids \<leftarrow> field (null_default strings_of_json []) [] ''workflow_uuids'' b;
     workflow_name \<leftarrow> list_field ''workflow_name'' b;
     status \<leftarrow> list_field ''status'' b;
     application_version \<leftarrow> list_field ''application_version'' b;
     executor_id \<leftarrow> list_field ''executor_id'' b;
     authenticated_user \<leftarrow> list_field ''authenticated_user'' b;
     forked_from \<leftarrow> list_field ''forked_from'' b;
     parent_workflow_id \<leftarrow> list_field ''parent_workflow_id'' b;
     queue_name \<leftarrow> list_field ''queue_name'' b;
     workflow_id_prefix \<leftarrow> list_field ''workflow_id_prefix'' b;
     has_parent \<leftarrow> opt_bool_field ''has_parent'' b;
     was_forked_from \<leftarrow> opt_bool_field ''was_forked_from'' b;
     start_time \<leftarrow> ms_field W ''start_time'' b;
     end_time \<leftarrow> ms_field W ''end_time'' b;
     completed_after \<leftarrow> ms_field W ''completed_after'' b;
     completed_before \<leftarrow> ms_field W ''completed_before'' b;
     dequeued_after \<leftarrow> ms_field W ''dequeued_after'' b;
     dequeued_before \<leftarrow> ms_field W ''dequeued_before'' b;
     limit \<leftarrow> opt_int_field ''limit'' b;
     offset \<leftarrow> opt_int_field ''offset'' b;
     sort_desc \<leftarrow> bool_field ''sort_desc'' b;
     load_input \<leftarrow> bool_field ''load_input'' b;
     load_output \<leftarrow> bool_field ''load_output'' b;
     queues_only \<leftarrow> bool_field ''queues_only'' b;
     let f = \<lparr> lf_workflow_ids = workflow_uuids, lf_workflow_id_prefix = workflow_id_prefix, lf_name = workflow_name,
       lf_status = status, lf_queue_name = queue_name, lf_app_version = application_version,
       lf_executor_ids = executor_id, lf_authenticated_users = authenticated_user, lf_forked_from = forked_from,
       lf_parent_workflow_ids = parent_workflow_id, lf_was_forked_from = was_forked_from,
       lf_start_time_ms = start_time, lf_end_time_ms = end_time, lf_completed_after_ms = completed_after,
       lf_completed_before_ms = completed_before, lf_dequeued_after_ms = dequeued_after,
       lf_dequeued_before_ms = dequeued_before, lf_has_parent = has_parent, lf_limit = limit, lf_offset = offset,
       lf_sort_desc = sort_desc, lf_queues_only = queues_only, lf_load_input = load_input, lf_load_output = load_output \<rparr>;
     Some (if force_queued
           then f \<lparr> lf_queues_only := True, lf_load_output := False,
                    lf_status := (if lf_status f = [] then [STATUS_PENDING, STATUS_ENQUEUED, STATUS_DELAYED] else lf_status f) \<rparr>
           else f)
   }"

definition workflow_aggregates_query :: "wire_env \<Rightarrow> json_map \<Rightarrow> workflow_aggregate_query option" where
  "workflow_aggregates_query W b = do {
     by_status \<leftarrow> bool_field ''group_by_status'' b;
     by_name \<leftarrow> bool_field ''group_by_name'' b;
     by_queue_name \<leftarrow> bool_field ''group_by_queue_name'' b;
     by_executor_id \<leftarrow> bool_field ''group_by_executor_id'' b;
     by_app_version \<leftarrow> bool_field ''group_by_application_version'' b;
     select_count \<leftarrow> bool_field ''select_count'' b;
     select_min_created_at \<leftarrow> bool_field ''select_min_created_at'' b;
     select_max_queue_wait_ms \<leftarrow> bool_field ''select_max_queue_wait_ms'' b;
     select_max_total_latency_ms \<leftarrow> bool_field ''select_max_total_latency_ms'' b;
     time_bucket \<leftarrow> opt_int_field ''time_bucket_size_ms'' b;
     status \<leftarrow> list_field ''status'' b;
     name \<leftarrow> list_field ''name'' b;
     app_version \<leftarrow> list_field ''app_version'' b;
     executor_id \<leftarrow> list_field ''executor_id'' b;
     queue_name \<leftarrow> list_field ''queue_name'' b;
     prefix \<leftarrow> list_field ''workflow_id_prefix'' b;
     start_time \<leftarrow> ms_field W ''start_time'' b;
     end_time \<leftarrow> ms_field W ''end_time'' b;
     completed_after \<leftarrow> ms_field W ''completed_after'' b;
     completed_before \<leftarrow> ms_field W ''completed_before'' b;
     dequeued_after \<leftarrow> ms_field W ''dequeued_after'' b;
     dequeued_before \<leftarrow> ms_field W ''dequeued_before'' b;
     let q = \<lparr> wq_by_status = by_status, wq_by_name = by_name, wq_by_queue_name = by_queue_name,
       wq_by_executor_id = by_executor_id, wq_by_app_version = by_app_version, wq_select_count = select_count,
       wq_select_min_created_at = select_min_created_at, wq_select_max_queue_wait_ms = select_max_queue_wait_ms,
       wq_select_max_total_latency_ms = select_max_total_latency_ms, wq_time_bucket_ms = time_bucket,
       wq_status = status, wq_name = name, wq_app_version = app_version, wq_executor_ids = executor_id,
       wq_queue_names = queue_name, wq_workflow_id_prefix = sol_first prefix, wq_start_time_ms = start_time,
       wq_end_time_ms = end_time, wq_completed_after_ms = completed_after, wq_completed_before_ms = completed_before,
       wq_dequeued_after_ms = dequeued_after, wq_dequeued_before_ms = dequeued_before, wq_limit = None \<rparr>;
     Some (if wq_no_select q then q \<lparr> wq_select_count := True \<rparr> else q)
   }"

definition step_aggregates_query :: "wire_env \<Rightarrow> json_map \<Rightarrow> step_aggregate_query option" where
  "step_aggregates_query W b = do {
     by_function_name \<leftarrow> bool_field ''group_by_function_name'' b;
     by_status \<leftarrow> bool_field ''group_by_status'' b;
     select_count \<leftarrow> bool_field ''select_count'' b;
     select_max_duration_ms \<leftarrow> bool_field ''select_max_duration_ms'' b;
     time_bucket \<leftarrow> opt_int_field ''time_bucket_size_ms'' b;
     status \<leftarrow> list_field ''status'' b;
     function_name \<leftarrow> list_field ''function_name'' b;
     prefix \<leftarrow> list_field ''workflow_id_prefix'' b;
     completed_after \<leftarrow> ms_field W ''completed_after'' b;
     completed_before \<leftarrow> ms_field W ''completed_before'' b;
     let q = \<lparr> sq_by_function_name = by_function_name, sq_by_status = by_status, sq_select_count = select_count,
       sq_select_max_duration_ms = select_max_duration_ms, sq_time_bucket_ms = time_bucket, sq_status = status,
       sq_function_name = function_name, sq_workflow_id_prefix = sol_first prefix,
       sq_completed_after_ms = completed_after, sq_completed_before_ms = completed_before, sq_limit = None \<rparr>;
     Some (if sq_no_select q then q \<lparr> sq_select_count := True \<rparr> else q)
   }"

section \<open>Rendering rows\<close>

definition json_of :: "('a \<Rightarrow> json) \<Rightarrow> 'a option \<Rightarrow> json" where
  "json_of f x = (case x of None \<Rightarrow> JNull | Some v \<Rightarrow> f v)"

text \<open>\<open>if let Some(v) = x { m.insert(key, v) }\<close> and an insert under a condition.\<close>

definition put_opt :: "string \<Rightarrow> ('a \<Rightarrow> json) \<Rightarrow> 'a option \<Rightarrow> json_map \<Rightarrow> json_map" where
  "put_opt key f x m = (case x of None \<Rightarrow> m | Some v \<Rightarrow> hm_insert key (f v) m)"

definition put_if :: "bool \<Rightarrow> string \<Rightarrow> json \<Rightarrow> json_map \<Rightarrow> json_map" where
  "put_if c key v m = (if c then hm_insert key v m else m)"

definition epoch_ms_str :: "int \<Rightarrow> json" where
  "epoch_ms_str ms = JString (int_to_string ms)"

definition wire_payload :: "wire_env \<Rightarrow> json option \<Rightarrow> string option" where
  "wire_payload W v = (case v of Some v \<Rightarrow> if is_null v then None else Some (jt_to_string (wi_text W) v) | None \<Rightarrow> None)"

definition format_list_workflow :: "wire_env \<Rightarrow> workflow_status \<Rightarrow> json" where
  "format_list_workflow W w = JObject (fold (\<lambda>f. f)
     [hm_insert ''WorkflowUUID'' (JString (ws_id w)),
      put_if (ws_status w \<noteq> []) ''Status'' (JString (ws_status w)),
      put_if (ws_name w \<noteq> []) ''WorkflowName'' (JString (ws_name w)),
      put_opt ''AuthenticatedUser'' JString (ws_authenticated_user w),
      put_opt ''AssumedRole'' JString (ws_assumed_role w),
      put_if (ws_authenticated_roles w \<noteq> []) ''AuthenticatedRoles''
        (JString (jt_to_string (wi_text W) (JArray (map JString (ws_authenticated_roles w))))),
      put_opt ''Input'' JString (wire_payload W (Some (ws_input w))),
      put_opt ''Output'' JString (wire_payload W (ws_output w)),
      put_opt ''Error'' JString (ws_error w),
      hm_insert ''CreatedAt'' (epoch_ms_str (timestamp_millis (ws_created_at w))),
      hm_insert ''UpdatedAt'' (epoch_ms_str (timestamp_millis (ws_updated_at w))),
      put_opt ''QueueName'' JString (ws_queue_name w),
      put_opt ''QueuePartitionKey'' JString (ws_queue_partition_key w),
      put_opt ''DeduplicationID'' JString (ws_dedup_id w),
      hm_insert ''Priority'' (JString (int_to_string (ws_priority w))),
      put_if (ws_app_version w \<noteq> []) ''ApplicationVersion'' (JString (ws_app_version w)),
      put_if (ws_executor_id w \<noteq> []) ''ExecutorID'' (JString (ws_executor_id w)),
      put_opt ''WorkflowTimeoutMS'' epoch_ms_str
        (case ws_timeout_ms w of Some t \<Rightarrow> if t > 0 then Some t else None | None \<Rightarrow> None),
      put_opt ''WorkflowDeadlineEpochMS'' epoch_ms_str (ws_deadline_ms w),
      put_opt ''ForkedFrom'' JString (ws_forked_from w),
      hm_insert ''WasForkedFrom'' (JBool (ws_forked_from w \<noteq> None)),
      put_opt ''ParentWorkflowID'' JString (ws_parent_workflow_id w),
      put_opt ''DequeuedAt'' epoch_ms_str (if ws_status w = STATUS_PENDING then ws_started_at_ms w else None),
      put_opt ''DelayUntilEpochMS'' epoch_ms_str (ws_delay_until_ms w),
      put_opt ''CompletedAt'' epoch_ms_str (ws_completed_at_ms w)] [])"

definition format_step :: "wire_env \<Rightarrow> step_info \<Rightarrow> json" where
  "format_step W s = JObject (fold (\<lambda>f. f)
     [hm_insert ''function_id'' (JInt (si_step_id s)),
      hm_insert ''function_name'' (JString (si_name s)),
      put_opt ''output'' JString (wire_payload W (si_output s)),
      put_opt ''error'' JString (si_error s),
      put_opt ''child_workflow_id'' JString (si_child_workflow_id s),
      put_opt ''started_at_epoch_ms'' (\<lambda>t. epoch_ms_str (timestamp_millis t)) (si_started_at s),
      put_opt ''completed_at_epoch_ms'' (\<lambda>t. epoch_ms_str (timestamp_millis t)) (si_completed_at s)] [])"

definition base_response :: "string \<Rightarrow> string \<Rightarrow> string option \<Rightarrow> json_map" where
  "base_response msg_type request_id err =
     put_opt ''error_message'' JString err [(''type'', JString msg_type), (''request_id'', JString request_id)]"

definition format_schedule :: "wire_env \<Rightarrow> bool \<Rightarrow> workflow_schedule \<Rightarrow> json" where
  "format_schedule W load_context s = JObject
     [(''schedule_id'', JString (sch_schedule_id s)),
      (''schedule_name'', JString (sch_schedule_name s)),
      (''workflow_name'', JString (sch_workflow_name s)),
      (''workflow_class_name'', JNull),
      (''schedule'', JString (sch_schedule s)),
      (''status'', JString (schedule_status_as_str (sch_status s))),
      (''context'', if load_context then json_of (\<lambda>c. JString (jt_to_string (wi_text W) c)) (sch_context s) else JNull),
      (''last_fired_at'', json_of (\<lambda>t. JString (wi_rfc3339_nanos W t)) (sch_last_fired_at s)),
      (''automatic_backfill'', JBool (sch_automatic_backfill s)),
      (''cron_timezone'', json_of JString (sch_cron_timezone s)),
      (''queue_name'', json_of JString (sch_queue_name s))]"

definition format_queue :: "wire_env \<Rightarrow> workflow_queue \<Rightarrow> json" where
  "format_queue W q = JObject
     [(''name'', JString (q_name q)),
      (''concurrency'', json_of JInt (q_global_concurrency q)),
      (''worker_concurrency'', json_of (\<lambda>n. JInt (int n)) (q_worker_concurrency q)),
      (''rate_limit_max'', json_of (\<lambda>r. JInt (rl_limit r)) (q_rate_limit q)),
      (''rate_limit_period_sec'', json_of (\<lambda>r. JFloat (wi_as_secs_f64 W (rl_period r))) (q_rate_limit q)),
      (''priority_enabled'', JBool (q_priority_enabled q)),
      (''partition_queue'', JBool (q_partitioned q)),
      (''polling_interval_sec'', JFloat (wi_as_secs_f64 W (q_base_polling_interval q)))]"

definition format_version :: "version_info \<Rightarrow> json" where
  "format_version v = JObject
     [(''version_id'', JString (vi_version_id v)),
      (''version_name'', JString (vi_version_name v)),
      (''version_timestamp'', JInt (timestamp_millis (vi_version_timestamp v))),
      (''created_at'', JInt (timestamp_millis (vi_created_at v)))]"

definition group_json :: "(string \<times> string option) list \<Rightarrow> json" where
  "group_json g = JObject (map (\<lambda>(k, v). (k, json_of JString v)) g)"

definition format_workflow_aggregate :: "workflow_aggregate \<Rightarrow> json" where
  "format_workflow_aggregate a = JObject
     [(''group'', group_json (wa_group a)), (''count'', json_opt_int (wa_count a)),
      (''min_created_at'', json_opt_int (wa_min_created_at a)),
      (''max_queue_wait_ms'', json_opt_int (wa_max_queue_wait_ms a)),
      (''max_total_latency_ms'', json_opt_int (wa_max_total_latency_ms a))]"

definition format_step_aggregate :: "step_aggregate \<Rightarrow> json" where
  "format_step_aggregate a = JObject
     [(''group'', group_json (sa_group a)), (''count'', json_opt_int (sa_count a)),
      (''max_duration_ms'', json_opt_int (sa_max_duration_ms a))]"

definition metric :: "wire_env \<Rightarrow> string \<Rightarrow> string \<Rightarrow> int \<Rightarrow> json" where
  "metric W metric_type name count = JObject
     [(''metric_name'', JString name), (''metric_type'', JString metric_type), (''value'', JFloat (wi_f64 W count))]"

section \<open>Responses\<close>

lemma base_response_fields [simp]:
  "hm_get (base_response ty rid err) ''type'' = Some (JString ty)"
  "hm_get (base_response ty rid err) ''request_id'' = Some (JString rid)"
  "hm_get (base_response ty rid err) ''error_message'' = map_option JString err"
  by (simp_all add: base_response_def put_opt_def split: option.splits)

end
