(* ===== verification/Conductor.thy ===== *)
theory Conductor
  imports Conductor_Wire
begin

text \<open>
  The request handlers of the conductor client, \<open>src/src/conductor.rs\<close>. A handler takes the message and
  the store and gives the response that is sent, \<^const>\<open>None\<close> when the request does not deserialize, and
  the store. The engine's own operations are those of the engine theories over any provider. Five engine
  calls are fields of the environment, because they run workflows or belong to one provider:
  \<open>recover_pending_for\<close>, \<open>backfill_schedule\<close>, \<open>trigger_schedule\<close>, \<open>export_workflow\<close> and
  \<open>import_workflow\<close>; so are the stages of the portable encoding and the user's alert handler.
\<close>

section \<open>Environment\<close>

text \<open>
  The alert handler returns, or panics with a payload that is a text or is not; \<open>cd_now\<close> and \<open>cd_clk\<close>
  are clock readings, \<open>cd_fresh\<close> the id generated for a fork.
\<close>

record 's conductor_env =
  cd_wire :: wire_env
  cd_hostname :: "string option"
  cd_dbos_version :: string
  cd_executor_metadata :: "json option"
  cd_alert_handler :: "(string \<Rightarrow> string \<Rightarrow> (string \<times> string) list \<Rightarrow> string option option) option"
  cd_now :: datetime
  cd_clk :: "string \<Rightarrow> datetime"
  cd_fresh :: string
  cd_recover_pending_for :: "string list \<Rightarrow> ('s, string list) op"
  cd_backfill_schedule :: "string \<Rightarrow> datetime \<Rightarrow> datetime \<Rightarrow> ('s, string list) op"
  cd_trigger_schedule :: "string \<Rightarrow> ('s, string) op"
  cd_export_workflow :: "string \<Rightarrow> bool \<Rightarrow> ('s, exported_workflow list) op"
  cd_import_workflow :: "exported_workflow list \<Rightarrow> ('s, unit) op"
  cd_to_vec :: "exported_workflow list \<Rightarrow> string result"
  cd_gzip_write :: "string \<Rightarrow> string + string"
  cd_gzip_finish :: "string \<Rightarrow> string + string"
  cd_b64_encode :: "string \<Rightarrow> string"
  cd_b64_decode :: "string \<Rightarrow> string + string"
  cd_gunzip :: "string \<Rightarrow> string + string"
  cd_from_slice :: "string \<Rightarrow> string + exported_workflow list"

type_synonym 's handler = "'s \<Rightarrow> json_map option \<times> 's"

definition err_text :: "string \<Rightarrow> 'a result \<Rightarrow> string option" where
  "err_text failure r = (case r of Inl e \<Rightarrow> Some (failure @ to_string e) | Inr _ \<Rightarrow> None)"

definition success_response :: "string \<Rightarrow> string \<Rightarrow> string option \<Rightarrow> json_map" where
  "success_response ty rid err = hm_insert ''success'' (JBool (err = None)) (base_response ty rid err)"

text \<open>Run an engine call and render its result.\<close>

definition replying :: "('s, 'a) op \<Rightarrow> ('a result \<Rightarrow> json_map) \<Rightarrow> 's handler" where
  "replying f k s = (case f s of (r, s') \<Rightarrow> (Some (k r), s'))"

text \<open>A request that does not deserialize ends the handler.\<close>

definition parsed :: "'a option \<Rightarrow> ('a \<Rightarrow> 's handler) \<Rightarrow> 's handler" where
  "parsed x h s = (case x of None \<Rightarrow> (None, s) | Some a \<Rightarrow> h a s)"

section \<open>Management\<close>

datatype ids_action = Act_Cancel | Act_Resume | Act_Delete

definition handle_ids ::
    "('s, 'h) runtime \<Rightarrow> 's conductor_env \<Rightarrow> string \<Rightarrow> json_map \<Rightarrow> ids_action \<Rightarrow> 's handler" where
  "handle_ids R D rid m action =
     parsed (do {
       workflow_id \<leftarrow> str_field ''workflow_id'' m;
       workflow_ids \<leftarrow> field (null_default strings_of_json []) [] ''workflow_ids'' m;
       delete_children \<leftarrow> bool_field ''delete_children'' m;
       queue_name \<leftarrow> opt_str_field ''queue_name'' m;
       Some (if workflow_ids = [] \<and> workflow_id \<noteq> [] then [workflow_id] else workflow_ids, delete_children, queue_name)
     })
     (\<lambda>(ids, delete_children, queue_name).
        case action of
          Act_Cancel \<Rightarrow>
            replying (pv_cancel_workflows (rt_provider R) ids (cd_now D))
              (\<lambda>r. success_response ''cancel'' rid (err_text ''failed to cancel workflows: '' r))
        | Act_Resume \<Rightarrow>
            replying (resume_workflows_on R ids (unwrap_or queue_name INTERNAL_QUEUE) (cd_now D) (cd_clk D))
              (\<lambda>r. success_response ''resume'' rid (err_text ''failed to resume workflows: '' r))
        | Act_Delete \<Rightarrow>
            replying (pv_delete_workflows (rt_provider R) ids delete_children)
              (\<lambda>r. success_response ''delete'' rid (err_text ''failed to delete workflows: '' r)))"

definition handle_fork :: "('s, 'h) runtime \<Rightarrow> 's conductor_env \<Rightarrow> string \<Rightarrow> json_map \<Rightarrow> 's handler" where
  "handle_fork R D rid m =
     parsed (do {
       b \<leftarrow> body_field m;
       workflow_id \<leftarrow> str_field ''workflow_id'' b;
       start_step \<leftarrow> field as_i64 0 ''start_step'' b;
       application_version \<leftarrow> opt_str_field ''application_version'' b;
       new_workflow_id \<leftarrow> opt_str_field ''new_workflow_id'' b;
       queue_name \<leftarrow> opt_str_field ''queue_name'' b;
       partition_key \<leftarrow> opt_str_field ''queue_partition_key'' b;
       Some (workflow_id, start_step, workflow_options_default
         \<lparr> wo_workflow_id := new_workflow_id, wo_app_version := application_version, wo_queue := queue_name,
           wo_partition_key := partition_key \<rparr>)
     })
     (\<lambda>(workflow_id, start_step, opts).
        if start_step < 0 \<or> start_step > i32_max div 2
        then (\<lambda>s. (Some (base_response ''fork_workflow'' rid (Some ''invalid start_step'')), s))
        else replying (engine_fork_workflow R workflow_id start_step opts (cd_fresh D) (cd_now D))
          (\<lambda>r. put_opt ''new_workflow_id'' JString (case r of Inr h \<Rightarrow> Some (handle_id h) | Inl _ \<Rightarrow> None)
            (base_response ''fork_workflow'' rid (err_text ''failed to fork workflow: '' r))))"

definition handle_set_latest_version :: "('s, 'h) runtime \<Rightarrow> 's conductor_env \<Rightarrow> string \<Rightarrow> json_map \<Rightarrow> 's handler" where
  "handle_set_latest_version R D rid m =
     parsed (str_field ''version_name'' m)
     (\<lambda>name.
        replying (if name = [] then fail (app ''version_name is required'')
                  else pv_set_latest_application_version (rt_provider R) name (cd_now D))
          (\<lambda>r. success_response ''set_latest_application_version'' rid
            (err_text (''failed to set latest application version '' @ CHR 0x27 # name @ CHR 0x27 # '': '') r)))"

definition handle_retention :: "('s, 'h) runtime \<Rightarrow> 's conductor_env \<Rightarrow> string \<Rightarrow> json_map \<Rightarrow> 's handler" where
  "handle_retention R D rid m =
     parsed (do {
       b \<leftarrow> body_field m;
       gc_cutoff \<leftarrow> opt_int_field ''gc_cutoff_epoch_ms'' b;
       gc_rows \<leftarrow> opt_int_field ''gc_rows_threshold'' b;
       timeout_cutoff \<leftarrow> opt_int_field ''timeout_cutoff_epoch_ms'' b;
       Some (gc_cutoff, gc_rows, timeout_cutoff)
     })
     (\<lambda>(gc_cutoff, gc_rows, timeout_cutoff) s.
        let (err, s1) =
              (if gc_cutoff \<noteq> None \<or> gc_rows \<noteq> None
               then (case garbage_collect (rt_provider R) gc_cutoff gc_rows s of
                       (r, s1) \<Rightarrow> (err_text ''failed to garbage collect workflows: '' r, s1))
               else (None, s));
            (err2, s2) =
              (case (err, timeout_cutoff) of
                 (None, Some cutoff) \<Rightarrow>
                   (case cancel_all_before R cutoff (cd_now D) s1 of
                      (r, s2) \<Rightarrow> (err_text ''failed to timeout workflows: '' r, s2))
               | _ \<Rightarrow> (err, s1))
        in (Some (success_response ''retention'' rid err2), s2))"

section \<open>Queries\<close>

definition handle_list :: "('s, 'h) runtime \<Rightarrow> 's conductor_env \<Rightarrow> string \<Rightarrow> json_map \<Rightarrow> bool \<Rightarrow> 's handler" where
  "handle_list R D rid m queued =
     parsed (do { b \<leftarrow> body_field m; list_body_to_filter (cd_wire D) b queued })
     (\<lambda>filter.
        replying (pv_list_workflows (rt_provider R) filter)
          (\<lambda>r. hm_insert ''output''
            (JArray (case r of Inr rows \<Rightarrow> map (format_list_workflow (cd_wire D)) rows | Inl _ \<Rightarrow> []))
            (base_response (if queued then ''list_queued_workflows'' else ''list_workflows'') rid
              (err_text ''failed to list workflows: '' r))))"

definition handle_get_workflow :: "('s, 'h) runtime \<Rightarrow> 's conductor_env \<Rightarrow> string \<Rightarrow> json_map \<Rightarrow> 's handler" where
  "handle_get_workflow R D rid m =
     parsed (do {
       workflow_id \<leftarrow> str_field ''workflow_id'' m;
       load_input \<leftarrow> bool_field ''load_input'' m;
       load_output \<leftarrow> bool_field ''load_output'' m;
       Some (list_filter_default \<lparr> lf_workflow_ids := [workflow_id], lf_load_input := load_input, lf_load_output := load_output \<rparr>)
     })
     (\<lambda>filter.
        replying (pv_list_workflows (rt_provider R) filter)
          (\<lambda>r. put_opt ''output'' (format_list_workflow (cd_wire D))
            (case r of Inr (w # _) \<Rightarrow> Some w | _ \<Rightarrow> None)
            (base_response ''get_workflow'' rid (err_text ''failed to get workflow: '' r))))"

text \<open>\<open>drain\<close> and \<open>truncate\<close>: the requested window of the steps.\<close>

definition step_window :: "int option \<Rightarrow> int option \<Rightarrow> 'a list \<Rightarrow> 'a list" where
  "step_window limit offset xs =
     (let off = nat (max (unwrap_or offset 0) 0);
          rest = (if off \<ge> length xs then [] else drop off xs)
      in case limit of Some lim \<Rightarrow> if lim \<ge> 0 then take (nat lim) rest else rest | None \<Rightarrow> rest)"

definition handle_list_steps :: "('s, 'h) runtime \<Rightarrow> 's conductor_env \<Rightarrow> string \<Rightarrow> json_map \<Rightarrow> 's handler" where
  "handle_list_steps R D rid m =
     parsed (do {
       workflow_id \<leftarrow> str_field ''workflow_id'' m;
       load_output \<leftarrow> bool_field ''load_output'' m;
       limit \<leftarrow> opt_int_field ''limit'' m;
       offset \<leftarrow> opt_int_field ''offset'' m;
       Some (workflow_id, load_output, limit, offset)
     })
     (\<lambda>(workflow_id, load_output, limit, offset).
        replying (pv_get_workflow_steps (rt_provider R) workflow_id)
          (\<lambda>r. put_opt ''output'' JArray
            (case r of
               Inr found \<Rightarrow> Some (map (\<lambda>st. format_step (cd_wire D) (if load_output then st else st \<lparr> si_output := None \<rparr>))
                 (step_window limit offset found))
             | Inl _ \<Rightarrow> None)
            (base_response ''list_steps'' rid (err_text ''failed to list workflow steps: '' r))))"

definition rows_response ::
    "string \<Rightarrow> string \<Rightarrow> string \<Rightarrow> string \<Rightarrow> ('a \<Rightarrow> json) \<Rightarrow> 'a list result \<Rightarrow> json_map" where
  "rows_response ty rid key failure f r =
     hm_insert key (JArray (case r of Inr rows \<Rightarrow> map f rows | Inl _ \<Rightarrow> [])) (base_response ty rid (err_text failure r))"

definition handle_list_queues :: "('s, 'h) runtime \<Rightarrow> 's conductor_env \<Rightarrow> string \<Rightarrow> 's handler" where
  "handle_list_queues R D rid =
     replying (pv_list_queues (rt_provider R))
       (rows_response ''list_queues'' rid ''output'' ''failed to list queues: '' (format_queue (cd_wire D)))"

definition handle_get_queue :: "('s, 'h) runtime \<Rightarrow> 's conductor_env \<Rightarrow> string \<Rightarrow> json_map \<Rightarrow> 's handler" where
  "handle_get_queue R D rid m =
     parsed (str_field ''name'' m)
     (\<lambda>name.
        replying (pv_list_queues (rt_provider R))
          (\<lambda>r. hm_insert ''output''
            (case r of Inr qs \<Rightarrow> json_of (format_queue (cd_wire D)) (find (\<lambda>q. q_name q = name) qs) | Inl _ \<Rightarrow> JNull)
            (base_response ''get_queue'' rid (err_text ''failed to get queue: '' r))))"

definition handle_list_versions :: "('s, 'h) runtime \<Rightarrow> 's conductor_env \<Rightarrow> string \<Rightarrow> 's handler" where
  "handle_list_versions R D rid =
     replying (pv_list_application_versions (rt_provider R))
       (rows_response ''list_application_versions'' rid ''output'' ''failed to list application versions: '' format_version)"

definition handle_workflow_aggregates :: "('s, 'h) runtime \<Rightarrow> 's conductor_env \<Rightarrow> string \<Rightarrow> json_map \<Rightarrow> 's handler" where
  "handle_workflow_aggregates R D rid m =
     parsed (do { b \<leftarrow> body_field m; workflow_aggregates_query (cd_wire D) b })
     (\<lambda>q. replying (engine_workflow_aggregates R q)
       (rows_response ''get_workflow_aggregates'' rid ''output'' ''failed to get workflow aggregates: '' format_workflow_aggregate))"

definition handle_step_aggregates :: "('s, 'h) runtime \<Rightarrow> 's conductor_env \<Rightarrow> string \<Rightarrow> json_map \<Rightarrow> 's handler" where
  "handle_step_aggregates R D rid m =
     parsed (do { b \<leftarrow> body_field m; step_aggregates_query (cd_wire D) b })
     (\<lambda>q. replying (engine_step_aggregates R q)
       (rows_response ''get_step_aggregates'' rid ''output'' ''failed to get step aggregates: '' format_step_aggregate))"

definition handle_get_events :: "('s, 'h) runtime \<Rightarrow> 's conductor_env \<Rightarrow> string \<Rightarrow> json_map \<Rightarrow> 's handler" where
  "handle_get_events R D rid m =
     parsed (str_field ''workflow_id'' m)
     (\<lambda>wid. replying (pv_list_workflow_events (rt_provider R) wid)
       (rows_response ''get_workflow_events'' rid ''events'' ''failed to get workflow events: ''
         (\<lambda>(k, v). JObject [(''key'', JString k), (''value'', JString (jt_to_string (wi_text (cd_wire D)) v))])))"

definition handle_get_notifications :: "('s, 'h) runtime \<Rightarrow> 's conductor_env \<Rightarrow> string \<Rightarrow> json_map \<Rightarrow> 's handler" where
  "handle_get_notifications R D rid m =
     parsed (str_field ''workflow_id'' m)
     (\<lambda>wid. replying (pv_list_workflow_notifications (rt_provider R) wid)
       (rows_response ''get_workflow_notifications'' rid ''notifications'' ''failed to get workflow notifications: ''
         (\<lambda>n. JObject [(''topic'', json_of JString (ni_topic n)),
            (''message'', JString (jt_to_string (wi_text (cd_wire D)) (ni_message n))),
            (''created_at_epoch_ms'', JInt (ni_created_at_ms n)), (''consumed'', JBool (ni_consumed n))])))"

definition handle_get_streams :: "('s, 'h) runtime \<Rightarrow> 's conductor_env \<Rightarrow> string \<Rightarrow> json_map \<Rightarrow> 's handler" where
  "handle_get_streams R D rid m =
     parsed (str_field ''workflow_id'' m)
     (\<lambda>wid. replying (pv_list_workflow_streams (rt_provider R) wid)
       (rows_response ''get_workflow_streams'' rid ''streams'' ''failed to get workflow streams: ''
         (\<lambda>(k, vs). JObject [(''key'', JString k),
            (''values'', JArray (map (\<lambda>v. JString (jt_to_string (wi_text (cd_wire D)) v)) vs))])))"

text \<open>
  \<open>get_metrics\<close>: the runs created and the steps completed in the window, per name. The count of a
  group is a float in the response.
\<close>

definition metric_rows ::
    "wire_env \<Rightarrow> string \<Rightarrow> string \<Rightarrow> ((string \<times> string option) list \<times> int option) list \<Rightarrow> json list" where
  "metric_rows W metric_type key rows =
     List.map_filter (\<lambda>(group, count).
       case (hm_get group key, count) of
         (Some (Some name), Some n) \<Rightarrow> Some (metric W metric_type name n) | _ \<Rightarrow> None) rows"

definition window_queries :: "int \<Rightarrow> int \<Rightarrow> workflow_aggregate_query \<times> step_aggregate_query" where
  "window_queries lo hi =
     (\<lparr> wq_by_status = False, wq_by_name = True, wq_by_queue_name = False, wq_by_executor_id = False,
        wq_by_app_version = False, wq_select_count = True, wq_select_min_created_at = False,
        wq_select_max_queue_wait_ms = False, wq_select_max_total_latency_ms = False, wq_time_bucket_ms = None,
        wq_status = [], wq_name = [], wq_app_version = [], wq_executor_ids = [], wq_queue_names = [],
        wq_workflow_id_prefix = None, wq_start_time_ms = Some lo, wq_end_time_ms = Some hi,
        wq_completed_after_ms = None, wq_completed_before_ms = None, wq_dequeued_after_ms = None,
        wq_dequeued_before_ms = None, wq_limit = None \<rparr>,
      \<lparr> sq_by_function_name = True, sq_by_status = False, sq_select_count = True, sq_select_max_duration_ms = False,
        sq_time_bucket_ms = None, sq_status = [], sq_function_name = [], sq_workflow_id_prefix = None,
        sq_completed_after_ms = Some lo, sq_completed_before_ms = Some hi, sq_limit = None \<rparr>)"

definition handle_get_metrics :: "('s, 'h) runtime \<Rightarrow> 's conductor_env \<Rightarrow> string \<Rightarrow> json_map \<Rightarrow> 's handler" where
  "handle_get_metrics R D rid m =
     parsed (do {
       start_time \<leftarrow> str_field ''start_time'' m;
       end_time \<leftarrow> str_field ''end_time'' m;
       metric_class \<leftarrow> str_field ''metric_class'' m;
       Some (start_time, end_time, metric_class)
     })
     (\<lambda>(start_time, end_time, metric_class) s.
        let failed = (\<lambda>e. hm_insert ''metrics'' JNull (base_response ''get_metrics'' rid (Some e)));
            W = cd_wire D
        in if metric_class \<noteq> ''workflow_step_count''
           then (Some (failed (''Unexpected metric class: '' @ metric_class)), s)
           else
             (case (wi_parse_rfc3339 W start_time, wi_parse_rfc3339 W end_time) of
                (Inl e, _) \<Rightarrow> (Some (failed (''invalid start_time: '' @ e)), s)
              | (_, Inl e) \<Rightarrow> (Some (failed (''invalid end_time: '' @ e)), s)
              | (Inr lo, Inr hi) \<Rightarrow>
                  let (wq, sq) = window_queries (timestamp_millis lo) (timestamp_millis hi) in
                  (case engine_workflow_aggregates R wq s of
                     (Inl e, s1) \<Rightarrow> (Some (failed (''Exception encountered when getting metrics: '' @ to_string e)), s1)
                   | (Inr ws, s1) \<Rightarrow>
                       (case engine_step_aggregates R sq s1 of
                          (Inl e, s2) \<Rightarrow> (Some (failed (''Exception encountered when getting metrics: '' @ to_string e)), s2)
                        | (Inr ss, s2) \<Rightarrow>
                            (Some (hm_insert ''metrics''
                               (JArray (metric_rows W ''workflow_count'' ''name'' (map (\<lambda>a. (wa_group a, wa_count a)) ws) @
                                        metric_rows W ''step_count'' ''function_name'' (map (\<lambda>a. (sa_group a, sa_count a)) ss)))
                               (base_response ''get_metrics'' rid None)), s2)))))"

section \<open>Schedules\<close>

definition handle_list_schedules :: "('s, 'h) runtime \<Rightarrow> 's conductor_env \<Rightarrow> string \<Rightarrow> json_map \<Rightarrow> 's handler" where
  "handle_list_schedules R D rid m =
     parsed (do {
       b \<leftarrow> body_field m;
       status \<leftarrow> list_field ''status'' b;
       workflow_name \<leftarrow> list_field ''workflow_name'' b;
       name_prefix \<leftarrow> list_field ''schedule_name_prefix'' b;
       load_context \<leftarrow> opt_bool_field ''load_context'' b;
       Some (unwrap_or load_context True,
         \<lparr> sf_statuses = map schedule_status_parse status, sf_workflow_names = workflow_name, sf_name_prefixes = name_prefix \<rparr>)
     })
     (\<lambda>(load_context, filter).
        replying (pv_list_schedules (rt_provider R) filter)
          (rows_response ''list_schedules'' rid ''output'' ''failed to list schedules: '' (format_schedule (cd_wire D) load_context)))"

text \<open>A name in quotes, as the error texts show it.\<close>

definition quoted :: "string \<Rightarrow> string \<Rightarrow> string" where
  "quoted text name = text @ CHR 0x27 # name @ CHR 0x27 # '': ''"

definition handle_get_schedule :: "('s, 'h) runtime \<Rightarrow> 's conductor_env \<Rightarrow> string \<Rightarrow> json_map \<Rightarrow> 's handler" where
  "handle_get_schedule R D rid m =
     parsed (do { name \<leftarrow> str_field ''schedule_name'' m; load_context \<leftarrow> opt_bool_field ''load_context'' m;
                  Some (name, unwrap_or load_context True) })
     (\<lambda>(name, load_context).
        replying (get_schedule R name)
          (\<lambda>r. hm_insert ''output''
            (case r of Inr x \<Rightarrow> json_of (format_schedule (cd_wire D) load_context) x | Inl _ \<Rightarrow> JNull)
            (base_response ''get_schedule'' rid (err_text (quoted ''failed to get schedule '' name) r))))"

definition handle_schedule_toggle ::
    "('s, 'h) runtime \<Rightarrow> 's conductor_env \<Rightarrow> string \<Rightarrow> json_map \<Rightarrow> bool \<Rightarrow> 's handler" where
  "handle_schedule_toggle R D rid m pause =
     parsed (str_field ''schedule_name'' m)
     (\<lambda>name.
        if pause
        then replying (pause_schedule R name)
          (\<lambda>r. success_response ''pause_schedule'' rid (err_text (quoted ''failed to pause schedule '' name) r))
        else replying (resume_schedule R name)
          (\<lambda>r. success_response ''resume_schedule'' rid (err_text (quoted ''failed to resume schedule '' name) r)))"

definition handle_backfill_schedule :: "('s, 'h) runtime \<Rightarrow> 's conductor_env \<Rightarrow> string \<Rightarrow> json_map \<Rightarrow> 's handler" where
  "handle_backfill_schedule R D rid m =
     parsed (do { name \<leftarrow> str_field ''schedule_name'' m; lo \<leftarrow> str_field ''start'' m; hi \<leftarrow> str_field ''end'' m; Some (name, lo, hi) })
     (\<lambda>(name, lo, hi) s.
        let reply = (\<lambda>ids err. hm_insert ''workflow_ids'' (JArray (map JString ids)) (base_response ''backfill_schedule'' rid err)) in
        case (wi_parse_rfc3339 (cd_wire D) lo, wi_parse_rfc3339 (cd_wire D) hi) of
          (Inl e, _) \<Rightarrow> (Some (reply [] (Some (quoted ''failed to parse start time '' lo @ e))), s)
        | (_, Inl e) \<Rightarrow> (Some (reply [] (Some (quoted ''failed to parse end time '' hi @ e))), s)
        | (Inr t, Inr u) \<Rightarrow>
            replying (cd_backfill_schedule D name t u)
              (\<lambda>r. reply (case r of Inr ids \<Rightarrow> ids | Inl _ \<Rightarrow> []) (err_text (quoted ''failed to backfill schedule '' name) r)) s)"

definition handle_trigger_schedule :: "('s, 'h) runtime \<Rightarrow> 's conductor_env \<Rightarrow> string \<Rightarrow> json_map \<Rightarrow> 's handler" where
  "handle_trigger_schedule R D rid m =
     parsed (str_field ''schedule_name'' m)
     (\<lambda>name.
        replying (cd_trigger_schedule D name)
          (\<lambda>r. hm_insert ''workflow_id'' (case r of Inr wid \<Rightarrow> JString wid | Inl _ \<Rightarrow> JNull)
            (base_response ''trigger_schedule'' rid (err_text (quoted ''failed to trigger schedule '' name) r))))"

section \<open>Transfer and alerts\<close>

definition encode_export :: "'s conductor_env \<Rightarrow> exported_workflow list \<Rightarrow> string result" where
  "encode_export D exported =
     (case cd_to_vec D exported of
        Inl e \<Rightarrow> Inl e
      | Inr json \<Rightarrow>
          (case cd_gzip_write D json of
             Inl e \<Rightarrow> Inl (app (''failed to gzip exported workflow: '' @ e))
           | Inr gz \<Rightarrow>
               (case cd_gzip_finish D gz of
                  Inl e \<Rightarrow> Inl (app (''failed to finish gzip: '' @ e))
                | Inr bytes \<Rightarrow> Inr (cd_b64_encode D bytes))))"

definition decode_export :: "'s conductor_env \<Rightarrow> string \<Rightarrow> string + exported_workflow list" where
  "decode_export D serialized =
     (case cd_b64_decode D serialized of
        Inl e \<Rightarrow> Inl (''Failed to base64 decode serialized workflow: '' @ e)
      | Inr compressed \<Rightarrow>
          (case cd_gunzip D compressed of
             Inl e \<Rightarrow> Inl (''Failed to decompress workflow data: '' @ e)
           | Inr json \<Rightarrow>
               (case cd_from_slice D json of
                  Inl e \<Rightarrow> Inl (''Failed to unmarshal workflow data: '' @ e)
                | Inr ews \<Rightarrow> Inr ews)))"

definition handle_export_workflow :: "'s conductor_env \<Rightarrow> string \<Rightarrow> json_map \<Rightarrow> 's handler" where
  "handle_export_workflow D rid m =
     parsed (do { wid \<leftarrow> str_field ''workflow_id'' m; children \<leftarrow> bool_field ''export_children'' m; Some (wid, children) })
     (\<lambda>(wid, children).
        replying (cd_export_workflow D wid children)
          (\<lambda>r. case r of
             Inl e \<Rightarrow> base_response ''export_workflow'' rid
               (Some (''Exception encountered when exporting workflow '' @ wid @ '': '' @ to_string e))
           | Inr exported \<Rightarrow>
               (case encode_export D exported of
                  Inl e \<Rightarrow> base_response ''export_workflow'' rid
                    (Some (''failed to serialize exported workflow: '' @ to_string e))
                | Inr txt \<Rightarrow> hm_insert ''serialized_workflow'' (JString txt) (base_response ''export_workflow'' rid None))))"

definition handle_import_workflow :: "'s conductor_env \<Rightarrow> string \<Rightarrow> json_map \<Rightarrow> 's handler" where
  "handle_import_workflow D rid m =
     parsed (str_field ''serialized_workflow'' m)
     (\<lambda>txt s.
        case decode_export D txt of
          Inl e \<Rightarrow> (Some (success_response ''import_workflow'' rid (Some e)), s)
        | Inr ews \<Rightarrow>
            replying (cd_import_workflow D ews)
              (\<lambda>r. success_response ''import_workflow'' rid (err_text ''Exception encountered when importing workflow: '' r)) s)"

definition panic_detail :: "string option \<Rightarrow> string" where
  "panic_detail p = unwrap_or p ''unknown''"

definition string_map :: "json \<Rightarrow> (string \<times> string) list option" where
  "string_map v = Option.bind (as_object v) (\<lambda>m. those (map (\<lambda>(k, v). map_option (Pair k) (as_str v)) m))"

definition handle_alert :: "'s conductor_env \<Rightarrow> string \<Rightarrow> json_map \<Rightarrow> 's handler" where
  "handle_alert D rid m =
     parsed (do { name \<leftarrow> str_field ''name'' m; message \<leftarrow> str_field ''message'' m;
                  metadata \<leftarrow> field string_map [] ''metadata'' m; Some (name, message, metadata) })
     (\<lambda>(name, message, metadata) s.
        (Some (success_response ''alert'' rid
           (case cd_alert_handler D of
              Some h \<Rightarrow> map_option (\<lambda>p. ''panic in alert handler: '' @ panic_detail p) (h name message metadata)
            | None \<Rightarrow> None)), s))"

section \<open>Dispatch\<close>

definition handle_executor_info :: "('s, 'h) runtime \<Rightarrow> 's conductor_env \<Rightarrow> string \<Rightarrow> 's handler" where
  "handle_executor_info R D rid s =
     (Some (put_opt ''executor_metadata'' id (cd_executor_metadata D)
        (hm_insert ''language'' (JString ''rust'') (hm_insert ''dbos_version'' (JString (cd_dbos_version D))
          (put_opt ''hostname'' JString (cd_hostname D)
            (hm_insert ''application_version'' (JString (rt_app_version R))
              (hm_insert ''executor_id'' (JString (rt_executor_id R)) (base_response ''executor_info'' rid None))))))), s)"

definition handle_recovery :: "'s conductor_env \<Rightarrow> string \<Rightarrow> json_map \<Rightarrow> 's handler" where
  "handle_recovery D rid m =
     parsed (field (null_default strings_of_json []) [] ''executor_ids'' m)
     (\<lambda>executor_ids.
        replying (cd_recover_pending_for D executor_ids)
          (\<lambda>r. success_response ''recovery'' rid (err_text ''failed to recover pending workflows: '' r)))"

definition handle_exist_pending :: "('s, 'h) runtime \<Rightarrow> string \<Rightarrow> json_map \<Rightarrow> 's handler" where
  "handle_exist_pending R rid m =
     parsed (do { executor_id \<leftarrow> str_field ''executor_id'' m; version \<leftarrow> str_field ''application_version'' m;
                  Some (executor_id, version) })
     (\<lambda>(executor_id, version).
        replying (pv_list_workflows (rt_provider R) (list_filter_default
          \<lparr> lf_status := [STATUS_PENDING], lf_executor_ids := [executor_id], lf_app_version := [version], lf_limit := Some 1 \<rparr>))
          (\<lambda>r. hm_insert ''exist'' (JBool (case r of Inr rows \<Rightarrow> rows \<noteq> [] | Inl _ \<Rightarrow> False))
            (base_response ''exist_pending_workflows'' rid (err_text ''failed to check for pending workflows: '' r))))"

definition dispatch_message :: "('s, 'h) runtime \<Rightarrow> 's conductor_env \<Rightarrow> string \<Rightarrow> string \<Rightarrow> json_map \<Rightarrow> 's handler" where
  "dispatch_message R D ty rid m =
     (if ty = ''executor_info'' then handle_executor_info R D rid
      else if ty = ''recovery'' then handle_recovery D rid m
      else if ty = ''exist_pending_workflows'' then handle_exist_pending R rid m
      else if ty = ''cancel'' then handle_ids R D rid m Act_Cancel
      else if ty = ''resume'' then handle_ids R D rid m Act_Resume
      else if ty = ''delete'' then handle_ids R D rid m Act_Delete
      else if ty = ''fork_workflow'' then handle_fork R D rid m
      else if ty = ''list_workflows'' then handle_list R D rid m False
      else if ty = ''list_queued_workflows'' then handle_list R D rid m True
      else if ty = ''get_workflow'' then handle_get_workflow R D rid m
      else if ty = ''list_steps'' then handle_list_steps R D rid m
      else if ty = ''list_schedules'' then handle_list_schedules R D rid m
      else if ty = ''get_schedule'' then handle_get_schedule R D rid m
      else if ty = ''pause_schedule'' then handle_schedule_toggle R D rid m True
      else if ty = ''resume_schedule'' then handle_schedule_toggle R D rid m False
      else if ty = ''backfill_schedule'' then handle_backfill_schedule R D rid m
      else if ty = ''trigger_schedule'' then handle_trigger_schedule R D rid m
      else if ty = ''list_queues'' then handle_list_queues R D rid
      else if ty = ''get_queue'' then handle_get_queue R D rid m
      else if ty = ''list_application_versions'' then handle_list_versions R D rid
      else if ty = ''set_latest_application_version'' then handle_set_latest_version R D rid m
      else if ty = ''get_workflow_aggregates'' then handle_workflow_aggregates R D rid m
      else if ty = ''get_step_aggregates'' then handle_step_aggregates R D rid m
      else if ty = ''get_workflow_events'' then handle_get_events R D rid m
      else if ty = ''get_workflow_notifications'' then handle_get_notifications R D rid m
      else if ty = ''get_workflow_streams'' then handle_get_streams R D rid m
      else if ty = ''get_metrics'' then handle_get_metrics R D rid m
      else if ty = ''retention'' then handle_retention R D rid m
      else if ty = ''export_workflow'' then handle_export_workflow D rid m
      else if ty = ''import_workflow'' then handle_import_workflow D rid m
      else if ty = ''alert'' then handle_alert D rid m
      else (\<lambda>s. (Some (base_response ty rid (Some ''Unknown message type'')), s)))"

definition handle_message :: "('s, 'h) runtime \<Rightarrow> 's conductor_env \<Rightarrow> string \<Rightarrow> 's handler" where
  "handle_message R D txt =
     parsed (do {
       v \<leftarrow> from_str_ok (wi_text (cd_wire D)) txt;
       m \<leftarrow> as_object v;
       t \<leftarrow> hm_get m ''type'';
       ty \<leftarrow> as_str t;
       rid \<leftarrow> str_field ''request_id'' m;
       Some (ty, rid, m)
     })
     (\<lambda>(ty, rid, m). dispatch_message R D ty rid m)"

section \<open>Every answer is an answer to its request\<close>

text \<open>A response under the type and request id it answers, whose verdict matches its error text.\<close>

definition answers :: "string \<Rightarrow> string \<Rightarrow> json_map \<Rightarrow> bool" where
  "answers ty rid resp \<longleftrightarrow>
     hm_get resp ''type'' = Some (JString ty) \<and> hm_get resp ''request_id'' = Some (JString rid) \<and>
     is_none_or (\<lambda>v. v = JBool (hm_get resp ''error_message'' = None)) (hm_get resp ''success'')"

text \<open>A handler either answers, or leaves the store alone.\<close>

definition well_behaved :: "string \<Rightarrow> string \<Rightarrow> 's handler \<Rightarrow> bool" where
  "well_behaved ty rid h \<longleftrightarrow>
     (\<forall>s. case h s of (None, s') \<Rightarrow> s' = s | (Some resp, _) \<Rightarrow> answers ty rid resp)"

named_theorems behaves

lemma parsed_behaves [behaves]:
  "(\<And>a. x = Some a \<Longrightarrow> well_behaved ty rid (h a)) \<Longrightarrow> well_behaved ty rid (parsed x h)"
  by (cases x) (auto simp: well_behaved_def parsed_def)

lemma replying_behaves [behaves]: "(\<And>r. answers ty rid (k r)) \<Longrightarrow> well_behaved ty rid (replying f k)"
  by (auto simp: well_behaved_def replying_def split: prod.splits)

lemma constant_behaves [behaves]: "answers ty rid resp \<Longrightarrow> well_behaved ty rid (\<lambda>s. (Some resp, s))"
  by (simp add: well_behaved_def)

lemma success_answers [behaves]: "answers ty rid (success_response ty rid err)"
  by (cases err) (simp_all add: answers_def success_response_def)

lemma base_answers [behaves]: "answers ty rid (base_response ty rid err)"
  by (auto simp: answers_def base_response_def put_opt_def split: option.splits)

lemma insert_answers [behaves]:
  "answers ty rid resp \<Longrightarrow> key \<notin> {''type'', ''request_id'', ''error_message'', ''success''} \<Longrightarrow> answers ty rid (hm_insert key v resp)"
  by (auto simp: answers_def)

lemma put_opt_answers [behaves]:
  "answers ty rid resp \<Longrightarrow> key \<notin> {''type'', ''request_id'', ''error_message'', ''success''} \<Longrightarrow> answers ty rid (put_opt key f x resp)"
  by (cases x) (simp_all add: put_opt_def insert_answers)

lemma rows_answer [behaves]:
  "key \<notin> {''type'', ''request_id'', ''error_message'', ''success''} \<Longrightarrow> answers ty rid (rows_response ty rid key failure f r)"
  unfolding rows_response_def by (intro behaves)

lemma if_behaves [behaves]:
  "(c \<Longrightarrow> well_behaved ty rid h) \<Longrightarrow> (\<not> c \<Longrightarrow> well_behaved ty rid h') \<Longrightarrow> well_behaved ty rid (if c then h else h')"
  by simp

lemma prod_behaves [behaves]:
  "(\<And>a b. x = (a, b) \<Longrightarrow> well_behaved ty rid (h a b)) \<Longrightarrow> well_behaved ty rid (case x of (a, b) \<Rightarrow> h a b)"
  by (cases x) simp

lemma management_behaves:
  "well_behaved ''cancel'' rid (handle_ids R D rid m Act_Cancel)"
  "well_behaved ''resume'' rid (handle_ids R D rid m Act_Resume)"
  "well_behaved ''delete'' rid (handle_ids R D rid m Act_Delete)"
  "well_behaved ''fork_workflow'' rid (handle_fork R D rid m)"
  "well_behaved ''set_latest_application_version'' rid (handle_set_latest_version R D rid m)"
  unfolding handle_ids_def handle_fork_def handle_set_latest_version_def ids_action.case by (intro behaves; simp)+

lemma query_behaves:
  "well_behaved ''executor_info'' rid (handle_executor_info R D rid)"
  "well_behaved ''recovery'' rid (handle_recovery D rid m)"
  "well_behaved ''exist_pending_workflows'' rid (handle_exist_pending R rid m)"
  "well_behaved ''list_workflows'' rid (handle_list R D rid m False)"
  "well_behaved ''list_queued_workflows'' rid (handle_list R D rid m True)"
  "well_behaved ''get_workflow'' rid (handle_get_workflow R D rid m)"
  "well_behaved ''list_steps'' rid (handle_list_steps R D rid m)"
  "well_behaved ''list_queues'' rid (handle_list_queues R D rid)"
  "well_behaved ''get_queue'' rid (handle_get_queue R D rid m)"
  "well_behaved ''list_application_versions'' rid (handle_list_versions R D rid)"
  "well_behaved ''get_workflow_aggregates'' rid (handle_workflow_aggregates R D rid m)"
  "well_behaved ''get_step_aggregates'' rid (handle_step_aggregates R D rid m)"
  "well_behaved ''get_workflow_events'' rid (handle_get_events R D rid m)"
  "well_behaved ''get_workflow_notifications'' rid (handle_get_notifications R D rid m)"
  "well_behaved ''get_workflow_streams'' rid (handle_get_streams R D rid m)"
  unfolding handle_executor_info_def handle_recovery_def handle_exist_pending_def handle_list_def handle_get_workflow_def
    handle_list_steps_def handle_list_queues_def handle_get_queue_def handle_list_versions_def
    handle_workflow_aggregates_def handle_step_aggregates_def handle_get_events_def handle_get_notifications_def
    handle_get_streams_def if_True if_False
  by (intro behaves; simp)+

lemma schedule_behaves:
  "well_behaved ''list_schedules'' rid (handle_list_schedules R D rid m)"
  "well_behaved ''get_schedule'' rid (handle_get_schedule R D rid m)"
  "well_behaved ''pause_schedule'' rid (handle_schedule_toggle R D rid m True)"
  "well_behaved ''resume_schedule'' rid (handle_schedule_toggle R D rid m False)"
  "well_behaved ''trigger_schedule'' rid (handle_trigger_schedule R D rid m)"
  unfolding handle_list_schedules_def handle_get_schedule_def handle_schedule_toggle_def handle_trigger_schedule_def if_True if_False
  by (intro behaves; simp)+

lemma metrics_behaves: "well_behaved ''get_metrics'' rid (handle_get_metrics R D rid m)"
  unfolding handle_get_metrics_def
  by (intro behaves)
    (auto simp: well_behaved_def Let_def intro!: insert_answers base_answers split: prod.splits sum.splits)

lemma retention_behaves: "well_behaved ''retention'' rid (handle_retention R D rid m)"
  unfolding handle_retention_def
  by (intro behaves) (auto simp: well_behaved_def success_answers split: prod.splits)

lemma backfill_behaves: "well_behaved ''backfill_schedule'' rid (handle_backfill_schedule R D rid m)"
  unfolding handle_backfill_schedule_def
  by (intro behaves)
    (auto simp: well_behaved_def Let_def replying_def intro!: insert_answers base_answers split: prod.splits sum.splits)

lemma transfer_behaves:
  "well_behaved ''export_workflow'' rid (handle_export_workflow D rid m)"
  "well_behaved ''import_workflow'' rid (handle_import_workflow D rid m)"
  "well_behaved ''alert'' rid (handle_alert D rid m)"
proof -
  show "well_behaved ''export_workflow'' rid (handle_export_workflow D rid m)"
    unfolding handle_export_workflow_def
    by (intro behaves) (auto intro!: insert_answers base_answers split: sum.splits)
  show "well_behaved ''import_workflow'' rid (handle_import_workflow D rid m)"
    unfolding handle_import_workflow_def
    by (intro behaves) (auto simp: well_behaved_def replying_def success_answers split: prod.splits sum.splits)
  show "well_behaved ''alert'' rid (handle_alert D rid m)"
    unfolding handle_alert_def by (intro behaves)
qed

lemmas handler_behaves = management_behaves query_behaves schedule_behaves metrics_behaves retention_behaves
  backfill_behaves transfer_behaves

lemma dispatch_behaves: "well_behaved ty rid (dispatch_message R D ty rid m)"
  unfolding dispatch_message_def by (intro if_behaves) (simp_all add: handler_behaves constant_behaves base_answers)

definition message_types :: "string list" where
  "message_types =
     [''executor_info'', ''recovery'', ''exist_pending_workflows'', ''cancel'', ''resume'', ''delete'', ''fork_workflow'',
      ''list_workflows'', ''list_queued_workflows'', ''get_workflow'', ''list_steps'', ''list_schedules'', ''get_schedule'',
      ''pause_schedule'', ''resume_schedule'', ''backfill_schedule'', ''trigger_schedule'', ''list_queues'', ''get_queue'',
      ''list_application_versions'', ''set_latest_application_version'', ''get_workflow_aggregates'', ''get_step_aggregates'',
      ''get_workflow_events'', ''get_workflow_notifications'', ''get_workflow_streams'', ''get_metrics'', ''retention'',
      ''export_workflow'', ''import_workflow'', ''alert'']"

lemma dispatch_unknown:
  "ty \<notin> set message_types \<Longrightarrow>
   dispatch_message R D ty rid m s = (Some (base_response ty rid (Some ''Unknown message type'')), s)"
  by (simp add: dispatch_message_def message_types_def)


definition wit_wire :: wire_env where
  "wit_wire =
     \<lparr> wi_text = one_value_text (JObject [(''type'', JString ''restart''), (''request_id'', JString ''7'')]) ''text'',
       wi_parse_rfc3339 = (\<lambda>_. Inl ''premature end of input''), wi_rfc3339_nanos = (\<lambda>_. []),
       wi_as_secs_f64 = (\<lambda>_. 0), wi_f64 = (\<lambda>_. 0) \<rparr>"

definition wit_conductor :: "inner conductor_env" where
  "wit_conductor =
     \<lparr> cd_wire = wit_wire, cd_hostname = None, cd_dbos_version = ''1'', cd_executor_metadata = None,
       cd_alert_handler = None, cd_now = 0, cd_clk = (\<lambda>_. 0), cd_fresh = ''f'',
       cd_recover_pending_for = (\<lambda>_. ok []), cd_backfill_schedule = (\<lambda>_ _ _. ok []),
       cd_trigger_schedule = (\<lambda>_. ok ''t''), cd_export_workflow = (\<lambda>_ _. ok []), cd_import_workflow = (\<lambda>_. ok ()),
       cd_to_vec = (\<lambda>_. Inr []), cd_gzip_write = Inr, cd_gzip_finish = Inr, cd_b64_encode = (\<lambda>s. s),
       cd_b64_decode = Inr, cd_gunzip = Inr, cd_from_slice = (\<lambda>_. Inr []) \<rparr>"


end
