(* ===== verification/Conductor_Link.thy ===== *)
theory Conductor_Link
  imports Conductor
begin

text \<open>
  The connection of the conductor client, \<open>src/src/conductor.rs\<close>: its address, the reconnect loop and
  the loop that serves one connection. The serving loop waits for several things at once; a turn of it is
  a step of a relation on the clock and the next ping, in which the earliest thing that becomes ready ends
  the wait. Instants and durations count nanoseconds.
\<close>

section \<open>The address\<close>

definition trim_end_matches :: "char \<Rightarrow> string \<Rightarrow> string" where
  "trim_end_matches c s = rev (dropWhile (\<lambda>x. x = c) (rev s))"

record conductor_config =
  cc_url :: string
  cc_api_key :: string
  cc_app_name :: string

text \<open>\<open>dbos_domain\<close> is the environment variable.\<close>

definition websocket_url :: "string option \<Rightarrow> conductor_config \<Rightarrow> string" where
  "websocket_url dbos_domain c =
     (let base = (if cc_url c = []
        then ''wss://'' @ (case dbos_domain of Some d \<Rightarrow> if d \<noteq> [] then d else ''cloud.dbos.dev'' | None \<Rightarrow> ''cloud.dbos.dev'')
          @ ''/conductor/v1alpha1''
        else trim_end_matches (CHR ''/'') (cc_url c))
      in base @ ''/websocket/'' @ cc_app_name c @ ''/'' @ cc_api_key c)"

text \<open>\<open>Conductor::start\<close>: the address the connection loop is spawned with.\<close>

definition conductor_start :: "string option \<Rightarrow> conductor_config \<Rightarrow> string result" where
  "conductor_start dbos_domain c =
     (if cc_api_key c = [] then Inl (app ''conductor API key is required'') else Inr (websocket_url dbos_domain c))"

section \<open>Reconnecting\<close>

definition PING_INTERVAL :: duration where "PING_INTERVAL = from_secs 20"
definition PING_TIMEOUT :: duration where "PING_TIMEOUT = from_secs 30"
definition INITIAL_RECONNECT_WAIT :: duration where "INITIAL_RECONNECT_WAIT = from_secs 1"
definition MAX_RECONNECT_WAIT :: duration where "MAX_RECONNECT_WAIT = from_secs 30"

text \<open>\<open>mul_f64 d k\<close> is \<open>d\<close> scaled by the float \<open>0.5 + k / 1000\<close>; the hash wraps at 64 bits.\<close>

definition jittered :: "(duration \<Rightarrow> nat \<Rightarrow> duration) \<Rightarrow> duration \<Rightarrow> string \<Rightarrow> duration" where
  "jittered mul_f64 base seed =
     (let h = fold (\<lambda>b a. a * 31 + of_char b) seed (0 :: 64 word) in mul_f64 base (unat (h mod 1000)))"

text \<open>
  What each turn of the loop meets: whether shutdown is signalled at its top, and whether the connection
  succeeds (and then whether serving it ended by shutdown) or fails (and then whether shutdown interrupts
  the wait).
\<close>

datatype attempt = Connected bool | Connect_Failed bool

datatype link_action = Served | Waited duration

fun connection_loop ::
    "(duration \<Rightarrow> nat \<Rightarrow> duration) \<Rightarrow> string \<Rightarrow> duration \<Rightarrow> (bool \<times> attempt) list \<Rightarrow> link_action list" where
  "connection_loop mul ws_url backoff [] = []"
| "connection_loop mul ws_url backoff ((cancelled, a) # rest) =
     (if cancelled then []
      else
        (case a of
           Connected stopped \<Rightarrow>
             Served # (if stopped then [] else connection_loop mul ws_url INITIAL_RECONNECT_WAIT rest)
         | Connect_Failed interrupted \<Rightarrow>
             if interrupted then []
             else Waited (jittered mul backoff ws_url) #
               connection_loop mul ws_url (min (backoff * 2) MAX_RECONNECT_WAIT) rest))"

lemma failing_waits:
  "connection_loop mul url (min b MAX_RECONNECT_WAIT) (replicate k (False, Connect_Failed False)) =
     map (\<lambda>i. Waited (jittered mul (min (b * 2 ^ i) MAX_RECONNECT_WAIT) url)) [0..<k]"
proof (induction k arbitrary: b)
  case (Suc k)
  have "min (min b MAX_RECONNECT_WAIT * 2) MAX_RECONNECT_WAIT = min (b * 2) MAX_RECONNECT_WAIT" by auto
  moreover have "map (\<lambda>i. Waited (jittered mul (min (b * 2 ^ i) MAX_RECONNECT_WAIT) url)) [0..<Suc k] =
      Waited (jittered mul (min b MAX_RECONNECT_WAIT) url) #
      map (\<lambda>i. Waited (jittered mul (min (b * 2 * 2 ^ i) MAX_RECONNECT_WAIT) url)) [0..<k]"
    by (simp add: upt_conv_Cons map_Suc_upt [symmetric] mult.assoc o_def del: upt_Suc)
  ultimately show ?case using Suc.IH [of "b * 2"] by simp
qed simp

text \<open>
  While connecting fails, the waits are one second doubled each time up to thirty, each with the jitter of
  the address; a link that was up is dialled again without any wait.
\<close>

theorem reconnect_schedule:
  "connection_loop mul url INITIAL_RECONNECT_WAIT (replicate k (False, Connect_Failed False)) =
     map (\<lambda>i. Waited (jittered mul (min (INITIAL_RECONNECT_WAIT * 2 ^ i) MAX_RECONNECT_WAIT) url)) [0..<k]"
  "connection_loop mul url b ((False, Connected False) # (False, Connected x) # rest) =
     Served # Served # (if x then [] else connection_loop mul url INITIAL_RECONNECT_WAIT rest)"
proof -
  have "min INITIAL_RECONNECT_WAIT MAX_RECONNECT_WAIT = INITIAL_RECONNECT_WAIT"
    by (simp add: INITIAL_RECONNECT_WAIT_def MAX_RECONNECT_WAIT_def from_secs_def)
  with failing_waits [of mul url INITIAL_RECONNECT_WAIT k]
  show "connection_loop mul url INITIAL_RECONNECT_WAIT (replicate k (False, Connect_Failed False)) =
     map (\<lambda>i. Waited (jittered mul (min (INITIAL_RECONNECT_WAIT * 2 ^ i) MAX_RECONNECT_WAIT) url)) [0..<k]" by simp
qed simp

section \<open>Serving a connection\<close>

text \<open>
  A turn of the loop enters \<open>select!\<close> at \<open>ls_now\<close>. The ping interval is due at \<open>ls_next_tick\<close>; the read
  deadline is created anew on every turn. \<open>arrivals\<close> is what the environment does meanwhile: when shutdown
  is signalled, and when the next inbound item is there.
\<close>

datatype inbound = Text_Frame string | Ping_Frame string | Close_Frame | Other_Frame | Read_Error | Stream_Closed

datatype outbound = Reply json_map | Ping_Out | Pong_Out string

datatype branch = Cancelled | Ping_Tick | Read_Deadline | Read_Item inbound

record arrivals =
  ar_cancel :: "duration option"
  ar_inbound :: "(duration \<times> inbound) option"

record 's link_state =
  ls_now :: duration
  ls_next_tick :: duration
  ls_store :: 's
  ls_sent :: "outbound list"

definition ready_by :: "duration option \<Rightarrow> duration \<Rightarrow> bool" where
  "ready_by r w = (case r of Some t \<Rightarrow> t \<le> w | None \<Rightarrow> False)"

definition branch_ready :: "'s link_state \<Rightarrow> arrivals \<Rightarrow> branch \<Rightarrow> duration \<Rightarrow> bool" where
  "branch_ready st a b w =
     (case b of
        Cancelled \<Rightarrow> ready_by (ar_cancel a) w
      | Ping_Tick \<Rightarrow> ls_next_tick st \<le> w
      | Read_Deadline \<Rightarrow> ls_now st + PING_TIMEOUT \<le> w \<and> \<not> ready_by (map_option fst (ar_inbound a)) w
      | Read_Item i \<Rightarrow> ready_by (map_option fst (ar_inbound a)) w \<and> map_option snd (ar_inbound a) = Some i)"

text \<open>
  The task is woken at most \<open>lag\<close> after something is ready, and takes one of the branches that are ready then.
\<close>

definition woken :: "duration \<Rightarrow> 's link_state \<Rightarrow> arrivals \<Rightarrow> duration \<Rightarrow> bool" where
  "woken lag st a w \<longleftrightarrow>
     ls_now st \<le> w \<and>
     w \<le> min (max (ls_now st) (ls_next_tick st)) (ls_now st + PING_TIMEOUT) + lag \<and>
     (case ar_cancel a of Some t \<Rightarrow> w \<le> max (ls_now st) t + lag | None \<Rightarrow> True) \<and>
     (case ar_inbound a of Some (t, _) \<Rightarrow> w \<le> max (ls_now st) t + lag | None \<Rightarrow> True)"

text \<open>
  What a read item does: go on with the store and the messages sent, or end the connection. \<open>h\<close> handles a
  text message; a reply or a pong that cannot be written (\<open>sent\<close> is false) is only logged.
\<close>

fun on_item ::
    "(string \<Rightarrow> 's handler) \<Rightarrow> bool \<Rightarrow> inbound \<Rightarrow> 's \<Rightarrow> outbound list \<Rightarrow> ('s \<times> outbound list) option" where
  "on_item h sent (Text_Frame msg) s out =
     (case h msg s of
        (Some resp, s') \<Rightarrow> Some (s', if sent then out @ [Reply resp] else out)
      | (None, s') \<Rightarrow> Some (s', out))"
| "on_item h sent (Ping_Frame payload_in) s out = Some (s, if sent then out @ [Pong_Out payload_in] else out)"
| "on_item h sent Other_Frame s out = Some (s, out)"
| "on_item h sent Close_Frame s out = None"
| "on_item h sent Read_Error s out = None"
| "on_item h sent Stream_Closed s out = None"

text \<open>
  One turn. \<open>Inr stopped\<close> is the return of \<open>serve\<close>. \<open>after due w\<close> is when the interval is due next once
  it has ticked at \<open>w\<close>. A body runs to its end, at \<open>fin\<close>, before the next turn begins.
\<close>

inductive serve_turn ::
    "duration \<Rightarrow> (duration \<Rightarrow> duration \<Rightarrow> duration) \<Rightarrow> (string \<Rightarrow> 's handler) \<Rightarrow>
     's link_state \<Rightarrow> arrivals \<Rightarrow> branch \<Rightarrow> 's link_state + bool \<Rightarrow> bool"
  for lag after h where
  turn_cancelled: "woken lag st a w \<Longrightarrow> branch_ready st a Cancelled w \<Longrightarrow> serve_turn lag after h st a Cancelled (Inr True)"
| turn_ping:
    "woken lag st a w \<Longrightarrow> branch_ready st a Ping_Tick w \<Longrightarrow> w \<le> fin \<Longrightarrow>
     serve_turn lag after h st a Ping_Tick
       (Inl (st\<lparr> ls_now := fin, ls_next_tick := after (ls_next_tick st) w, ls_sent := ls_sent st @ [Ping_Out] \<rparr>))"
| turn_ping_failed: "woken lag st a w \<Longrightarrow> branch_ready st a Ping_Tick w \<Longrightarrow> serve_turn lag after h st a Ping_Tick (Inr False)"
| turn_deadline: "woken lag st a w \<Longrightarrow> branch_ready st a Read_Deadline w \<Longrightarrow> serve_turn lag after h st a Read_Deadline (Inr False)"
| turn_item:
    "woken lag st a w \<Longrightarrow> branch_ready st a (Read_Item i) w \<Longrightarrow> w \<le> fin \<Longrightarrow>
     on_item h sent i (ls_store st) (ls_sent st) = Some (s', out) \<Longrightarrow>
     serve_turn lag after h st a (Read_Item i) (Inl (st\<lparr> ls_now := fin, ls_store := s', ls_sent := out \<rparr>))"
| turn_item_ends:
    "woken lag st a w \<Longrightarrow> branch_ready st a (Read_Item i) w \<Longrightarrow>
     on_item h sent i (ls_store st) (ls_sent st) = None \<Longrightarrow>
     serve_turn lag after h st a (Read_Item i) (Inr False)"

inductive_cases turn_goes_on: "serve_turn lag after h st a b (Inl st')"
inductive_cases turn_at_deadline: "serve_turn lag after h st a Read_Deadline r"

inductive serve_run ::
    "duration \<Rightarrow> (duration \<Rightarrow> duration \<Rightarrow> duration) \<Rightarrow> (string \<Rightarrow> 's handler) \<Rightarrow>
     's link_state \<Rightarrow> (arrivals \<times> branch) list \<Rightarrow> 's link_state + bool \<Rightarrow> bool"
  for lag after h where
  run_refl: "serve_run lag after h st [] (Inl st)"
| run_ends: "serve_turn lag after h st a b (Inr stopped) \<Longrightarrow> serve_run lag after h st [(a, b)] (Inr stopped)"
| run_more: "serve_turn lag after h st a b (Inl st') \<Longrightarrow> serve_run lag after h st' tr out \<Longrightarrow>
     serve_run lag after h st ((a, b) # tr) out"

text \<open>The state when the loop is entered: the immediate first tick is consumed.\<close>

definition serve_start :: "duration \<Rightarrow> 's \<Rightarrow> 's link_state" where
  "serve_start t s = \<lparr> ls_now = t, ls_next_tick = t + PING_INTERVAL, ls_store = s, ls_sent = [] \<rparr>"

text \<open>The next ping is never further away than its interval.\<close>

definition ping_within :: "'s link_state \<Rightarrow> bool" where
  "ping_within st \<longleftrightarrow> ls_next_tick st \<le> ls_now st + PING_INTERVAL"

text \<open>An interval whose next tick is at most a period after the one just delivered.\<close>

definition interval_law :: "(duration \<Rightarrow> duration \<Rightarrow> duration) \<Rightarrow> bool" where
  "interval_law after \<longleftrightarrow> (\<forall>due w. due \<le> w \<longrightarrow> after due w \<le> w + PING_INTERVAL)"

lemma start_within [simp]: "ping_within (serve_start t s)"
  by (simp add: ping_within_def serve_start_def)

lemma turn_keeps_within:
  assumes "serve_turn lag after h st a b (Inl st')" "interval_law after" "ping_within st"
  shows "ping_within st'"
  using assms by (elim turn_goes_on) (fastforce simp: ping_within_def interval_law_def branch_ready_def woken_def)+

lemma within_no_deadline:
  assumes "ping_within st" "lag < PING_TIMEOUT - PING_INTERVAL"
  shows "\<not> serve_turn lag after h st a Read_Deadline r"
  using assms by (auto elim!: turn_at_deadline simp: ping_within_def woken_def branch_ready_def)

lemma run_no_deadline:
  assumes "serve_run lag after h st tr out" "interval_law after" "ping_within st" "lag < PING_TIMEOUT - PING_INTERVAL"
  shows "(a, Read_Deadline) \<notin> set tr"
  using assms by (induction) (auto simp: within_no_deadline dest: turn_keeps_within)

definition silent :: arrivals where "silent = \<lparr> ar_cancel = None, ar_inbound = None \<rparr>"

lemma silent_turn:
  assumes "ping_within st"
  shows "\<exists>st'. serve_turn lag after h st silent Ping_Tick (Inl st')"
proof -
  have "woken lag st silent (max (ls_now st) (ls_next_tick st))"
    using assms by (auto simp: woken_def silent_def ping_within_def PING_INTERVAL_def PING_TIMEOUT_def from_secs_def)
  moreover have "branch_ready st silent Ping_Tick (max (ls_now st) (ls_next_tick st))" by (simp add: branch_ready_def)
  ultimately show ?thesis by (blast intro: turn_ping order_refl)
qed

lemma silent_run:
  assumes "interval_law after" "ping_within st"
  shows "\<exists>st'. serve_run lag after h st (replicate n (silent, Ping_Tick)) (Inl st')"
  using assms(2)
proof (induction n arbitrary: st)
  case 0
  show ?case by (auto intro: run_refl)
next
  case (Suc n)
  then obtain st' where st': "serve_turn lag after h st silent Ping_Tick (Inl st')" using silent_turn by blast
  hence "ping_within st'" using assms(1) Suc.prems by (rule turn_keeps_within)
  with Suc.IH [of st'] obtain st2 where "serve_run lag after h st' (replicate n (silent, Ping_Tick)) (Inl st2)" by blast
  with st' show ?case by (auto intro: run_more)
qed

text \<open>
  C38. The read deadline of the conductor link never fires. With an interval whose ticks are at most a
  period apart, and a task woken less than ten seconds late, no run of the serving loop takes the deadline
  branch: the ping that is due every twenty seconds ends the turn, and the thirty-second deadline starts
  again. So a link that never delivers anything is served for any number of pings, although the deadline
  is meant to end it.
\<close>

theorem read_deadline_never_fires:
  assumes "interval_law after" "lag < PING_TIMEOUT - PING_INTERVAL"
  shows "(serve_run lag after h (serve_start t s) tr out \<longrightarrow> Read_Deadline \<notin> snd ` set tr) \<and>
     (\<exists>st'. serve_run lag after h (serve_start t s) (replicate n (silent, Ping_Tick)) (Inl st'))"
  using run_no_deadline [OF _ assms(1) start_within assms(2)] silent_run [OF assms(1) start_within] by fastforce

theorem read_deadline_never_fires_witness:
  "interval_law (\<lambda>due w. w + PING_INTERVAL - (w - due) mod PING_INTERVAL) \<and>
   (\<exists>st'. serve_run 0 (\<lambda>due w. w + PING_INTERVAL - (w - due) mod PING_INTERVAL) (\<lambda>_ s. (None, s))
      (serve_start 0 ()) (replicate 3 (silent, Ping_Tick)) (Inl st'))"
proof -
  let ?after = "\<lambda>due w. w + PING_INTERVAL - (w - due) mod PING_INTERVAL"
  have law: "interval_law ?after" by (simp add: interval_law_def)
  have "0 < PING_TIMEOUT - PING_INTERVAL" by (simp add: PING_TIMEOUT_def PING_INTERVAL_def from_secs_def)
  from read_deadline_never_fires [OF law this, of "\<lambda>_ s. (None, s)" 0 "()" "[]" "Inr True" 3] law
  show ?thesis by simp
qed

end
