(* ===== verification/Admin.thy ===== *)
theory Admin
  imports Conductor_Wire
begin

text \<open>
  The admin HTTP server, \<open>src/src/admin.rs\<close>: its routes and their handlers over a running engine. A
  handler gives the status code and body of the response. The state of the server is the store and the
  life cycle of the engine. Listening, connections and the answer to a path without a route are the web
  framework's.
\<close>

section \<open>Requests and responses\<close>

datatype http_method = GET | POST

datatype http_body = Json_Body json | Text_Body string | No_Body

type_synonym response = "nat \<times> http_body"

text \<open>
  \<open>av_serde_error\<close> is the text of the error for a body that does not deserialize, \<open>av_show_nat\<close> prints
  the counts of a health report, \<open>av_ping\<close> is the outcome of the database probe, \<open>av_fresh\<close> the id
  generated for a fork, \<open>av_now\<close> and \<open>av_now2\<close> clock readings. \<open>recover_pending_for\<close> runs workflows.
\<close>

record 's admin_env =
  av_wire :: wire_env
  av_serde_error :: "string \<Rightarrow> string"
  av_show_nat :: "nat \<Rightarrow> string"
  av_ping :: "unit result"
  av_recover_pending_for :: "string list \<Rightarrow> ('s, string list) op"
  av_fresh :: string
  av_now :: datetime
  av_now2 :: datetime

type_synonym 's admin_handler = "engine_state \<times> 's \<Rightarrow> response \<times> (engine_state \<times> 's)"

definition internal :: "error \<Rightarrow> response" where
  "internal e = (500, Text_Body (to_string e))"

text \<open>An engine call whose error is answered as an internal one.\<close>

definition calling :: "('s, 'a) op \<Rightarrow> ('a \<Rightarrow> response) \<Rightarrow> 's admin_handler" where
  "calling f k st =
     (case f (snd st) of
        (Inl e, s') \<Rightarrow> (internal e, (fst st, s'))
      | (Inr x, s') \<Rightarrow> (k x, (fst st, s')))"

definition json_body :: "wire_env \<Rightarrow> (json \<Rightarrow> 'a option) \<Rightarrow> string \<Rightarrow> 'a option" where
  "json_body W conv body = Option.bind (from_str_ok (wi_text W) body) conv"

definition parse_optional ::
    "'s admin_env \<Rightarrow> 'a \<Rightarrow> (json_map \<Rightarrow> 'a option) \<Rightarrow> string \<Rightarrow> ('a \<Rightarrow> 's admin_handler) \<Rightarrow> 's admin_handler" where
  "parse_optional V dflt conv body h st =
     (case if body = [] then Some dflt else json_body (av_wire V) (\<lambda>v. Option.bind (as_object v) conv) body of
        None \<Rightarrow> ((400, Text_Body (''Invalid JSON input: '' @ av_serde_error V body)), st)
      | Some x \<Rightarrow> h x st)"

definition parse_body :: "'s admin_env \<Rightarrow> (json \<Rightarrow> 'a option) \<Rightarrow> string \<Rightarrow> ('a \<Rightarrow> 's admin_handler) \<Rightarrow> 's admin_handler" where
  "parse_body V conv body h st =
     (case json_body (av_wire V) conv body of
        None \<Rightarrow> ((400, Text_Body ''Invalid JSON body''), st)
      | Some x \<Rightarrow> h x st)"

section \<open>Rendering\<close>

definition epoch_ms :: "int option \<Rightarrow> json" where
  "epoch_ms ms = (case ms of Some m \<Rightarrow> JString (int_to_string m) | None \<Rightarrow> JNull)"

definition admin_payload_str :: "wire_env \<Rightarrow> json option \<Rightarrow> string" where
  "admin_payload_str W v = (case v of Some v \<Rightarrow> if \<not> is_null v then jt_to_string (wi_text W) v else [] | None \<Rightarrow> [])"

definition to_list_workflow_response :: "wire_env \<Rightarrow> workflow_status \<Rightarrow> json" where
  "to_list_workflow_response W w = JObject
     [(''WorkflowUUID'', JString (ws_id w)),
      (''Status'', JString (ws_status w)),
      (''WorkflowName'', JString (ws_name w)),
      (''AuthenticatedUser'', json_of JString (ws_authenticated_user w)),
      (''AssumedRole'', json_of JString (ws_assumed_role w)),
      (''AuthenticatedRoles'', JArray (map JString (ws_authenticated_roles w))),
      (''Output'', JString (admin_payload_str W (ws_output w))),
      (''Input'', JString (admin_payload_str W (Some (ws_input w)))),
      (''ExecutorID'', JString (ws_executor_id w)),
      (''ApplicationVersion'', JString (ws_app_version w)),
      (''ApplicationID'', JString []),
      (''Attempts'', JInt (ws_recovery_attempts w)),
      (''QueueName'', json_of JString (ws_queue_name w)),
      (''Timeout'', json_of JInt (ws_timeout_ms w)),
      (''DeduplicationID'', json_of JString (ws_dedup_id w)),
      (''Priority'', JInt (ws_priority w)),
      (''QueuePartitionKey'', json_of JString (ws_queue_partition_key w)),
      (''CreatedAt'', epoch_ms (Some (timestamp_millis (ws_created_at w)))),
      (''UpdatedAt'', epoch_ms (Some (timestamp_millis (ws_updated_at w)))),
      (''WorkflowDeadlineEpochMS'', epoch_ms (ws_deadline_ms w)),
      (''StartedAt'', epoch_ms (ws_started_at_ms w))]"

definition to_step_response :: "wire_env \<Rightarrow> step_info \<Rightarrow> json" where
  "to_step_response W s = JObject
     [(''function_id'', JInt (si_step_id s)),
      (''function_name'', JString (si_name s)),
      (''child_workflow_id'', json_of JString (si_child_workflow_id s)),
      (''output'', JString (admin_payload_str W (si_output s))),
      (''error'', json_of JString (si_error s)),
      (''started_at_epoch_ms'', json_of (\<lambda>t. JInt (timestamp_millis t)) (si_started_at s)),
      (''completed_at_epoch_ms'', json_of (\<lambda>t. JInt (timestamp_millis t)) (si_completed_at s))]"

definition to_queue_metadata :: "workflow_queue \<Rightarrow> json" where
  "to_queue_metadata q = JObject
     [(''name'', JString (q_name q)),
      (''workerConcurrency'', json_of (\<lambda>n. JInt (int n)) (q_worker_concurrency q)),
      (''concurrency'', json_of JInt (q_global_concurrency q)),
      (''priorityEnabled'', JBool (q_priority_enabled q)),
      (''rateLimit'', json_of (\<lambda>r. JObject
         [(''Limit'', JInt (rl_limit r)), (''Period'', JInt (i64_wrap (int (rl_period r))))]) (q_rate_limit q)),
      (''maxTasksPerIteration'', JInt (int (q_max_tasks_per_iteration q))),
      (''partitionQueue'', JBool (q_partitioned q))]"

section \<open>Handlers\<close>

definition readyz :: "'s admin_env \<Rightarrow> 's admin_handler" where
  "readyz V st =
     (let report = health (av_show_nat V) (av_ping V) (fst st)
      in ((if is_ready report then 200 else 503, Json_Body (JObject
            [(''ready'', JBool (is_ready report)),
             (''database'', JString (unwrap_or (hr_database report) ''ok'')),
             (''dispatch'', JString (unwrap_or (hr_dispatch report) ''ok''))])), st))"

definition admin_deactivate :: "'s admin_handler" where
  "admin_deactivate st = ((200, Text_Body ''deactivated''), (deactivate (fst st), snd st))"

definition queues_metadata :: "'h registry \<Rightarrow> 's admin_handler" where
  "queues_metadata g st = ((200, Json_Body (JArray (map to_queue_metadata (list_registered_queues g)))), st)"

definition workflow_recovery :: "'s admin_env \<Rightarrow> string \<Rightarrow> 's admin_handler" where
  "workflow_recovery V body =
     parse_body V strings_of_json body
     (\<lambda>executor_ids. calling (av_recover_pending_for V executor_ids) (\<lambda>ids. (200, Json_Body (JArray (map JString ids)))))"

definition global_timeout :: "('s, 'h) runtime \<Rightarrow> 's admin_env \<Rightarrow> string \<Rightarrow> 's admin_handler" where
  "global_timeout R V body =
     parse_body V (\<lambda>v. do { m \<leftarrow> as_object v; t \<leftarrow> hm_get m ''cutoff_epoch_timestamp_ms''; as_i64 t }) body
     (\<lambda>cutoff. calling (cancel_all_before R cutoff (av_now V)) (\<lambda>_. (204, No_Body)))"

definition admin_garbage_collect :: "('s, 'h) runtime \<Rightarrow> 's admin_env \<Rightarrow> string \<Rightarrow> 's admin_handler" where
  "admin_garbage_collect R V body =
     parse_optional V (None, None)
       (\<lambda>m. do { cutoff \<leftarrow> opt_int_field ''cutoff_epoch_timestamp_ms'' m;
                 rows \<leftarrow> opt_int_field ''rows_threshold'' m; Some (cutoff, rows) }) body
     (\<lambda>(cutoff, rows). calling (garbage_collect (rt_provider R) cutoff rows) (\<lambda>_. (204, No_Body)))"

text \<open>The body of the two listings; \<open>authenticated_user\<close> is read and ignored.\<close>

definition to_filter :: "wire_env \<Rightarrow> json_map \<Rightarrow> list_filter option" where
  "to_filter W m = do {
     workflow_uuids \<leftarrow> field (option_of strings_of_json) None ''workflow_uuids'' m;
     _ \<leftarrow> opt_str_field ''authenticated_user'' m;
     start_time \<leftarrow> ms_field W ''start_time'' m;
     end_time \<leftarrow> ms_field W ''end_time'' m;
     status \<leftarrow> opt_str_field ''status'' m;
     application_version \<leftarrow> opt_str_field ''application_version'' m;
     workflow_name \<leftarrow> opt_str_field ''workflow_name'' m;
     limit \<leftarrow> opt_int_field ''limit'' m;
     offset \<leftarrow> opt_int_field ''offset'' m;
     sort_desc \<leftarrow> opt_bool_field ''sort_desc'' m;
     workflow_id_prefix \<leftarrow> opt_str_field ''workflow_id_prefix'' m;
     load_input \<leftarrow> opt_bool_field ''load_input'' m;
     load_output \<leftarrow> opt_bool_field ''load_output'' m;
     queue_name \<leftarrow> opt_str_field ''queue_name'' m;
     Some (list_filter_default
       \<lparr> lf_workflow_ids := unwrap_or workflow_uuids [],
         lf_workflow_id_prefix := (case workflow_id_prefix of Some p \<Rightarrow> [p] | None \<Rightarrow> []),
         lf_name := (case workflow_name of Some n \<Rightarrow> [n] | None \<Rightarrow> []),
         lf_app_version := (case application_version of Some v \<Rightarrow> [v] | None \<Rightarrow> []),
         lf_queue_name := (case queue_name of Some q \<Rightarrow> [q] | None \<Rightarrow> []),
         lf_start_time_ms := start_time, lf_end_time_ms := end_time, lf_limit := limit, lf_offset := offset,
         lf_sort_desc := unwrap_or sort_desc False,
         lf_status := (case status of Some s \<Rightarrow> if s \<noteq> [] then [s] else [] | None \<Rightarrow> []),
         lf_load_input := unwrap_or load_input True, lf_load_output := unwrap_or load_output True \<rparr>)
   }"

definition listing :: "('s, 'h) runtime \<Rightarrow> 's admin_env \<Rightarrow> list_filter \<Rightarrow> 's admin_handler" where
  "listing R V f =
     calling (pv_list_workflows (rt_provider R) f)
       (\<lambda>ws. (200, Json_Body (JArray (map (to_list_workflow_response (av_wire V)) ws))))"

definition admin_list_workflows :: "('s, 'h) runtime \<Rightarrow> 's admin_env \<Rightarrow> string \<Rightarrow> 's admin_handler" where
  "admin_list_workflows R V body =
     parse_optional V list_filter_default (to_filter (av_wire V)) body (listing R V)"

definition list_queued_workflows :: "('s, 'h) runtime \<Rightarrow> 's admin_env \<Rightarrow> string \<Rightarrow> 's admin_handler" where
  "list_queued_workflows R V body =
     parse_optional V list_filter_default (to_filter (av_wire V)) body
     (\<lambda>f. listing R V (f
        \<lparr> lf_status := (if lf_status f = [] then [STATUS_ENQUEUED, STATUS_PENDING, STATUS_DELAYED] else lf_status f),
          lf_queues_only := True \<rparr>))"

definition admin_get_workflow :: "('s, 'h) runtime \<Rightarrow> 's admin_env \<Rightarrow> string \<Rightarrow> 's admin_handler" where
  "admin_get_workflow R V wid =
     calling (pv_list_workflows (rt_provider R) (list_filter_default \<lparr> lf_workflow_ids := [wid] \<rparr>))
       (\<lambda>ws. case ws of
          w # _ \<Rightarrow> (200, Json_Body (to_list_workflow_response (av_wire V) w))
        | [] \<Rightarrow> (404, Text_Body ''Workflow not found''))"

definition workflow_steps :: "('s, 'h) runtime \<Rightarrow> 's admin_env \<Rightarrow> string \<Rightarrow> 's admin_handler" where
  "workflow_steps R V wid =
     calling (pv_get_workflow_steps (rt_provider R) wid)
       (\<lambda>found. (200, Json_Body (JArray (map (to_step_response (av_wire V)) found))))"

definition admin_cancel_workflow :: "('s, 'h) runtime \<Rightarrow> 's admin_env \<Rightarrow> string \<Rightarrow> 's admin_handler" where
  "admin_cancel_workflow R V wid = calling (pv_cancel_workflow (rt_provider R) wid (av_now V)) (\<lambda>_. (204, No_Body))"

definition admin_resume_workflow :: "('s, 'h) runtime \<Rightarrow> 's admin_env \<Rightarrow> string \<Rightarrow> 's admin_handler" where
  "admin_resume_workflow R V wid =
     calling (resume_workflow_on R wid INTERNAL_QUEUE (av_now V) (av_now2 V)) (\<lambda>_. (204, No_Body))"

definition as_i32 :: "json \<Rightarrow> int option" where
  "as_i32 v = Option.bind (as_i64 v) (\<lambda>n. if i32_min \<le> n \<and> n \<le> i32_max then Some n else None)"

definition admin_fork_workflow :: "('s, 'h) runtime \<Rightarrow> 's admin_env \<Rightarrow> string \<Rightarrow> string \<Rightarrow> 's admin_handler" where
  "admin_fork_workflow R V wid body =
     parse_optional V (None, None, None)
       (\<lambda>m. do { start_step \<leftarrow> field (option_of as_i32) None ''start_step'' m;
                 new_id \<leftarrow> opt_str_field ''new_workflow_id'' m;
                 version \<leftarrow> opt_str_field ''application_version'' m; Some (start_step, new_id, version) }) body
     (\<lambda>(start_step, new_id, version).
        let opts = (case new_id of Some i \<Rightarrow> with_id i | None \<Rightarrow> workflow_options_default);
            opts' = (case version of Some v \<Rightarrow> opts \<lparr> wo_app_version := Some v \<rparr> | None \<Rightarrow> opts)
        in calling (engine_fork_workflow R wid (unwrap_or start_step 0) opts' (av_fresh V) (av_now V))
             (\<lambda>h. (200, Json_Body (JObject [(''workflow_id'', JString (handle_id h))]))))"

section \<open>Routes\<close>

text \<open>A path is the list of its segments; \<^const>\<open>None\<close> is a path without a route for the method.\<close>

fun router ::
    "('s, 'h) runtime \<Rightarrow> 'h registry \<Rightarrow> 's admin_env \<Rightarrow> http_method \<Rightarrow> string list \<Rightarrow> string \<Rightarrow> 's admin_handler option" where
  "router R g V GET [p] body =
     (if p = ''dbos-healthz'' then Some (\<lambda>st. ((200, Json_Body (JObject [(''status'', JString ''healthy'')])), st))
      else if p = ''readyz'' then Some (readyz V)
      else if p = ''deactivate'' then Some admin_deactivate
      else if p = ''conductor'' then Some (\<lambda>st. ((200, Json_Body (JObject [(''status'', JBool True)])), st))
      else if p = ''dbos-workflow-queues-metadata'' then Some (queues_metadata g)
      else None)"
| "router R g V POST [p] body =
     (if p = ''dbos-workflow-recovery'' then Some (workflow_recovery V body)
      else if p = ''dbos-global-timeout'' then Some (global_timeout R V body)
      else if p = ''dbos-garbage-collect'' then Some (admin_garbage_collect R V body)
      else if p = ''workflows'' then Some (admin_list_workflows R V body)
      else if p = ''queues'' then Some (list_queued_workflows R V body)
      else None)"
| "router R g V GET [p, wid] body = (if p = ''workflows'' then Some (admin_get_workflow R V wid) else None)"
| "router R g V GET [p, wid, q] body =
     (if p = ''workflows'' \<and> q = ''steps'' then Some (workflow_steps R V wid) else None)"
| "router R g V POST [p, wid, q] body =
     (if p \<noteq> ''workflows'' then None
      else if q = ''cancel'' then Some (admin_cancel_workflow R V wid)
      else if q = ''resume'' then Some (admin_resume_workflow R V wid)
      else if q = ''fork'' then Some (admin_fork_workflow R V wid body)
      else None)"
| "router R g V _ _ body = None"

section \<open>What a request may change\<close>

text \<open>An empty body lists with the filter that an empty object gives.\<close>

lemma to_filter_empty: "to_filter W [] = Some list_filter_default"
  by (simp add: to_filter_def field_def ms_field_def list_filter_default_def)

named_theorems admin_quiet

text \<open>A handler that only looks, and one that changes nothing when it answers that the request is bad.\<close>

definition looks :: "'s admin_handler \<Rightarrow> bool" where
  "looks h \<longleftrightarrow> (\<forall>st. snd (h st) = st)"

definition rejects_bad :: "'s admin_handler \<Rightarrow> bool" where
  "rejects_bad h \<longleftrightarrow> (\<forall>st. (fst (fst (h st)) = 400 \<longrightarrow> snd (h st) = st) \<and> fst (snd (h st)) = fst st)"

lemma rejects_calling [admin_quiet]:
  assumes "\<And>x. fst (k x) \<noteq> 400"
  shows "rejects_bad (calling f k)"
  using assms by (auto simp: rejects_bad_def calling_def internal_def split: prod.split sum.split)

lemma rejects_parse_optional [admin_quiet]:
  assumes "\<And>x. rejects_bad (h x)"
  shows "rejects_bad (parse_optional V dflt conv body h)"
  using assms by (auto simp: rejects_bad_def parse_optional_def split: option.split)

lemma rejects_parse_body [admin_quiet]:
  assumes "\<And>x. rejects_bad (h x)"
  shows "rejects_bad (parse_body V conv body h)"
  using assms by (auto simp: rejects_bad_def parse_body_def split: option.split)

lemma looks_calling:
  assumes "\<And>s. snd (f s) = s"
  shows "looks (calling f k)"
proof -
  have "snd (calling f k st) = st" for st
  proof (cases "f (snd st)")
    case (Pair r s')
    with assms [of "snd st"] show ?thesis by (cases r) (simp_all add: calling_def)
  qed
  thus ?thesis by (simp add: looks_def)
qed

lemma memory_reads:
  "snd (pv_list_workflows (memory_provider from_ms) f s) = s"
  "snd (pv_get_workflow_steps (memory_provider from_ms) wid s) = s"
  by (simp_all add: memory_provider_def list_workflows_def get_workflow_steps_def ok_def Let_def)

lemma get_looks:
  assumes "router R g V GET path body = Some h" "path \<noteq> [''deactivate'']" "rt_provider R = memory_provider from_ms"
  shows "looks h"
  using assms
  by (cases "(R, g, V, GET, path, body)" rule: router.cases)
     (auto simp: admin_get_workflow_def workflow_steps_def memory_reads looks_calling readyz_def queues_metadata_def
        looks_def [of "\<lambda>st. (_, st)"] looks_def [of "readyz V"] looks_def [of "queues_metadata g"] Let_def split: if_splits)

lemma post_rejects:
  assumes "router R g V POST path body = Some h"
  shows "rejects_bad h"
  using assms
  by (cases "(R, g, V, POST, path, body)" rule: router.cases)
     (auto simp: workflow_recovery_def global_timeout_def admin_garbage_collect_def admin_list_workflows_def
        list_queued_workflows_def listing_def admin_cancel_workflow_def admin_resume_workflow_def admin_fork_workflow_def
        Let_def split: if_splits intro!: admin_quiet)

lemma get_never_bad:
  assumes "router R g V GET path body = Some h"
  shows "fst (fst (h st)) \<noteq> 400"
  using assms
  by (cases "(R, g, V, GET, path, body)" rule: router.cases)
     (auto simp: admin_get_workflow_def workflow_steps_def calling_def internal_def readyz_def queues_metadata_def
        admin_deactivate_def Let_def split: if_splits prod.splits sum.splits list.splits)

lemma get_keeps_engine:
  assumes "router R g V GET path body = Some h" "path \<noteq> [''deactivate'']"
  shows "fst (snd (h st)) = fst st"
  using assms
  by (cases "(R, g, V, GET, path, body)" rule: router.cases)
     (auto simp: admin_get_workflow_def workflow_steps_def calling_def readyz_def queues_metadata_def Let_def
        split: if_splits prod.splits sum.splits)

lemma deactivated_not_ready: "fst (fst (readyz V (snd (admin_deactivate st)))) = 503"
  by (simp add: readyz_def admin_deactivate_def deactivate_def is_ready_def health_def dispatch_state_def)

text \<open>
  C29. What a routed admin request may change. A request answered as bad (400) changes nothing. Every GET but
  that of \<open>/deactivate\<close> leaves the store and the engine as they are, over the in-memory provider. No
  other path touches the life cycle of the engine. After \<open>/deactivate\<close> the readiness probe answers 503,
  whatever the database says.
\<close>

theorem admin_requests_safe:
  fixes R :: "(inner, 'h) runtime"
  assumes "router R g V meth path body = Some h" "rt_provider R = memory_provider from_ms"
  shows "(fst (fst (h st)) = 400 \<longrightarrow> snd (h st) = st) \<and>
    (meth = GET \<and> path \<noteq> [''deactivate''] \<longrightarrow> snd (h st) = st) \<and>
    (path \<noteq> [''deactivate''] \<longrightarrow> fst (snd (h st)) = fst st) \<and>
    (path = [''deactivate''] \<longrightarrow> fst (fst (readyz V' (snd (h st)))) = 503)"
proof (cases meth)
  case GET
  note r = assms(1) [unfolded GET]
  have "h = admin_deactivate" if "path = [''deactivate'']" using r that by simp
  with get_looks [OF r _ assms(2)] get_never_bad [OF r] get_keeps_engine [OF r] deactivated_not_ready GET
  show ?thesis by (cases st; cases "path = [''deactivate'']") (simp_all add: looks_def)
next
  case POST
  note r = assms(1) [unfolded POST]
  have "path \<noteq> [''deactivate'']" using r by auto
  with post_rejects [OF r] POST show ?thesis by (cases st) (simp add: rejects_bad_def)
qed

definition wit_admin :: "inner admin_env" where
  "wit_admin =
     \<lparr> av_wire = \<lparr> wi_text = one_value_text JNull ''null'', wi_parse_rfc3339 = (\<lambda>_. Inl []), wi_rfc3339_nanos = (\<lambda>_. []),
         wi_as_secs_f64 = (\<lambda>_. 0), wi_f64 = (\<lambda>_. 0) \<rparr>,
       av_serde_error = (\<lambda>_. ''EOF''), av_show_nat = (\<lambda>_. ''1''), av_ping = Inr (),
       av_recover_pending_for = (\<lambda>_. ok []), av_fresh = ''f'', av_now = 0, av_now2 = 1 \<rparr>"

definition wit_up :: engine_state where
  "wit_up = \<lparr> es_cancelled = False, es_deactivated = False, es_dispatchers = [False] \<rparr>"

theorem admin_requests_safe_witness:
  "fst (fst (readyz wit_admin (wit_up, wit_store))) = 200 \<and>
   fst (fst (readyz wit_admin (snd (admin_deactivate (wit_up, wit_store))))) = 503 \<and>
   fst (fst (list_queued_workflows wit_runtime wit_admin ''{'' (wit_up, wit_store))) = 400 \<and>
   snd (list_queued_workflows wit_runtime wit_admin ''{'' (wit_up, wit_store)) = (wit_up, wit_store)"
proof -
  let ?g = "\<lparr> rg_workflows = [], rg_queues = [], rg_scheduled = [] \<rparr>"
  have p: "rt_provider wit_runtime = memory_provider wit_from_ms" by (simp add: wit_runtime_def)
  have d: "router wit_runtime ?g wit_admin GET [''deactivate''] [] = Some admin_deactivate" by simp
  have q: "router wit_runtime ?g wit_admin POST [''queues''] ''{'' = Some (list_queued_workflows wit_runtime wit_admin ''{'')" by simp
  have up: "fst (fst (readyz wit_admin (wit_up, wit_store))) = 200"
    by (simp add: readyz_def wit_admin_def wit_up_def is_ready_def health_def dispatch_state_def)
  have bad: "fst (fst (list_queued_workflows wit_runtime wit_admin ''{'' (wit_up, wit_store))) = 400"
    by (simp add: list_queued_workflows_def parse_optional_def json_body_def wit_admin_def from_str_ok_def one_value_text_def)
  from admin_requests_safe [OF d p, of "(wit_up, wit_store)" wit_admin]
    admin_requests_safe [OF q p, of "(wit_up, wit_store)" wit_admin] up bad
  show ?thesis by simp
qed

end
