(* ===== verification/Spec2Isabelle.thy ===== *)
theory Spec2Isabelle
  imports Store_Invariant Debounce Provider_Agreement Conductor_Link Admin
begin

text \<open>
  A verification development for \<^verbatim>\<open>durare\<close>, a Rust library for durable execution: workflows whose
  completed operations survive a crash of the process, because every one of them is checkpointed in a
  store and replayed from there.

  \<^bold>\<open>The program.\<close> A workflow is a function over a \<^emph>\<open>context\<close> (\<open>src/src/context.rs\<close>); its steps, timers,
  messages and child workflows write checkpoints through a \<^emph>\<open>state provider\<close> (the trait of
  \<open>src/src/provider.rs\<close>, implemented in memory by \<open>src/src/memory.rs\<close> and over SQL databases, SQLite by
  \<open>src/src/sqlite.rs\<close>); a transactional step (\<open>src/src/tx.rs\<close>) commits its checkpoint with its own writes. The
  \<^emph>\<open>engine\<close> (\<open>src/src/engine.rs\<close>) starts runs, records how they end, recovers the runs of crashed
  processes, claims queued work (the dispatcher), fires cron schedules and offers the management calls;
  \<^emph>\<open>handles\<close> (\<open>src/src/handle.rs\<close>) observe a run. A \<^emph>\<open>client\<close> (\<open>src/src/client.rs\<close>) submits work from
  outside, and the \<^emph>\<open>debouncer\<close> (\<open>src/src/debounce.rs\<close>) collapses bursts of submissions into one run.
  Operators reach an engine through the \<^emph>\<open>conductor\<close> link (\<open>src/src/conductor.rs\<close>) and the \<^emph>\<open>admin server\<close>
  (\<open>src/src/admin.rs\<close>).

  \<^bold>\<open>The theories\<close>, in the order of their imports:

  \<^item> \<open>Prelude\<close>, \<open>Json\<close>: machine integers, options, hash maps as association lists, JSON values.
  \<^item> \<open>Errors\<close>, \<open>Serialize\<close> (\<open>error.rs\<close>, \<open>serialize.rs\<close>): errors and their classification; the three
    payload formats, with round trips for values and errors.
  \<^item> \<open>Provider_Types\<close>, \<open>Queue_Schedule\<close> (\<open>provider.rs\<close>, \<open>queue.rs\<close>, \<open>schedule.rs\<close>): rows, filters, requests.
  \<^item> \<open>Memory_Store\<close>, \<open>Memory_Queue\<close>, \<open>Memory_Messaging\<close>, \<open>Memory_Admin\<close>, \<open>Memory_Registry\<close>,
    \<open>Memory_Listing\<close>, \<open>Memory_Export\<close> (\<open>memory.rs\<close>): the in-memory provider; the state is the record
    \<open>inner\<close>, one definition per trait method. Shown: inserts are idempotent, a cancelled run is not
    overwritten, a claim takes the least claimable rows within every limit and never twice, messages are
    delivered once and in order, fork, delete, recovery cap and export are exact.
  \<^item> \<open>Provider\<close>: the trait as a record of operations, garbage collection and stream drains over it, the
    in-memory provider as an instance.
  \<^item> \<open>Store_Invariant\<close>: the calls of any number of processes as a step relation; reachable stores are well
    formed and checkpoints are permanent.
  \<^item> \<open>Context\<close>, \<open>Replay\<close>, \<open>Direct\<close>, \<open>Durable_Ops\<close>, \<open>Durable_Waits\<close> (\<open>context.rs\<close>): the durable operations; the
    locale \<open>step_store\<close> is the contract they need from a store, from which follow that a re-run after a
    crash continues the first run, and that the durable run is the direct run of the body.
  \<^item> \<open>Engine\<close>, \<open>Recovery\<close>, \<open>Handle\<close>, \<open>Dispatch\<close>, \<open>Scheduler\<close>, \<open>Engine_Admin\<close> (\<open>engine.rs\<close>, \<open>handle.rs\<close>): starting,
    running and recovering workflows; the dispatcher loop as a step relation that interleaves with
    everything else; ticks, backfill and reconciler; the life cycle and management calls.
  \<^item> \<open>Client\<close>, \<open>Debounce\<close> (\<open>client.rs\<close>, \<open>debounce.rs\<close>): both producers of debounced calls are instances of one
    locale.
  \<^item> \<open>Sqlite\<close>, \<open>Sqlite_Ops\<close> (\<open>sqlite.rs\<close> and its migrations): a table is the list of its rows in insertion
    order, a statement a function on the tables, a key of the schema a failure of the statement that
    violates it. A call is atomic, as its statements run in one transaction.
  \<^item> \<open>Tx\<close> (\<open>tx.rs\<close>, \<open>sqlite.rs\<close>): the attempt and conflict loops of a transactional step; opening,
    inserting and committing may fail at every attempt, as an argument says. The conflict loop is bounded by
    its own attempt limit. Shown: the body takes effect exactly once, unless the acknowledgement of a commit
    is lost, when it takes effect twice.
  \<^item> \<open>Sqlite_Refine\<close>, \<open>Provider_Agreement\<close>: the in-memory store that tables stand for, and each operation on
    both sides. The locale \<open>call_simulation\<close> lifts agreement of single calls to sequences of calls; its
    interpretation is the pair of the two providers. \<open>call_ok\<close> is what a call must keep: payloads that
    the codec reads back, instants in whole milliseconds, an order of claims that does not depend on what only
    one side stores, and none of the cases in which the two providers differ (cancelling or resuming a row
    parked by the recovery cap, reading a marker row as a step, re-queueing a row with a deduplication id).
  \<^item> \<open>Conductor_Wire\<close>, \<open>Conductor\<close>, \<open>Conductor_Link\<close> (\<open>conductor.rs\<close>): requests and responses, the handlers
    and their dispatch, and the connection: the reconnect loop over the outcomes of its attempts, and the
    serving loop as a step relation over clock, pings, inbound frames and shutdown. Shown: every answer is
    the answer to its request; the read deadline of the link never fires.
  \<^item> \<open>Admin\<close> (\<open>admin.rs\<close>): routes and handlers, and what a request may change.

  \<^bold>\<open>Time, concurrency and loops.\<close> A clock read takes the instant as an argument, or the next reading of a
  clock function; instants are nanoseconds, durations natural numbers of nanoseconds. Where a task yields,
  the rest of the system is an arbitrary function on the store, or an interleaved step. A loop without a
  bound of its own takes fuel, and its theorems say that enough fuel gives the result.

  \<^bold>\<open>Parameters.\<close> The packages below the crate enter as arguments: JSON text and base64 (\<open>codec_env\<close>), serde of
  user types (\<open>serde\<close>), uuids, the tokio timeout, cron and time zone parsing, float backoff. What a theorem
  needs of them is a hypothesis, and its witness instantiates it.

  \<^bold>\<open>Not modelled.\<close> The Postgres provider: its statements are those of SQLite in another dialect, but its
  claims and wake-ups rest on row locks and notifications whose meaning is the server's. Of the SQLite provider,
  connecting, running the migrations, and export and import; of transactions, binding parameters and reading
  columns, which are calls of the database package. The sockets of conductor and admin server, with the
  closing handshake. Tracing spans (no effect on results), the concurrent select of the context (its branches
  are futures), the macros crate (code generation), and the modules that only hold documentation.
\<close>

end
